(* ===== verification/Rust_Prelude.thy ===== *)
theory Rust_Prelude
  imports Main "HOL-Library.Word" "HOL-Library.List_Lexorder" "HOL-Library.Char_ord"
begin

text \<open>
  What every component of the development shares: the names of the machine types, the
  result of a call that may unwind with a panic, and the parts of the Rust standard library
  that the code of \<^verbatim>\<open>crates/symbols-core\<close> uses on strings and vectors.

  A Rust \<^verbatim>\<open>String\<close> is a \<^typ>\<open>string\<close> holding its UTF-8 bytes: one \<^typ>\<open>char\<close> per
  byte, so the byte-wise order of \<^theory_text>\<open>List_Lexorder\<close> is Rust's \<^verbatim>\<open>Ord for str\<close>. The ASCII
  operations of the code leave every byte of a multi-byte character alone, so they are the
  same on bytes as on characters.
\<close>

section \<open>Machine types and collections of facts\<close>

type_synonym u8 = "8 word"
type_synonym u32 = "32 word"
type_synonym u64 = "64 word"
type_synonym bytes = "u8 list"
type_synonym str = string

named_theorems ascii_simps "characters and the ASCII operations on them"
named_theorems outcome_simps "calls that may panic"
named_theorems frame_simps "what an operation leaves unchanged"
named_theorems inv_intros "operations that keep an invariant"

section \<open>Calls that may unwind\<close>

text \<open>
  A call either returns or panics. \<^verbatim>\<open>std::panic::catch_unwind\<close> turns the second case into
  a value; without it the panic reaches the caller.
\<close>

datatype 'a outcome = Returned 'a | Panicked

primrec obind :: "'a outcome \<Rightarrow> ('a \<Rightarrow> 'b outcome) \<Rightarrow> 'b outcome" where
  "obind (Returned x) f = f x"
| "obind Panicked f = Panicked"

primrec catch_unwind :: "'a outcome \<Rightarrow> 'a option" where
  "catch_unwind (Returned x) = Some x"
| "catch_unwind Panicked = None"

lemma obind_Returned_iff [outcome_simps]:
  "obind r f = Returned y \<longleftrightarrow> (\<exists>x. r = Returned x \<and> f x = Returned y)"
  by (cases r) auto

lemma obind_Panicked_iff [outcome_simps]:
  "obind r f = Panicked \<longleftrightarrow> r = Panicked \<or> (\<exists>x. r = Returned x \<and> f x = Panicked)"
  by (cases r) auto

lemma obind_Returned_right [simp]: "obind r Returned = r"
  by (cases r) auto

section \<open>ASCII and UTF-8 strings\<close>

definition is_ascii_whitespace :: "char \<Rightarrow> bool" where
  "is_ascii_whitespace c \<longleftrightarrow> (of_char c :: nat) \<in> {9, 10, 12, 13, 32}"

definition to_ascii_lowercase :: "char \<Rightarrow> char" where
  "to_ascii_lowercase c =
     (let n = of_char c :: nat in if 65 \<le> n \<and> n \<le> 90 then char_of (n + 32) else c)"

abbreviation lowercase :: "str \<Rightarrow> str" where
  "lowercase \<equiv> map to_ascii_lowercase"

lemma of_char_to_ascii_lowercase [ascii_simps]:
  "(of_char (to_ascii_lowercase c) :: nat) =
     (let n = of_char c in if 65 \<le> n \<and> n \<le> 90 then n + 32 else n)"
  by (auto simp: to_ascii_lowercase_def Let_def)

lemma to_ascii_lowercase_idem [simp, ascii_simps]:
  "to_ascii_lowercase (to_ascii_lowercase c) = to_ascii_lowercase c"
  by (auto simp: to_ascii_lowercase_def Let_def)

lemma lowercase_idem [simp]: "lowercase (lowercase s) = lowercase s"
  by simp

text \<open>
  \<^verbatim>\<open>str::trim\<close> removes Unicode white space on both sides: the characters of the
  property \<^verbatim>\<open>White_Space\<close>, here as their UTF-8 encodings. UTF-8 is self-synchronising,
  so matching the encodings on the bytes of a valid string finds the characters.
\<close>

definition utf8_whitespace :: "str list" where
  "utf8_whitespace =
     map (map char_of)
       ([[9], [10], [11], [12], [13], [32], [194, 133], [194, 160], [225, 154, 128]]
        @ map (\<lambda>n. [226, 128, n]) [128..<139]
        @ [[226, 128, 168], [226, 128, 169], [226, 128, 175], [226, 129, 159],
           [227, 128, 128 :: nat]])"

definition starts_with :: "'a list \<Rightarrow> 'a list \<Rightarrow> bool" where
  "starts_with s p \<longleftrightarrow> take (length p) s = p"

fun strip_prefixes :: "nat \<Rightarrow> str list \<Rightarrow> str \<Rightarrow> str" where
  "strip_prefixes 0 ps s = s"
| "strip_prefixes (Suc n) ps s =
     (case find (starts_with s) ps of
        None \<Rightarrow> s
      | Some p \<Rightarrow> strip_prefixes n ps (drop (length p) s))"

text \<open>Each round drops at least one byte, so the length of the string is fuel enough.\<close>

definition trim_start_of :: "str list \<Rightarrow> str \<Rightarrow> str" where
  "trim_start_of ps s = strip_prefixes (length s) ps s"

definition trim :: "str \<Rightarrow> str" where
  "trim s =
     rev (trim_start_of (map rev utf8_whitespace) (rev (trim_start_of utf8_whitespace s)))"

lemma strip_prefixes_enough:
  assumes "[] \<notin> set ps" and "length s \<le> n"
  shows "find (starts_with (strip_prefixes n ps s)) ps = None"
  using assms(2)
proof (induction n arbitrary: s)
  case 0
  then show ?case
    using assms(1) by (auto simp: find_None_iff starts_with_def)
next
  case (Suc n)
  show ?case
  proof (cases "find (starts_with s) ps")
    case (Some p)
    then have "p \<in> set ps" "starts_with s p" by (auto simp: find_Some_iff)
    with assms(1) have "0 < length p" "length p \<le> length s"
      by (auto simp: starts_with_def dest: arg_cong [where f = length])
    with Suc.prems have "length (drop (length p) s) \<le> n" by (cases p) auto
    with Some Suc.IH show ?thesis by simp
  qed simp
qed

text \<open>A string that begins and ends with printing ASCII characters is left as it is.\<close>

definition is_ascii_graphic :: "char \<Rightarrow> bool" where
  "is_ascii_graphic c \<longleftrightarrow> 33 \<le> (of_char c :: nat) \<and> (of_char c :: nat) < 128"

lemma utf8_whitespace_edges:
  "list_all (\<lambda>p. p \<noteq> [] \<and> \<not> is_ascii_graphic (hd p) \<and> \<not> is_ascii_graphic (last p)) utf8_whitespace"
  by (simp add: utf8_whitespace_def is_ascii_graphic_def upt_rec)

lemma strip_prefixes_none: "find (starts_with s) ps = None \<Longrightarrow> strip_prefixes n ps s = s"
  by (cases n) simp_all

lemma trim_start_graphic:
  assumes "s \<noteq> []" "is_ascii_graphic (hd s)" "list_all (\<lambda>p. p \<noteq> [] \<and> \<not> is_ascii_graphic (hd p)) ps"
  shows "trim_start_of ps s = s"
proof -
  have "\<not> starts_with s p" if "p \<in> set ps" for p
  proof
    assume "starts_with s p"
    moreover from that assms(3) have p: "p \<noteq> []" "\<not> is_ascii_graphic (hd p)"
      by (simp_all add: list_all_iff)
    ultimately have "hd s = hd p" using assms(1) by (cases p; cases s) (auto simp: starts_with_def)
    with p(2) assms(2) show False by simp
  qed
  then have "find (starts_with s) ps = None" by (auto simp: find_None_iff)
  then show ?thesis unfolding trim_start_of_def by (rule strip_prefixes_none)
qed

lemma trim_graphic:
  assumes "s \<noteq> []" "is_ascii_graphic (hd s)" "is_ascii_graphic (last s)"
  shows "trim s = s"
proof -
  have "trim_start_of utf8_whitespace s = s"
    using assms utf8_whitespace_edges by (intro trim_start_graphic) (auto simp: list_all_iff)
  moreover have "trim_start_of (map rev utf8_whitespace) (rev s) = rev s"
    using assms utf8_whitespace_edges
    by (intro trim_start_graphic) (auto simp: list_all_iff hd_rev)
  ultimately show ?thesis by (simp add: trim_def)
qed

text \<open>Characters that the descriptive texts use and that a literal does not show.\<close>

definition em_dash :: str where "em_dash = [CHR 0xE2, CHR 0x80, CHR 0x94]"
definition ellipsis :: str where "ellipsis = [CHR 0xE2, CHR 0x80, CHR 0xA6]"
definition newline :: str where "newline = [CHR 0x0A]"
definition backslash :: str where "backslash = [CHR 0x5C]"

lemmas special_chars = em_dash_def ellipsis_def newline_def backslash_def

section \<open>Splitting and joining\<close>

text \<open>\<^verbatim>\<open>str::split\<close> on a character: always at least one piece.\<close>

fun split_on :: "char \<Rightarrow> str \<Rightarrow> str list" where
  "split_on d [] = [[]]"
| "split_on d (c # cs) =
     (if c = d then [] # split_on d cs
      else (case split_on d cs of [] \<Rightarrow> [[c]] | p # ps \<Rightarrow> (c # p) # ps))"

fun join_with :: "char \<Rightarrow> str list \<Rightarrow> str" where
  "join_with d [] = []"
| "join_with d [p] = p"
| "join_with d (p # q # ps) = p @ d # join_with d (q # ps)"

lemma split_on_nonempty [simp]: "split_on d s \<noteq> []"
  by (cases s) (auto split: list.splits)

lemma split_on_prefix: "d \<notin> set p \<Longrightarrow> split_on d (p @ d # s) = p # split_on d s"
  by (induction p) auto

lemma split_on_single: "d \<notin> set p \<Longrightarrow> split_on d p = [p]"
  by (induction p) auto

lemma split_on_join_with:
  "ps \<noteq> [] \<Longrightarrow> \<forall>p \<in> set ps. d \<notin> set p \<Longrightarrow> split_on d (join_with d ps) = ps"
  by (induction d ps rule: join_with.induct) (auto simp: split_on_single split_on_prefix)

lemma join_with_Cons_char: "join_with d ((c # p) # ps) = c # join_with d (p # ps)"
  by (cases ps) auto

lemma join_with_split_on: "join_with d (split_on d s) = s"
proof (induction s)
  case (Cons c cs)
  then obtain p ps where "split_on d cs = p # ps"
    using split_on_nonempty by (meson list.exhaust)
  with Cons show ?case by (simp add: join_with_Cons_char)
qed simp

section \<open>Decimal numbers\<close>

fun show_nat :: "nat \<Rightarrow> str" where
  "show_nat n =
     (if n < 10 then [char_of (48 + n)]
      else show_nat (n div 10) @ [char_of (48 + n mod 10)])"

declare show_nat.simps [simp del]

definition show_u64 :: "u64 \<Rightarrow> str" where
  "show_u64 w = show_nat (unat w)"

text \<open>
  \<^verbatim>\<open>u64::from_str\<close>: one optional leading plus sign, then at least one decimal digit and
  nothing else; a value past 64 bits is an error.
\<close>

fun parse_digits :: "nat \<Rightarrow> str \<Rightarrow> nat option" where
  "parse_digits acc [] = Some acc"
| "parse_digits acc (c # cs) =
     (let n = of_char c in
      if 48 \<le> n \<and> n \<le> 57 \<and> acc * 10 + (n - 48) < 2 ^ 64
      then parse_digits (acc * 10 + (n - 48)) cs else None)"

definition parse_u64 :: "str \<Rightarrow> u64 option" where
  "parse_u64 s =
     (let digits = (if starts_with s ''+'' then drop 1 s else s)
      in if digits = [] then None else map_option of_nat (parse_digits 0 digits))"

lemma parse_digits_append:
  "parse_digits acc (s @ t) =
     (case parse_digits acc s of None \<Rightarrow> None | Some n \<Rightarrow> parse_digits n t)"
  by (induction acc s rule: parse_digits.induct) (auto simp: Let_def)

lemma parse_digits_show_nat: "n < 2 ^ 64 \<Longrightarrow> parse_digits 0 (show_nat n) = Some n"
proof (induction n rule: show_nat.induct)
  case (1 n)
  have "parse_digits 0 (show_nat (n div 10)) = Some (n div 10)" if "\<not> n < 10"
    using that "1.IH" "1.prems" by simp
  then show ?case
    using "1.prems" by (subst show_nat.simps) (auto simp: parse_digits_append)
qed

lemma show_nat_digits: "c \<in> set (show_nat n) \<Longrightarrow> 48 \<le> (of_char c :: nat) \<and> (of_char c :: nat) \<le> 57"
proof (induction n arbitrary: c rule: show_nat.induct)
  case (1 n)
  then show ?case
    by (subst (asm) (2) show_nat.simps) (auto split: if_splits)
qed

lemma show_nat_nonempty [simp]: "show_nat n \<noteq> []"
  by (subst show_nat.simps) simp

lemma show_nat_no_plus: "\<not> starts_with (show_nat n) ''+''"
proof
  assume "starts_with (show_nat n) ''+''"
  then have "CHR ''+'' \<in> set (show_nat n)"
    by (cases "show_nat n") (auto simp: starts_with_def)
  from show_nat_digits [OF this] show False by simp
qed

lemma parse_show_u64 [simp]: "parse_u64 (show_u64 w) = Some w"
proof -
  have "unat w < 2 ^ 64" using unsigned_less [of w] by simp
  then show ?thesis
    by (simp add: parse_u64_def show_u64_def show_nat_no_plus parse_digits_show_nat)
qed

lemma show_u64_inject [simp]: "show_u64 a = show_u64 b \<longleftrightarrow> a = b"
  by (metis option.inject parse_show_u64)

section \<open>Vectors\<close>

text \<open>\<^verbatim>\<open>Vec::dedup_by_key\<close>: of each run of equal keys only the first element stays.\<close>

fun dedup_by_key :: "('a \<Rightarrow> 'k) \<Rightarrow> 'a list \<Rightarrow> 'a list" where
  "dedup_by_key f [] = []"
| "dedup_by_key f [x] = [x]"
| "dedup_by_key f (x # y # zs) =
     (if f x = f y then dedup_by_key f (x # zs) else x # dedup_by_key f (y # zs))"

lemma dedup_by_key_keys: "f ` set (dedup_by_key f xs) = f ` set xs"
  by (induction f xs rule: dedup_by_key.induct) auto

lemma dedup_by_key_subset: "set (dedup_by_key f xs) \<subseteq> set xs"
  by (induction f xs rule: dedup_by_key.induct) auto

lemma dedup_by_key_sorted:
  "sorted (map f xs) \<Longrightarrow> sorted_wrt (<) (map f (dedup_by_key f xs))"
  for f :: "'a \<Rightarrow> 'k :: linorder"
proof (induction f xs rule: dedup_by_key.induct)
  case (3 f x y zs)
  have le: "f x \<le> f y" and tail: "sorted (map f (y # zs))" "sorted (map f (x # zs))"
    using "3.prems" by simp_all
  show ?case
  proof (cases "f x = f y")
    case True
    then show ?thesis using "3.IH"(1) tail(2) by simp
  next
    case False
    have "f x < f z" if "z \<in> set (dedup_by_key f (y # zs))" for z
    proof -
      have "z \<in> set (y # zs)" by (rule subsetD [OF dedup_by_key_subset that])
      moreover have "\<forall>z \<in> set zs. f y \<le> f z" using tail(1) by simp
      ultimately have "f y \<le> f z" by auto
      with le False show ?thesis by order
    qed
    then show ?thesis using "3.IH"(2) False tail(1) by simp
  qed
qed simp_all

text \<open>
  The binary search of the standard library: the window \<open>[base, base + len)\<close> is halved
  until one element is left, which is then compared with the key. \<^verbatim>\<open>Err i\<close> carries the
  place where the key would be inserted.
\<close>

function bs_loop :: "'k :: linorder list \<Rightarrow> 'k \<Rightarrow> nat \<Rightarrow> nat \<Rightarrow> nat" where
  "bs_loop ks k base len =
     (if 1 < len then
        let half = len div 2; mid = base + half
        in bs_loop ks k (if k < ks ! mid then base else mid) (len - half)
      else base)"
  by pat_completeness auto
termination
  by (relation "measure (\<lambda>(ks, k, base, len). len)") auto

declare bs_loop.simps [simp del]

definition binary_search :: "'k :: linorder list \<Rightarrow> 'k \<Rightarrow> nat + nat" where
  "binary_search ks k =
     (if ks = [] then Inl 0
      else let base = bs_loop ks k 0 (length ks)
           in if ks ! base = k then Inr base
              else Inl (if ks ! base < k then base + 1 else base))"

lemma bs_loop_window:
  assumes "sorted ks" "0 < len" "base + len \<le> length ks"
    and "\<forall>j. base + len \<le> j \<and> j < length ks \<longrightarrow> k < ks ! j"
    and "base = 0 \<or> ks ! base \<le> k"
  shows "bs_loop ks k base len < length ks \<and>
     (\<forall>j. bs_loop ks k base len < j \<and> j < length ks \<longrightarrow> k < ks ! j) \<and>
     (bs_loop ks k base len = 0 \<or> ks ! bs_loop ks k base len \<le> k)"
  using assms
proof (induction ks k base len rule: bs_loop.induct)
  case (1 ks k base len)
  show ?case
  proof (cases "1 < len")
    case False
    with 1(3,4) have "len = 1" by simp
    with 1(3-) show ?thesis by (subst (1 2 3 4) bs_loop.simps) (auto simp: Suc_le_eq)
  next
    case True
    define half where "half = len div 2"
    define base' where "base' = (if k < ks ! (base + half) then base else base + half)"
    from True have half: "0 < half" "half < len" by (auto simp: half_def)
    have step: "bs_loop ks k base len = bs_loop ks k base' (len - half)"
      using True by (subst bs_loop.simps) (simp add: Let_def half_def base'_def)
    have window: "\<forall>j. base' + (len - half) \<le> j \<and> j < length ks \<longrightarrow> k < ks ! j"
    proof (intro allI impI)
      fix j assume j: "base' + (len - half) \<le> j \<and> j < length ks"
      show "k < ks ! j"
      proof (cases "k < ks ! (base + half)")
        case True
        have "len - half \<ge> half" by (simp add: half_def)
        with True j have "base + half \<le> j" unfolding base'_def by simp arith
        with 1(2) j have "ks ! (base + half) \<le> ks ! j" by (simp add: sorted_iff_nth_mono)
        with True show ?thesis by simp
      next
        case False
        with j half 1(5) show ?thesis by (simp add: base'_def)
      qed
    qed
    have low: "base' = 0 \<or> ks ! base' \<le> k" using 1(6) by (auto simp: base'_def)
    have "base' + (len - half) \<le> length ks"
      using 1(4) half by (auto simp: base'_def)
    moreover have "0 < len - half" using half by simp
    ultimately show ?thesis
      unfolding step
      by (rule "1.IH" [OF True half_def refl, folded base'_def, OF 1(2) _ _ window low, rotated])
  qed
qed

lemma bs_loop_whole:
  fixes ks :: "'k :: linorder list" and k :: 'k
  assumes "sorted ks" "ks \<noteq> []"
  defines "b \<equiv> bs_loop ks k 0 (length ks)"
  shows "b < length ks" "\<forall>j. b < j \<and> j < length ks \<longrightarrow> k < ks ! j" "b = 0 \<or> ks ! b \<le> k"
proof -
  have "0 < length ks" "0 + length ks \<le> length ks" using assms(2) by simp_all
  moreover have "\<forall>j. 0 + length ks \<le> j \<and> j < length ks \<longrightarrow> k < ks ! j" by auto
  ultimately have "b < length ks \<and> (\<forall>j. b < j \<and> j < length ks \<longrightarrow> k < ks ! j) \<and> (b = 0 \<or> ks ! b \<le> k)"
    unfolding b_def by (intro bs_loop_window [OF assms(1)]) auto
  then show "b < length ks" "\<forall>j. b < j \<and> j < length ks \<longrightarrow> k < ks ! j" "b = 0 \<or> ks ! b \<le> k"
    by blast+
qed

lemma binary_search_Ok:
  assumes "sorted ks" "binary_search ks k = Inr i"
  shows "i < length ks \<and> ks ! i = k"
  using bs_loop_whole(1) [OF assms(1), of k] assms(2)
  by (auto simp: binary_search_def Let_def split: if_splits)

lemma binary_search_Err:
  assumes "sorted ks" "binary_search ks k = Inl i"
  shows "i \<le> length ks \<and> (\<forall>j < i. ks ! j < k) \<and> (\<forall>j < length ks. i \<le> j \<longrightarrow> k < ks ! j)"
proof (cases "ks = []")
  case True
  with assms(2) show ?thesis by (simp add: binary_search_def)
next
  case False
  define b where "b = bs_loop ks k 0 (length ks)"
  have b: "b < length ks" "\<forall>j. b < j \<and> j < length ks \<longrightarrow> k < ks ! j" "b = 0 \<or> ks ! b \<le> k"
    unfolding b_def by (rule bs_loop_whole [OF assms(1) False])+
  have i: "ks ! b \<noteq> k" "i = (if ks ! b < k then b + 1 else b)"
    using assms(2) False by (auto simp: binary_search_def Let_def b_def split: if_splits)
  have le: "ks ! j \<le> ks ! b" if "j \<le> b" for j
    using assms(1) b(1) that by (simp add: sorted_iff_nth_mono)
  show ?thesis
  proof (cases "ks ! b < k")
    case True
    with i b le show ?thesis by (auto simp: Suc_le_eq less_Suc_eq_le intro: le_less_trans)
  next
    case False
    with i b have "b = 0" "k < ks ! b" by (auto simp: antisym_conv2)
    moreover have "k < ks ! j" if "j < length ks" for j
      using b \<open>b = 0\<close> \<open>k < ks ! b\<close> that by (cases j) auto
    ultimately show ?thesis using i by auto
  qed
qed

section \<open>Association lists standing for hash maps\<close>

text \<open>
  A \<^verbatim>\<open>HashMap\<close> that the code iterates is an association list with distinct keys: its
  order is one of the orders in which the map may be iterated. \<^verbatim>\<open>upsert\<close> is
  \<^verbatim>\<open>HashMap::insert\<close>, \<^verbatim>\<open>or_insert\<close> is \<^verbatim>\<open>entry(k).or_insert(v)\<close>, \<^verbatim>\<open>modify\<close> is an update
  through \<^verbatim>\<open>get_mut\<close>.
\<close>

fun upsert :: "'k \<Rightarrow> 'v \<Rightarrow> ('k \<times> 'v) list \<Rightarrow> ('k \<times> 'v) list" where
  "upsert k v [] = [(k, v)]"
| "upsert k v ((l, w) # ps) = (if l = k then (k, v) # ps else (l, w) # upsert k v ps)"

definition or_insert :: "'k \<Rightarrow> 'v \<Rightarrow> ('k \<times> 'v) list \<Rightarrow> ('k \<times> 'v) list" where
  "or_insert k v ps = (case map_of ps k of Some _ \<Rightarrow> ps | None \<Rightarrow> upsert k v ps)"

definition modify :: "'k \<Rightarrow> ('v \<Rightarrow> 'v) \<Rightarrow> ('k \<times> 'v) list \<Rightarrow> ('k \<times> 'v) list" where
  "modify k f ps = map (\<lambda>(l, w). (l, if l = k then f w else w)) ps"

lemma map_of_upsert [simp]: "map_of (upsert k v ps) = (map_of ps)(k \<mapsto> v)"
  by (induction k v ps rule: upsert.induct) auto

lemma keys_upsert [simp]: "fst ` set (upsert k v ps) = insert k (fst ` set ps)"
  by (induction k v ps rule: upsert.induct) auto

lemma set_upsert_subset: "set (upsert k v ps) \<subseteq> insert (k, v) (set ps)"
  by (induction k v ps rule: upsert.induct) auto

lemma distinct_upsert [intro]:
  "distinct (map fst ps) \<Longrightarrow> distinct (map fst (upsert k v ps))"
proof (induction k v ps rule: upsert.induct)
  case (2 k v l w ps)
  then show ?case using keys_upsert [of k v ps] by (auto simp flip: set_map)
qed simp

lemma map_of_or_insert [simp]:
  "map_of (or_insert k v ps) =
     (if k \<in> dom (map_of ps) then map_of ps else (map_of ps)(k \<mapsto> v))"
  by (auto simp: or_insert_def split: option.splits)

lemma distinct_or_insert [intro]:
  "distinct (map fst ps) \<Longrightarrow> distinct (map fst (or_insert k v ps))"
  by (auto simp: or_insert_def split: option.splits)

lemma keys_modify [simp]: "map fst (modify k f ps) = map fst ps"
  by (simp add: modify_def case_prod_beta comp_def)

lemma map_of_modify [simp]:
  "map_of (modify k f ps) = (map_of ps)(k := map_option f (map_of ps k))"
  by (induction ps) (auto simp: modify_def)

lemma distinct_modify [intro]:
  "distinct (map fst ps) \<Longrightarrow> distinct (map fst (modify k f ps))"
  by simp

section \<open>Machines\<close>

text \<open>
  The interface of a component whose operations are steps on a state: every step keeps an
  invariant, so every run does. A monotone machine has in addition a preorder in which every
  step only moves up.
\<close>

locale step_machine =
  fixes step :: "'op \<Rightarrow> 's \<Rightarrow> 's" and inv :: "'s \<Rightarrow> bool"
  assumes step_inv: "inv s \<Longrightarrow> inv (step oper s)"
begin

lemma run_inv: "inv s \<Longrightarrow> inv (fold step ops s)"
  by (induction ops arbitrary: s) (simp_all add: step_inv)

end

locale monotone_machine = step_machine +
  fixes le :: "'s \<Rightarrow> 's \<Rightarrow> bool"
  assumes le_refl: "le s s"
    and le_trans: "le s t \<Longrightarrow> le t u \<Longrightarrow> le s u"
    and step_le: "inv s \<Longrightarrow> le s (step oper s)"
begin

lemma run_le: "inv s \<Longrightarrow> le s (fold step ops s)"
  by (induction ops arbitrary: s) (auto intro: le_refl le_trans step_le step_inv)

end

end
