(* ===== verification/Errors.thy ===== *)
theory Errors
  imports Rust_Prelude
begin

text \<open>
  \<^verbatim>\<open>crates/symbols-core/src/errors.rs\<close>: the closed set of error kinds, the error value
  that carries one, and the two plumbing operations the parsers use on fallible calls:
  \<open>map_err\<close> for \<^verbatim>\<open>.map_err(...)\<close> and \<open>try_bind\<close> for the \<^verbatim>\<open>?\<close> operator. A fallible call
  that may also unwind has type \<^verbatim>\<open>'a sym_result outcome\<close>.
\<close>

datatype error_kind =
    Truncated
  | BadMagic
  | BadBuildId
  | CorruptLineProgram
  | CorruptInlineTree
  | UnsupportedFormat
  | NestingLimit
  | AllocCap

fun error_as_str :: "error_kind \<Rightarrow> str" where
  "error_as_str Truncated = ''truncated''"
| "error_as_str BadMagic = ''bad-magic''"
| "error_as_str BadBuildId = ''bad-build-id''"
| "error_as_str CorruptLineProgram = ''corrupt-line-program''"
| "error_as_str CorruptInlineTree = ''corrupt-inline-tree''"
| "error_as_str UnsupportedFormat = ''unsupported-format''"
| "error_as_str NestingLimit = ''nesting-limit''"
| "error_as_str AllocCap = ''alloc-cap''"

record sym_error =
  se_kind :: error_kind
  se_detail :: str

definition sym_error_new :: "error_kind \<Rightarrow> str \<Rightarrow> sym_error" where
  "sym_error_new k detail = \<lparr>se_kind = k, se_detail = detail\<rparr>"

definition sym_error_status :: "sym_error \<Rightarrow> str" where
  "sym_error_status e = ''error:'' @ error_as_str (se_kind e)"

definition sym_error_display :: "sym_error \<Rightarrow> str" where
  "sym_error_display e = error_as_str (se_kind e) @ '': '' @ se_detail e"

type_synonym 'a sym_result = "sym_error + 'a"

lemma se_kind_new [simp]: "se_kind (sym_error_new k d) = k"
  by (simp add: sym_error_new_def)

lemma error_as_str_inject [simp]: "error_as_str a = error_as_str b \<longleftrightarrow> a = b"
  by (cases a; cases b) simp_all

section \<open>Error plumbing\<close>

definition map_err :: "('e \<Rightarrow> sym_error) \<Rightarrow> ('e + 'a) outcome \<Rightarrow> 'a sym_result outcome" where
  "map_err f r =
     obind r (\<lambda>x. Returned (case x of Inl e \<Rightarrow> Inl (f e) | Inr y \<Rightarrow> Inr y))"

definition try_bind ::
  "'a sym_result outcome \<Rightarrow> ('a \<Rightarrow> 'b sym_result outcome) \<Rightarrow> 'b sym_result outcome" where
  "try_bind r f = obind r (\<lambda>x. case x of Inl e \<Rightarrow> Returned (Inl e) | Inr y \<Rightarrow> f y)"

lemma map_err_simps [simp]:
  "map_err f (Returned (Inl e)) = Returned (Inl (f e))"
  "map_err f (Returned (Inr y)) = Returned (Inr y)"
  "map_err f Panicked = Panicked"
  by (simp_all add: map_err_def)

lemma try_bind_simps [simp]:
  "try_bind (Returned (Inl e)) f = Returned (Inl e)"
  "try_bind (Returned (Inr y)) f = f y"
  "try_bind Panicked f = Panicked"
  by (simp_all add: try_bind_def)

lemma map_err_Inr_iff [outcome_simps]:
  "map_err f r = Returned (Inr y) \<longleftrightarrow> r = Returned (Inr y)"
  by (cases r rule: outcome.exhaust) (auto simp: map_err_def split: sum.splits)

lemma map_err_Inl_iff [outcome_simps]:
  "map_err f r = Returned (Inl e) \<longleftrightarrow> (\<exists>d. r = Returned (Inl d) \<and> e = f d)"
  by (cases r rule: outcome.exhaust) (auto simp: map_err_def split: sum.splits)

lemma try_bind_Inr_iff [outcome_simps]:
  "try_bind r f = Returned (Inr y) \<longleftrightarrow> (\<exists>x. r = Returned (Inr x) \<and> f x = Returned (Inr y))"
  by (cases r rule: outcome.exhaust) (auto simp: try_bind_def split: sum.splits)

lemma try_bind_Inl_iff [outcome_simps]:
  "try_bind r f = Returned (Inl e) \<longleftrightarrow>
     r = Returned (Inl e) \<or> (\<exists>x. r = Returned (Inr x) \<and> f x = Returned (Inl e))"
  by (cases r rule: outcome.exhaust) (auto simp: try_bind_def split: sum.splits)

end
