(* ===== verification/Frames.thy ===== *)
theory Frames
  imports Errors
begin

text \<open>
  \<^verbatim>\<open>crates/symbols-core/src/frame.rs\<close>: the resolved frames and the triage view of a module.
  An \<^verbatim>\<open>i32\<close> or \<^verbatim>\<open>i64\<close> is a word of that width read with \<^const>\<open>sint\<close>, so casts keep their
  wrap-around.
\<close>

type_synonym i32 = "32 word"
type_synonym i64 = "64 word"

datatype resolve_status =
    StatusOk
  | NotFound
  | NoLine
  | StatusError error_kind

fun as_status :: "resolve_status \<Rightarrow> str" where
  "as_status StatusOk = ''ok''"
| "as_status NotFound = ''not_found''"
| "as_status NoLine = ''no_line''"
| "as_status (StatusError k) = ''error:'' @ error_as_str k"

record resolved_frame =
  rf_inline_depth :: i32
  rf_is_inline :: bool
  rf_function :: "str option"
  rf_function_raw :: "str option"
  rf_file :: "str option"
  rf_line :: "u32 option"
  rf_column :: "u32 option"
  rf_module :: "str option"
  rf_debug_id :: "str option"
  rf_status :: resolve_status

text \<open>\<^verbatim>\<open>ResolvedFrame::default()\<close>, which the two constructors below start from.\<close>

definition default_frame :: resolved_frame where
  "default_frame =
     \<lparr>rf_inline_depth = 0, rf_is_inline = False, rf_function = None, rf_function_raw = None,
      rf_file = None, rf_line = None, rf_column = None, rf_module = None, rf_debug_id = None,
      rf_status = NotFound\<rparr>"

definition not_found_frame :: resolved_frame where
  "not_found_frame =
     default_frame\<lparr>rf_inline_depth := 0, rf_is_inline := False, rf_status := NotFound\<rparr>"

definition error_frame :: "error_kind \<Rightarrow> str option \<Rightarrow> resolved_frame" where
  "error_frame kind dbg =
     default_frame\<lparr>rf_inline_depth := 0, rf_is_inline := False, rf_debug_id := dbg,
       rf_status := StatusError kind\<rparr>"

datatype format = Elf | MachO | DSym | Pe | Pdb | Breakpad

fun format_as_str :: "format \<Rightarrow> str" where
  "format_as_str Elf = ''ELF''"
| "format_as_str MachO = ''MachO''"
| "format_as_str DSym = ''dSYM''"
| "format_as_str Pe = ''PE''"
| "format_as_str Pdb = ''PDB''"
| "format_as_str Breakpad = ''Breakpad''"

record module_info =
  mi_format :: format
  mi_arch :: str
  mi_build_id :: "str option"
  mi_debug_id :: "str option"
  mi_code_id :: "str option"
  mi_has_dwarf :: bool
  mi_has_pdb :: bool
  mi_has_line_table :: bool
  mi_symbol_count :: i64
  mi_file_count :: i64
  mi_byte_size :: i64
  mi_image_base :: u64

lemma not_found_frame_simps [simp]:
  "rf_inline_depth not_found_frame = 0" "rf_is_inline not_found_frame = False"
  "rf_function not_found_frame = None" "rf_function_raw not_found_frame = None"
  "rf_file not_found_frame = None" "rf_line not_found_frame = None"
  "rf_column not_found_frame = None" "rf_module not_found_frame = None"
  "rf_debug_id not_found_frame = None" "rf_status not_found_frame = NotFound"
  by (simp_all add: not_found_frame_def default_frame_def)

lemma error_frame_simps [simp]:
  "rf_inline_depth (error_frame k d) = 0" "rf_is_inline (error_frame k d) = False"
  "rf_function (error_frame k d) = None" "rf_file (error_frame k d) = None"
  "rf_line (error_frame k d) = None" "rf_module (error_frame k d) = None"
  "rf_debug_id (error_frame k d) = d" "rf_status (error_frame k d) = StatusError k"
  by (simp_all add: error_frame_def default_frame_def)

section \<open>Well-formed answers\<close>

text \<open>
  What the documentation of \<^verbatim>\<open>ResolvedFrame\<close> promises of the rows of one address: there is
  at least one, they are numbered from 0 (innermost), and exactly the last one is the
  physical frame.
\<close>

definition frames_wf :: "resolved_frame list \<Rightarrow> bool" where
  "frames_wf fs \<longleftrightarrow> fs \<noteq> [] \<and>
     (\<forall>i < length fs. rf_inline_depth (fs ! i) = of_nat i \<and>
        (rf_is_inline (fs ! i) \<longleftrightarrow> i + 1 < length fs))"

lemma frames_wf_single:
  "rf_inline_depth f = 0 \<Longrightarrow> \<not> rf_is_inline f \<Longrightarrow> frames_wf [f]"
  by (simp add: frames_wf_def)

lemma frames_wf_not_found [simp]: "frames_wf [not_found_frame]"
  by (simp add: frames_wf_single)

lemma frames_wf_error [simp]: "frames_wf [error_frame k d]"
  by (simp add: frames_wf_single)

lemma frames_wf_last:
  assumes "frames_wf fs"
  shows "\<not> rf_is_inline (last fs)" "f \<in> set (butlast fs) \<Longrightarrow> rf_is_inline f"
  using assms
  by (auto simp: frames_wf_def last_conv_nth in_set_conv_nth nth_butlast)

lemma as_status_inject: "as_status a = as_status b \<longleftrightarrow> a = b"
  by (cases a; cases b) auto

end
