(* ===== verification/Crates.thy ===== *)
theory Crates
  imports Frames
begin

text \<open>
  What the code sees of the crates it calls (\<^verbatim>\<open>object\<close>, \<^verbatim>\<open>gimli\<close>, \<^verbatim>\<open>addr2line\<close>,
  \<^verbatim>\<open>pdb-addr2line\<close>, \<^verbatim>\<open>debugid\<close>, \<^verbatim>\<open>symbolic-demangle\<close>). None of them is in the repository, so
  nothing here says what they compute: a value of a crate is the record of what its methods
  return, and the crates' entry points are the fields of a record that every definition using
  them takes as an argument. A call that may fail returns a sum, with the crate's error
  already rendered by \<^verbatim>\<open>Display\<close>; a call on untrusted bytes may also unwind.
\<close>

section \<open>debugid\<close>

text \<open>A \<^verbatim>\<open>DebugId\<close>: the two renderings the code asks for.\<close>

record debug_id =
  did_breakpad :: str
  did_uuid_simple :: str

section \<open>object\<close>

datatype architecture =
    X86_64 | X86_64_X32 | I386 | Aarch64 | Aarch64_Ilp32 | ArmArch | PowerPc | PowerPc64
  | Riscv32 | Riscv64 | Mips | Mips64 | S390x | LoongArch64 | Wasm32 | UnknownArch
  | OtherArch str  \<comment> \<open>any other variant, by its \<^verbatim>\<open>Debug\<close> name\<close>

datatype file_kind = Elf32 | Elf64 | MachO32 | MachO64 | Pe32 | Pe64
  | OtherKind str  \<comment> \<open>any other variant, by its \<^verbatim>\<open>Debug\<close> name\<close>

text \<open>A symbol: whether its kind is \<^verbatim>\<open>SymbolKind::Text\<close>, its name (or an error), its address.\<close>

record object_symbol =
  os_is_text :: bool
  os_name :: "str option"
  os_address :: u64

text \<open>A section: its uncompressed data, \<^const>\<open>None\<close> when that fails.\<close>

type_synonym object_section = "bytes option outcome"

record object_file =
  of_architecture :: architecture
  of_little_endian :: bool
  of_relative_base :: u64
  of_build_id :: "(str + bytes option) outcome"
  of_mach_uuid :: "(str + bytes option) outcome"
  of_pdb_info :: "(str + (bytes \<times> u32) option) outcome"
  of_symbols :: "object_symbol list outcome"
  of_section_by_name :: "str \<Rightarrow> object_section option"

section \<open>gimli and addr2line\<close>

text \<open>
  A gimli reader is the section's bytes with their byte order. A loaded \<^verbatim>\<open>Dwarf\<close> yields unit
  headers one \<^verbatim>\<open>next()\<close> at a time; a header leads to a unit (or an error), and a unit has a
  line program with a number of file names, or none.
\<close>

type_synonym reader = "bytes \<times> bool"

datatype units_next = NextUnit "nat option option" | UnitsEnd | UnitsErr

record gimli_dwarf =
  gd_units_next :: "nat \<Rightarrow> units_next outcome"  \<comment> \<open>the result of the n-th call\<close>

text \<open>
  One frame of \<^verbatim>\<open>addr2line\<close>: the function, if any, with its raw name (\<^const>\<open>None\<close> when
  decoding it fails), and the location.
\<close>

record raw_view =
  rv_function :: "str option option"
  rv_location :: "(str option \<times> u32 option \<times> u32 option) option"

datatype iter_next = NextFrame raw_view | IterEnd | IterErr

text \<open>
  The \<^verbatim>\<open>Context\<close>: \<^verbatim>\<open>find_frames(addr).skip_all_loads()\<close> fails or gives an iterator, the
  n-th call of whose \<^verbatim>\<open>next()\<close> is the n-th value of a function.
\<close>

type_synonym frame_iter = "nat \<Rightarrow> iter_next outcome"
type_synonym dwarf_ctx = "u64 \<Rightarrow> (str + frame_iter) outcome"

section \<open>pdb-addr2line\<close>

datatype machine_type = Amd64 | X86 | Arm64 | Arm | ArmNT
  | OtherMachine str  \<comment> \<open>any other variant, by its \<^verbatim>\<open>Debug\<close> name\<close>

record pdb_frame =
  pfr_function :: "str option"
  pfr_file :: "str option"
  pfr_line :: "u32 option"

record pdb_context =
  pc_function_count :: nat
  pc_find_frames :: "u32 \<Rightarrow> (str + pdb_frame list option) outcome"

type_synonym pdb_data = "(str + pdb_context) outcome"  \<comment> \<open>\<^verbatim>\<open>make_context()\<close>\<close>

record pdb_file =
  pf_information :: "(str + (bytes \<times> u32)) outcome"
  pf_debug_information :: "(str + (str + machine_type)) outcome"
  pf_context_data :: "(str + pdb_data) outcome"

section \<open>symbolic-demangle\<close>

datatype name_mangling = ManglingUnknown | Mangled
datatype language = LangUnknown | LangCpp | LangRust | LangSwift

section \<open>The entry points\<close>

record crates =
  cr_file_kind :: "bytes \<Rightarrow> (str + file_kind) outcome"
  cr_object_parse :: "bytes \<Rightarrow> (str + object_file) outcome"
  cr_from_guid_age :: "bytes \<Rightarrow> u32 \<Rightarrow> debug_id option"
  cr_from_uuid :: "bytes \<Rightarrow> debug_id"
  cr_from_parts :: "bytes \<Rightarrow> u32 \<Rightarrow> debug_id"
  cr_gimli_load :: "(str \<Rightarrow> (str + reader) outcome) \<Rightarrow> (str + gimli_dwarf) outcome"
  cr_from_dwarf :: "gimli_dwarf \<Rightarrow> (str + dwarf_ctx) outcome"
  cr_pdb_open :: "bytes \<Rightarrow> (str + pdb_file) outcome"
  cr_demangle :: "name_mangling \<Rightarrow> language \<Rightarrow> str \<Rightarrow> str"

end
