(* ===== verification/Identity.thy ===== *)
theory Identity
  imports Crates
begin

unbundle bit_operations_syntax

text \<open>
  \<^verbatim>\<open>crates/symbols-core/src/id.rs\<close>, with the PDB half of the identity from
  \<^verbatim>\<open>module/pdb.rs\<close> and the dispatch \<^verbatim>\<open>probe_identity\<close> from \<^verbatim>\<open>module/mod.rs\<close>: how the debug-id
  of a file is derived, and the canonical tokens by which modules and frames are compared.
\<close>

section \<open>Canonical tokens\<close>

definition is_separator :: "char \<Rightarrow> bool" where
  "is_separator c \<longleftrightarrow> is_ascii_whitespace c \<or> c \<in> {CHR ''-'', CHR 0x7B, CHR 0x7D}"

definition canonical_token :: "str \<Rightarrow> str" where
  "canonical_token s = map to_ascii_lowercase (filter (\<lambda>c. \<not> is_separator c) s)"

lemma is_separator_lowercase [simp]: "is_separator (to_ascii_lowercase c) = is_separator c"
proof -
  have *: "x = y \<longleftrightarrow> (of_char x :: nat) = of_char y" for x y :: char by simp
  show ?thesis
    unfolding is_separator_def is_ascii_whitespace_def
    by (auto simp: * of_char_to_ascii_lowercase Let_def simp del: of_char_eq_iff split: if_splits)
qed

lemma canonical_token_append: "canonical_token (s @ t) = canonical_token s @ canonical_token t"
  by (simp add: canonical_token_def)

lemma canonical_token_idem [simp]: "canonical_token (canonical_token s) = canonical_token s"
  by (simp add: canonical_token_def filter_map comp_def)

section \<open>Hexadecimal\<close>

definition hex_digit :: "nat \<Rightarrow> char" where
  "hex_digit n = (if n < 10 then char_of (48 + n) else char_of (87 + n))"

fun hex_encode :: "bytes \<Rightarrow> str" where
  "hex_encode [] = []"
| "hex_encode (b # bs) =
     hex_digit (unat (drop_bit 4 b)) # hex_digit (unat (b AND 0xf)) # hex_encode bs"

section \<open>Identities\<close>

record identity =
  id_format :: format
  id_arch :: str
  id_debug_id :: debug_id
  id_raw_build_id :: "str option"
  id_code_id :: "str option"
  id_image_base :: u64

definition debug_id_str :: "identity \<Rightarrow> str" where
  "debug_id_str i = lowercase (did_breakpad (id_debug_id i))"

definition aliases :: "identity \<Rightarrow> str list" where
  "aliases i =
     remdups_adj (sort
       ([canonical_token (debug_id_str i), canonical_token (did_uuid_simple (id_debug_id i))]
        @ (case id_raw_build_id i of Some b \<Rightarrow> [canonical_token b] | None \<Rightarrow> [])))"

fun arch_name :: "architecture \<Rightarrow> str" where
  "arch_name X86_64 = ''x86_64''"
| "arch_name X86_64_X32 = ''x86_64''"
| "arch_name I386 = ''x86''"
| "arch_name Aarch64 = ''aarch64''"
| "arch_name Aarch64_Ilp32 = ''aarch64''"
| "arch_name ArmArch = ''arm''"
| "arch_name PowerPc = ''ppc''"
| "arch_name PowerPc64 = ''ppc64''"
| "arch_name Riscv32 = ''riscv32''"
| "arch_name Riscv64 = ''riscv64''"
| "arch_name Mips = ''mips''"
| "arch_name Mips64 = ''mips64''"
| "arch_name S390x = ''s390x''"
| "arch_name LoongArch64 = ''loongarch64''"
| "arch_name Wasm32 = ''wasm32''"
| "arch_name UnknownArch = ''unknown''"
| "arch_name (OtherArch dbg) = lowercase dbg"

section \<open>ELF, Mach-O and PE\<close>

fun format_of_kind :: "file_kind \<Rightarrow> format sym_result" where
  "format_of_kind Elf32 = Inr Elf"
| "format_of_kind Elf64 = Inr Elf"
| "format_of_kind MachO32 = Inr MachO"
| "format_of_kind MachO64 = Inr MachO"
| "format_of_kind Pe32 = Inr Pe"
| "format_of_kind Pe64 = Inr Pe"
| "format_of_kind (OtherKind dbg) =
     Inl (sym_error_new UnsupportedFormat (''unsupported container '' @ dbg))"

text \<open>\<^verbatim>\<open>.ok().flatten().ok_or_else(...)\<close> on an accessor.\<close>

definition ok_flatten_or :: "sym_error \<Rightarrow> (str + 'a option) outcome \<Rightarrow> 'a sym_result outcome" where
  "ok_flatten_or e r =
     obind r (\<lambda>x. Returned (case x of Inr (Some y) \<Rightarrow> Inr y | _ \<Rightarrow> Inl e))"

definition elf_guid :: "bytes \<Rightarrow> bytes" where
  "elf_guid build =
     (let n = min (length build) 16 in take n build @ drop n (replicate 16 0))"

definition debug_id_or :: "sym_error \<Rightarrow> debug_id option \<Rightarrow> debug_id sym_result outcome" where
  "debug_id_or e d = Returned (case d of Some d \<Rightarrow> Inr d | None \<Rightarrow> Inl e)"

text \<open>The match on the format; every other format is \<^verbatim>\<open>unreachable!()\<close>.\<close>

definition object_ids ::
  "crates \<Rightarrow> format \<Rightarrow> object_file \<Rightarrow> (debug_id \<times> str option \<times> str option) sym_result outcome" where
  "object_ids K fmt obj =
     (case fmt of
        Elf \<Rightarrow>
          try_bind (ok_flatten_or (sym_error_new BadBuildId ''no GNU build-id note'') (of_build_id obj))
            (\<lambda>build. let raw = hex_encode build in
              try_bind (debug_id_or (sym_error_new BadBuildId ''bad build-id guid'')
                  (cr_from_guid_age K (elf_guid build) 0))
                (\<lambda>d. Returned (Inr (d, Some raw, Some raw))))
      | MachO \<Rightarrow>
          try_bind (ok_flatten_or (sym_error_new BadBuildId ''no LC_UUID'') (of_mach_uuid obj))
            (\<lambda>uuid. let raw = hex_encode uuid in
              Returned (Inr (cr_from_uuid K uuid, Some raw, Some raw)))
      | Pe \<Rightarrow>
          try_bind (ok_flatten_or (sym_error_new BadBuildId ''no CodeView debug info'') (of_pdb_info obj))
            (\<lambda>(guid, age).
              try_bind (debug_id_or (sym_error_new BadBuildId ''bad PE guid'')
                  (cr_from_guid_age K guid age))
                (\<lambda>d. Returned (Inr (d, Some (hex_encode guid), None))))
      | _ \<Rightarrow> Panicked)"

definition identity_from_object :: "crates \<Rightarrow> bytes \<Rightarrow> identity sym_result outcome" where
  "identity_from_object K data =
     try_bind (map_err (\<lambda>e. sym_error_new BadMagic (''file kind: '' @ e)) (cr_file_kind K data))
       (\<lambda>kind. try_bind (Returned (format_of_kind kind))
         (\<lambda>fmt. try_bind
             (map_err (\<lambda>e. sym_error_new Truncated (''parse object: '' @ e)) (cr_object_parse K data))
           (\<lambda>obj. try_bind (object_ids K fmt obj)
             (\<lambda>(d, raw, code). Returned (Inr
               \<lparr>id_format = fmt, id_arch = arch_name (of_architecture obj), id_debug_id = d,
                id_raw_build_id = raw, id_code_id = code,
                id_image_base = of_relative_base obj\<rparr>)))))"

section \<open>PDB\<close>

fun machine_arch :: "machine_type \<Rightarrow> str" where
  "machine_arch Amd64 = ''x86_64''"
| "machine_arch X86 = ''x86''"
| "machine_arch Arm64 = ''aarch64''"
| "machine_arch Arm = ''arm''"
| "machine_arch ArmNT = ''arm''"
| "machine_arch (OtherMachine dbg) = lowercase dbg"

definition pdb_arch :: "pdb_file \<Rightarrow> str outcome" where
  "pdb_arch pdb =
     obind (pf_debug_information pdb)
       (\<lambda>r. Returned (case r of Inr (Inr m) \<Rightarrow> machine_arch m | _ \<Rightarrow> ''unknown''))"

definition pdb_identity_of :: "crates \<Rightarrow> pdb_file \<Rightarrow> identity sym_result outcome" where
  "pdb_identity_of K pdb =
     try_bind (map_err (\<lambda>e. sym_error_new BadBuildId (''pdb info: '' @ e)) (pf_information pdb))
       (\<lambda>(guid, age). obind (pdb_arch pdb) (\<lambda>arch. Returned (Inr
          \<lparr>id_format = Pdb, id_arch = arch, id_debug_id = cr_from_parts K guid age,
           id_raw_build_id = Some (hex_encode guid), id_code_id = None, id_image_base = 0\<rparr>)))"

definition pdb_open :: "crates \<Rightarrow> bytes \<Rightarrow> pdb_file sym_result outcome" where
  "pdb_open K data =
     map_err (\<lambda>e. sym_error_new BadMagic (''pdb open: '' @ e)) (cr_pdb_open K data)"

definition pdb_identity :: "crates \<Rightarrow> bytes \<Rightarrow> identity sym_result outcome" where
  "pdb_identity K data = try_bind (pdb_open K data) (pdb_identity_of K)"

section \<open>Dispatch on the container magic\<close>

definition PDB_MAGIC :: bytes where
  "PDB_MAGIC = map of_char (''Microsoft C/C++ MSF 7.00'') @ [0x0d, 0x0a, 0x1a, 0x44, 0x53, 0, 0, 0]"

definition probe_identity :: "crates \<Rightarrow> bytes \<Rightarrow> identity sym_result outcome" where
  "probe_identity K data =
     (if starts_with data PDB_MAGIC then pdb_identity K data else identity_from_object K data)"

section \<open>The interface of token normalisation\<close>

text \<open>
  What the cache and the source registry rely on: normalising twice is normalising once, so
  an operation that looks at a token only through its normal form answers every spelling of
  the token alike.
\<close>

locale token_norm =
  fixes norm :: "'t \<Rightarrow> 't"
  assumes norm_idem: "norm (norm s) = norm s"
begin

lemma through_norm: "(\<And>s. f s = g (norm s)) \<Longrightarrow> f (norm s) = f s"
  by (simp add: norm_idem)

lemma same_spelling: "(\<And>s. f s = g (norm s)) \<Longrightarrow> norm s = norm t \<Longrightarrow> f s = f t"
  by simp

end

interpretation tok: token_norm canonical_token
  by unfold_locales simp

section \<open>Facts about identities\<close>

lemma canonical_token_chars:
  "list_all (\<lambda>c. \<not> is_separator c \<and> to_ascii_lowercase c = c) (canonical_token s)"
  by (auto simp: canonical_token_def list_all_iff)

lemma canonical_token_separator: "is_separator c \<Longrightarrow> canonical_token [c] = []"
  by (simp add: canonical_token_def)

lemma canonical_token_join:
  "is_separator d \<Longrightarrow> canonical_token (join_with d gs) = canonical_token (concat gs)"
proof (induction d gs rule: join_with.induct)
  case (3 d p q ps)
  then show ?case
    using canonical_token_append [of "[d]"] canonical_token_separator [of d]
    by (simp add: canonical_token_append)
qed (simp_all add: canonical_token_def)

definition hex_value :: "char \<Rightarrow> nat option" where
  "hex_value c =
     (let n = of_char c in
      if 48 \<le> n \<and> n \<le> 57 then Some (n - 48) else if 97 \<le> n \<and> n \<le> 102 then Some (n - 87) else None)"

text \<open>The specification side of \<^const>\<open>hex_encode\<close>: reading the digits back.\<close>

fun hex_decode :: "str \<Rightarrow> bytes option" where
  "hex_decode [] = Some []"
| "hex_decode [c] = None"
| "hex_decode (h # l # cs) =
     (case (hex_value h, hex_value l, hex_decode cs) of
        (Some a, Some b, Some bs) \<Rightarrow> Some (of_nat (16 * a + b) # bs)
      | _ \<Rightarrow> None)"

lemma hex_value_digit [simp]: "n < 16 \<Longrightarrow> hex_value (hex_digit n) = Some n"
  by (auto simp: hex_value_def hex_digit_def Let_def)

lemma unat_high_nibble: "unat (drop_bit 4 b) = unat b div 16" for b :: u8
  by (simp add: drop_bit_eq_div unat_div)

lemma unat_low_nibble: "unat (b AND 0xf) = unat b mod 16" for b :: u8
proof -
  have "b AND 0xf = take_bit 4 b" by (simp add: take_bit_eq_mask mask_eq_exp_minus_1)
  then show ?thesis by (simp add: take_bit_eq_mod unat_mod)
qed

lemma hex_digit_plain: "n < 16 \<Longrightarrow> canonical_token [hex_digit n] = [hex_digit n]"
proof -
  assume n: "n < 16"
  have *: "x = y \<longleftrightarrow> (of_char x :: nat) = of_char y" for x y :: char by simp
  show ?thesis
    using n unfolding canonical_token_def is_separator_def is_ascii_whitespace_def hex_digit_def
    by (auto simp: * of_char_to_ascii_lowercase Let_def simp del: of_char_eq_iff)
qed

lemma nibbles_lt: "unat (drop_bit 4 b) < 16" "unat (b AND 0xf) < 16" for b :: u8
proof -
  have "unat b < 256" using unsigned_less [of b] by simp
  then show "unat (drop_bit 4 b) < 16" by (simp add: unat_high_nibble)
qed (simp add: unat_low_nibble)

lemma hex_decode_encode: "hex_decode (hex_encode bs) = Some bs"
proof (induction bs)
  case (Cons b bs)
  have "of_nat (16 * unat (drop_bit 4 b) + unat (b AND 0xf)) = b"
    unfolding unat_high_nibble unat_low_nibble mult_div_mod_eq by simp
  with Cons show ?case by (simp add: nibbles_lt)
qed simp

lemma length_hex_encode: "length (hex_encode bs) = 2 * length bs"
  by (induction bs) auto

lemma canonical_token_hex: "canonical_token (hex_encode bs) = hex_encode bs"
proof (induction bs)
  case (Cons b bs)
  let ?h = "hex_digit (unat (drop_bit 4 b))" and ?l = "hex_digit (unat (b AND 0xf))"
  have "canonical_token (hex_encode (b # bs)) =
      canonical_token [?h] @ canonical_token [?l] @ canonical_token (hex_encode bs)"
    by (simp flip: canonical_token_append)
  then show ?case by (simp add: hex_digit_plain nibbles_lt Cons)
qed (simp add: canonical_token_def)

lemma sorted_remdups_adj_distinct: "sorted xs \<Longrightarrow> distinct (remdups_adj xs)" for xs :: "str list"
  by (induction xs rule: remdups_adj.induct) (auto simp: order.antisym)

lemma set_aliases:
  "set (aliases i) =
     insert (canonical_token (debug_id_str i))
       (insert (canonical_token (did_uuid_simple (id_debug_id i)))
         (canonical_token ` set_option (id_raw_build_id i)))"
  by (auto simp: aliases_def split: option.splits)

lemma aliases_canonical: "t \<in> set (aliases i) \<Longrightarrow> canonical_token t = t"
  by (auto simp: set_aliases)

lemma aliases_debug_id [simp]: "canonical_token (debug_id_str i) \<in> set (aliases i)"
  by (simp add: set_aliases)

lemma aliases_sorted_distinct: "sorted (aliases i) \<and> distinct (aliases i)"
  unfolding aliases_def
  by (intro conjI sorted_remdups_adj sorted_remdups_adj_distinct sorted_sort)

lemma length_elf_guid [simp]: "length (elf_guid b) = 16"
  by (simp add: elf_guid_def Let_def)

end
