(* ===== verification/Module_Base.thy ===== *)
theory Module_Base
  imports Identity
begin

text \<open>
  What both kinds of debug module share: the caps of \<^verbatim>\<open>module::Limits\<close>, the demangler of
  \<^verbatim>\<open>demangle.rs\<close>, and the contract that the resolver of either kind keeps and that the
  panic-containing wrapper of \<^verbatim>\<open>module/mod.rs\<close> relies on.
\<close>

section \<open>Limits\<close>

record limits =
  lim_max_parse_bytes :: u64
  lim_max_inline_depth :: nat
  lim_max_units :: nat

definition default_limits :: limits where
  "default_limits =
     \<lparr>lim_max_parse_bytes = 2 * 1024 * 1024 * 1024, lim_max_inline_depth = 256,
      lim_max_units = 200000\<rparr>"

section \<open>Demangling\<close>

datatype demangle_lang = Auto | Cpp | Rust | Msvc | Swift

definition demangle_lang_parse :: "str \<Rightarrow> str + demangle_lang" where
  "demangle_lang_parse s =
     (let t = lowercase (trim s) in
      if t \<in> {''auto'', ''''} then Inr Auto
      else if t \<in> {''cpp'', ''c++'', ''cxx''} then Inr Cpp
      else if t = ''rust'' then Inr Rust
      else if t = ''msvc'' then Inr Msvc
      else if t = ''swift'' then Inr Swift
      else Inl (''unknown demangle lang '' @ [CHR 0x27] @ t @ [CHR 0x27]
             @ '' (expected auto/cpp/rust/msvc/swift)''))"

fun demangle_language :: "demangle_lang \<Rightarrow> language" where
  "demangle_language Auto = LangUnknown"
| "demangle_language Cpp = LangCpp"
| "demangle_language Rust = LangRust"
| "demangle_language Msvc = LangCpp"
| "demangle_language Swift = LangSwift"

text \<open>\<^verbatim>\<open>Name::from\<close> has unknown mangling and language; both end in \<^verbatim>\<open>try_demangle(name_only())\<close>.\<close>

definition demangle :: "crates \<Rightarrow> str \<Rightarrow> demangle_lang \<Rightarrow> str" where
  "demangle K mangled lang =
     (case lang of
        Auto \<Rightarrow> cr_demangle K ManglingUnknown LangUnknown mangled
      | other \<Rightarrow> cr_demangle K Mangled (demangle_language other) mangled)"

definition try_demangle :: "crates \<Rightarrow> str \<Rightarrow> str" where
  "try_demangle K mangled = cr_demangle K ManglingUnknown LangUnknown mangled"

section \<open>Stamped frames\<close>

text \<open>
  The frame both module kinds start from (\<^verbatim>\<open>blank_frame\<close>): the module's name, its debug-id
  and a status, with all symbol fields empty.
\<close>

definition blank_frame :: "str \<Rightarrow> identity \<Rightarrow> resolve_status \<Rightarrow> resolved_frame" where
  "blank_frame name i status =
     \<lparr>rf_inline_depth = 0, rf_is_inline = False, rf_function = None, rf_function_raw = None,
      rf_file = None, rf_line = None, rf_column = None, rf_module = Some name,
      rf_debug_id = Some (debug_id_str i), rf_status = status\<rparr>"

lemma blank_frame_simps [simp]:
  "rf_inline_depth (blank_frame n i s) = 0" "rf_is_inline (blank_frame n i s) = False"
  "rf_function (blank_frame n i s) = None" "rf_function_raw (blank_frame n i s) = None"
  "rf_module (blank_frame n i s) = Some n"
  "rf_debug_id (blank_frame n i s) = Some (debug_id_str i)"
  "rf_status (blank_frame n i s) = s"
  by (simp_all add: blank_frame_def)

definition stamped :: "str \<Rightarrow> identity \<Rightarrow> resolved_frame \<Rightarrow> bool" where
  "stamped name i f \<longleftrightarrow> rf_module f = Some name \<and> rf_debug_id f = Some (debug_id_str i)"

text \<open>Either every frame resolved, or there is one frame and it says why not.\<close>

definition status_uniform :: "resolved_frame list \<Rightarrow> bool" where
  "status_uniform fs \<longleftrightarrow>
     list_all (\<lambda>f. rf_status f = StatusOk) fs \<or> (length fs = 1 \<and> rf_status (hd fs) \<noteq> StatusOk)"

lemma stamped_blank [simp]: "stamped n i (blank_frame n i s)"
  by (simp add: stamped_def)

lemma status_uniform_single [simp]: "status_uniform [f]"
  by (auto simp: status_uniform_def)

text \<open>
  The answer of one address built from a list of raw frames: numbered, marked inline except
  the last, filled in by \<open>fill\<close> (which leaves the numbering and the stamp alone).
\<close>

definition number_frames ::
  "('r \<Rightarrow> resolved_frame \<Rightarrow> resolved_frame) \<Rightarrow> str \<Rightarrow> identity \<Rightarrow> 'r list \<Rightarrow> resolved_frame list" where
  "number_frames fill name i raw =
     map (\<lambda>(k, r). fill r ((blank_frame name i StatusOk)
            \<lparr>rf_inline_depth := of_nat k, rf_is_inline := k + 1 < length raw\<rparr>))
       (enumerate 0 raw)"

lemma length_number_frames [simp]: "length (number_frames fill n i raw) = length raw"
  by (simp add: number_frames_def)

lemma number_frames_Nil_iff [simp]: "number_frames fill n i raw = [] \<longleftrightarrow> raw = []"
  by (metis length_0_conv length_number_frames)

lemma number_frames_nth:
  "k < length raw \<Longrightarrow> number_frames fill n i raw ! k =
     fill (raw ! k) ((blank_frame n i StatusOk)
       \<lparr>rf_inline_depth := of_nat k, rf_is_inline := k + 1 < length raw\<rparr>)"
  by (simp add: number_frames_def nth_enumerate_eq)

lemma number_frames_answer:
  assumes "raw \<noteq> []"
    and "\<And>r f. rf_inline_depth (fill r f) = rf_inline_depth f"
    and "\<And>r f. rf_is_inline (fill r f) = rf_is_inline f"
    and "\<And>r f. rf_module (fill r f) = rf_module f"
    and "\<And>r f. rf_debug_id (fill r f) = rf_debug_id f"
    and "\<And>r f. rf_status (fill r f) = rf_status f"
  shows "frames_wf (number_frames fill n i raw)"
    "list_all (stamped n i) (number_frames fill n i raw)"
    "status_uniform (number_frames fill n i raw)"
proof -
  let ?fs = "number_frames fill n i raw"
  note keeps = assms(2-)
  show "frames_wf ?fs" using assms(1) by (simp add: frames_wf_def number_frames_nth keeps)
  show "list_all (stamped n i) ?fs"
    by (simp add: list_all_length number_frames_nth stamped_def keeps)
  have "list_all (\<lambda>f. rf_status f = StatusOk) ?fs"
    by (simp add: list_all_length number_frames_nth keeps)
  then show "status_uniform ?fs" by (simp add: status_uniform_def)
qed

section \<open>The contract of a module kind\<close>

text \<open>
  \<^verbatim>\<open>ParsedModule\<close> calls \<open>res\<close> under \<^verbatim>\<open>catch_unwind\<close>; what it needs from either kind is that
  an answer, when there is one, is well-formed, stamped, and has one outcome.
\<close>

locale module_backend =
  fixes mname :: "'m \<Rightarrow> str"
    and mident :: "'m \<Rightarrow> identity"
    and res :: "'m \<Rightarrow> u64 \<Rightarrow> limits \<Rightarrow> resolved_frame list outcome"
  assumes res_wf: "res m a l = Returned fs \<Longrightarrow> frames_wf fs"
    and res_stamped: "res m a l = Returned fs \<Longrightarrow> list_all (stamped (mname m) (mident m)) fs"
    and res_uniform: "res m a l = Returned fs \<Longrightarrow> status_uniform fs"
begin

text \<open>The answer with the panic contained, as the wrapper computes it.\<close>

lemma contained:
  fixes m a l
  defines "fs \<equiv> (case catch_unwind (res m a l) of Some fs \<Rightarrow> fs
     | None \<Rightarrow> [error_frame CorruptLineProgram (Some (debug_id_str (mident m)))])"
  shows "frames_wf fs" "status_uniform fs"
    "list_all (\<lambda>f. rf_debug_id f = Some (debug_id_str (mident m))) fs"
proof -
  have "frames_wf fs \<and> status_uniform fs \<and>
      list_all (\<lambda>f. rf_debug_id f = Some (debug_id_str (mident m))) fs"
  proof (cases "res m a l")
    case (Returned gs)
    then have "fs = gs" by (simp add: fs_def)
    with Returned show ?thesis
      using res_wf res_stamped res_uniform by (force simp: list_all_iff stamped_def)
  qed (simp add: fs_def)
  then show "frames_wf fs" "status_uniform fs"
    "list_all (\<lambda>f. rf_debug_id f = Some (debug_id_str (mident m))) fs" by blast+
qed

end

end
