(* ===== verification/Dwarf_Module.thy ===== *)
theory Dwarf_Module
  imports Module_Base
begin

text \<open>
  \<^verbatim>\<open>crates/symbols-core/src/module/dwarf.rs\<close>: parsing a DWARF image into a resident module,
  the symbol-table fallback, and the resolution of one address through the iterator of
  \<^verbatim>\<open>addr2line\<close>, cut at the inline-depth cap.
\<close>

type_synonym raw_frame = "str option \<times> str option \<times> u32 option \<times> u32 option"

record dwarf_module =
  dw_ctx :: dwarf_ctx
  dw_identity :: identity
  dw_name :: str
  dw_symbols :: "(u64 \<times> str) list"
  dw_file_count :: i64
  dw_has_line_table :: bool
  dw_byte_size :: i64

section \<open>Parsing\<close>

definition load_section :: "object_file \<Rightarrow> str \<Rightarrow> (str + reader) outcome" where
  "load_section obj name =
     (let section = (case of_section_by_name obj name of
            Some s \<Rightarrow> Some s
          | None \<Rightarrow> of_section_by_name obj (''__'' @ dropWhile (\<lambda>c. c = CHR ''.'') name))
      in case section of
           Some s \<Rightarrow> obind s (\<lambda>d. Returned (Inr
             (case d of Some bytes \<Rightarrow> bytes | None \<Rightarrow> [], of_little_endian obj)))
         | None \<Rightarrow> Returned (Inr ([], of_little_endian obj)))"

text \<open>
  The walk over the unit headers. Each call of \<^verbatim>\<open>units.next()\<close> that yields a header counts
  in \<open>seen\<close>, so the call about to be made is number \<open>seen\<close>.
\<close>

function dwarf_stats_from ::
  "gimli_dwarf \<Rightarrow> nat \<Rightarrow> nat \<Rightarrow> i64 \<Rightarrow> bool \<Rightarrow> (i64 \<times> bool) outcome" where
  "dwarf_stats_from dwarf max_units seen file_count has_line =
     (if seen \<ge> max_units then Returned (file_count, has_line)
      else case gd_units_next dwarf seen of
             Panicked \<Rightarrow> Panicked
           | Returned (NextUnit u) \<Rightarrow>
               (case u of
                  Some (Some names) \<Rightarrow>
                    dwarf_stats_from dwarf max_units (Suc seen) (file_count + of_nat names) True
                | _ \<Rightarrow> dwarf_stats_from dwarf max_units (Suc seen) file_count has_line)
           | Returned UnitsEnd \<Rightarrow> Returned (file_count, has_line)
           | Returned UnitsErr \<Rightarrow> Returned (file_count, has_line))"
  by pat_completeness auto
termination
  by (relation "measure (\<lambda>(d, max_units, seen, c, h). max_units - seen)") auto

declare dwarf_stats_from.simps [simp del]

definition dwarf_stats :: "gimli_dwarf \<Rightarrow> limits \<Rightarrow> (i64 \<times> bool) outcome" where
  "dwarf_stats dwarf lim = dwarf_stats_from dwarf (lim_max_units lim) 0 0 False"

text \<open>The address-sorted table of the text symbols with a readable, non-empty name.\<close>

definition symbol_table :: "crates \<Rightarrow> object_symbol list \<Rightarrow> (u64 \<times> str) list" where
  "symbol_table K syms =
     dedup_by_key fst (sort_key fst
       (List.map_filter
          (\<lambda>s. case os_name s of
                 Some name \<Rightarrow> if name = [] then None else Some (os_address s, try_demangle K name)
               | None \<Rightarrow> None)
          (filter os_is_text syms)))"

definition dwarf_parse :: "crates \<Rightarrow> bytes \<Rightarrow> str \<Rightarrow> limits \<Rightarrow> dwarf_module sym_result outcome" where
  "dwarf_parse K data name lim =
     try_bind (identity_from_object K data) (\<lambda>ident.
     try_bind (map_err (\<lambda>e. sym_error_new Truncated (''parse: '' @ e)) (cr_object_parse K data)) (\<lambda>obj.
     try_bind (map_err (\<lambda>e. sym_error_new CorruptLineProgram (''dwarf: '' @ e))
         (cr_gimli_load K (load_section obj))) (\<lambda>dwarf.
     obind (dwarf_stats dwarf lim) (\<lambda>(file_count, has_line).
     obind (of_symbols obj) (\<lambda>syms.
     try_bind (map_err (\<lambda>e. sym_error_new CorruptLineProgram (''addr2line: '' @ e))
         (cr_from_dwarf K dwarf)) (\<lambda>ctx.
       Returned (Inr
         \<lparr>dw_ctx = ctx, dw_identity = ident, dw_name = name,
          dw_symbols = symbol_table K syms, dw_file_count = file_count,
          dw_has_line_table = has_line, dw_byte_size = of_nat (length data)\<rparr>)))))))"

definition dwarf_resident_bytes :: "dwarf_module \<Rightarrow> u64" where
  "dwarf_resident_bytes m = dw_byte_size m"

section \<open>The symbol table\<close>

definition nth_opt :: "'a list \<Rightarrow> nat \<Rightarrow> 'a option" where
  "nth_opt xs i = (if i < length xs then Some (xs ! i) else None)"

definition symbol_for :: "dwarf_module \<Rightarrow> u64 \<Rightarrow> str option" where
  "symbol_for m addr =
     (case binary_search (map fst (dw_symbols m)) addr of
        Inr i \<Rightarrow> map_option snd (nth_opt (dw_symbols m) i)
      | Inl 0 \<Rightarrow> None
      | Inl (Suc i) \<Rightarrow> map_option snd (nth_opt (dw_symbols m) i))"

definition dwarf_probe_ok :: "u64 \<Rightarrow> bool" where
  "dwarf_probe_ok addr \<longleftrightarrow> addr \<noteq> - 1"

section \<open>Resolving an address\<close>

definition raw_of_view :: "raw_view \<Rightarrow> raw_frame" where
  "raw_of_view v =
     (let func_raw = (case rv_function v of Some (Some s) \<Rightarrow> Some s | _ \<Rightarrow> None)
      in case rv_location v of
           Some (file, line, column) \<Rightarrow> (func_raw, file, line, column)
         | None \<Rightarrow> (func_raw, None, None, None))"

text \<open>
  The collecting loop. Every call of \<^verbatim>\<open>next()\<close> so far added one raw frame, so the next call
  is number \<open>length raw\<close>.
\<close>

function collect_frames ::
  "frame_iter \<Rightarrow> nat \<Rightarrow> raw_frame list \<Rightarrow> (error_kind + raw_frame list) outcome" where
  "collect_frames it cap raw =
     (if length raw \<ge> cap then Returned (Inr raw)
      else case it (length raw) of
             Panicked \<Rightarrow> Panicked
           | Returned (NextFrame v) \<Rightarrow> collect_frames it cap (raw @ [raw_of_view v])
           | Returned IterEnd \<Rightarrow> Returned (Inr raw)
           | Returned IterErr \<Rightarrow>
               (if raw = [] then Returned (Inl CorruptInlineTree) else Returned (Inr raw)))"
  by pat_completeness auto
termination
  by (relation "measure (\<lambda>(it, cap, raw). cap - length raw)") auto

declare collect_frames.simps [simp del]

definition no_line_frame :: "dwarf_module \<Rightarrow> u64 \<Rightarrow> resolved_frame" where
  "no_line_frame m addr =
     (let f = blank_frame (dw_name m) (dw_identity m) NoLine
      in case symbol_for m addr of
           Some name \<Rightarrow> f\<lparr>rf_function := Some name, rf_function_raw := Some name\<rparr>
         | None \<Rightarrow> f)"

definition dwarf_error_frame :: "dwarf_module \<Rightarrow> error_kind \<Rightarrow> resolved_frame" where
  "dwarf_error_frame m kind = blank_frame (dw_name m) (dw_identity m) (StatusError kind)"

definition fill_dwarf :: "crates \<Rightarrow> raw_frame \<Rightarrow> resolved_frame \<Rightarrow> resolved_frame" where
  "fill_dwarf K r f =
     (case r of (func_raw, file, line, column) \<Rightarrow>
        f\<lparr>rf_function := map_option (try_demangle K) func_raw, rf_function_raw := func_raw,
          rf_file := file, rf_line := line, rf_column := column\<rparr>)"

definition dwarf_resolve ::
  "crates \<Rightarrow> dwarf_module \<Rightarrow> u64 \<Rightarrow> limits \<Rightarrow> resolved_frame list outcome" where
  "dwarf_resolve K m addr lim =
     (if \<not> dwarf_probe_ok addr then Returned [no_line_frame m addr]
      else obind (dw_ctx m addr) (\<lambda>r. case r of
        Inl _ \<Rightarrow> Returned [dwarf_error_frame m CorruptInlineTree]
      | Inr it \<Rightarrow> obind (collect_frames it (lim_max_inline_depth lim) []) (\<lambda>c. case c of
          Inl kind \<Rightarrow> Returned [dwarf_error_frame m kind]
        | Inr raw \<Rightarrow>
            if raw = [] then Returned [no_line_frame m addr]
            else Returned (number_frames (fill_dwarf K) (dw_name m) (dw_identity m) raw))))"

definition dwarf_function_name :: "crates \<Rightarrow> dwarf_module \<Rightarrow> u64 \<Rightarrow> str option outcome" where
  "dwarf_function_name K m addr =
     (if \<not> dwarf_probe_ok addr then Returned (symbol_for m addr)
      else obind (dw_ctx m addr) (\<lambda>r. case r of
        Inl _ \<Rightarrow> Returned (symbol_for m addr)
      | Inr it \<Rightarrow> obind (it 0) (\<lambda>step. case step of
          NextFrame v \<Rightarrow>
            (case rv_function v of
               Some (Some raw) \<Rightarrow> Returned (Some (try_demangle K raw))
             | _ \<Rightarrow> Returned (symbol_for m addr))
        | _ \<Rightarrow> Returned (symbol_for m addr))))"

definition dwarf_info :: "dwarf_module \<Rightarrow> module_info" where
  "dwarf_info m =
     \<lparr>mi_format = id_format (dw_identity m), mi_arch = id_arch (dw_identity m),
      mi_build_id = id_raw_build_id (dw_identity m),
      mi_debug_id = Some (debug_id_str (dw_identity m)),
      mi_code_id = id_code_id (dw_identity m),
      mi_has_dwarf = (dw_has_line_table m \<or> 0 < sint (dw_file_count m)), mi_has_pdb = False,
      mi_has_line_table = dw_has_line_table m,
      mi_symbol_count = of_nat (length (dw_symbols m)),
      mi_file_count = dw_file_count m, mi_byte_size = dw_byte_size m,
      mi_image_base = id_image_base (dw_identity m)\<rparr>"

section \<open>The symbol table answers with the nearest symbol at or below an address\<close>

text \<open>The specification: the last entry, in address order, that starts at or before \<open>addr\<close>.\<close>

definition nearest_below :: "(u64 \<times> str) list \<Rightarrow> u64 \<Rightarrow> str option" where
  "nearest_below syms addr =
     (case filter (\<lambda>(a, _). a \<le> addr) syms of [] \<Rightarrow> None | xs \<Rightarrow> Some (snd (last xs)))"

lemma symbol_table_sorted: "sorted_wrt (<) (map fst (symbol_table K syms))"
  unfolding symbol_table_def by (rule dedup_by_key_sorted) (rule sorted_sort_key)

lemma filter_below_take:
  fixes syms :: "('k :: linorder \<times> 'v) list"
  assumes "i \<le> length syms" "\<And>j. j < i \<Longrightarrow> fst (syms ! j) \<le> addr"
    and "\<And>j. i \<le> j \<Longrightarrow> j < length syms \<Longrightarrow> addr < fst (syms ! j)"
  shows "filter (\<lambda>(a, _). a \<le> addr) syms = take i syms"
proof -
  have *: "(\<lambda>(a, _). a \<le> addr) = (\<lambda>p :: 'k \<times> 'v. fst p \<le> addr)" by (auto simp: fun_eq_iff)
  have "\<forall>p \<in> set (take i syms). fst p \<le> addr" "\<forall>p \<in> set (drop i syms). \<not> fst p \<le> addr"
    using assms by (simp_all add: all_set_conv_all_nth not_le)
  moreover have "filter P syms = filter P (take i syms) @ filter P (drop i syms)" for P
    by (simp flip: filter_append)
  ultimately show ?thesis by (simp add: * filter_id_conv filter_empty_conv)
qed

lemma symbol_for_eq_nearest_below:
  assumes "sorted_wrt (<) (map fst (dw_symbols m))"
  shows "symbol_for m addr = nearest_below (dw_symbols m) addr"
proof -
  let ?s = "dw_symbols m" and ?ks = "map fst (dw_symbols m)"
  have sorted: "sorted ?ks" by (rule strict_sorted_imp_sorted) (rule assms)
  have below: "fst (?s ! j) < fst (?s ! k)" if "j < k" "k < length ?s" for j k
    using assms that sorted_wrt_nth_less [of "(<)" ?ks j k] by simp
  have nearest: "nearest_below ?s addr = (case i of 0 \<Rightarrow> None | Suc j \<Rightarrow> map_option snd (nth_opt ?s j))"
    if "filter (\<lambda>(a, _). a \<le> addr) ?s = take i ?s" "i \<le> length ?s" for i
  proof (cases i)
    case 0
    with that show ?thesis by (simp add: nearest_below_def)
  next
    case (Suc j)
    with that have j: "j < length ?s" "take i ?s = take j ?s @ [?s ! j]"
      by (auto simp: take_Suc_conv_app_nth)
    then have "take i ?s \<noteq> []" by simp
    then have "nearest_below ?s addr = Some (snd (last (take i ?s)))"
      unfolding nearest_below_def that(1) by (simp split: list.splits)
    with j Suc show ?thesis by (simp add: nth_opt_def)
  qed
  show ?thesis
  proof (cases "binary_search ?ks addr")
    case (Inl i)
    note e = binary_search_Err [OF sorted this]
    then have i: "i \<le> length ?s" by simp
    have "fst (?s ! j) \<le> addr" if "j < i" for j
    proof -
      have "?ks ! j < addr" using e that by blast
      with that i show ?thesis by simp
    qed
    moreover have "addr < fst (?s ! j)" if "i \<le> j" "j < length ?s" for j
      using e that by simp
    ultimately have "filter (\<lambda>(a, _). a \<le> addr) ?s = take i ?s"
      by (rule filter_below_take [OF i])
    from nearest [OF this i] Inl show ?thesis
      by (simp add: symbol_for_def split: nat.splits)
  next
    case (Inr i)
    from binary_search_Ok [OF sorted this] have i: "i < length ?s" "fst (?s ! i) = addr" by auto
    have "filter (\<lambda>(a, _). a \<le> addr) ?s = take (Suc i) ?s"
    proof (rule filter_below_take)
      show "fst (?s ! j) \<le> addr" if "j < Suc i" for j
        using that i below [of j i] by (cases "j = i") auto
      show "addr < fst (?s ! j)" if "Suc i \<le> j" "j < length ?s" for j
        using that i below [of i j] by auto
    qed (use i in simp)
    from nearest [OF this] Inr i show ?thesis by (simp add: symbol_for_def)
  qed
qed

section \<open>The collecting loop\<close>

text \<open>An iterator that yields the frames \<open>vs\<close> and then, for ever, \<open>fin\<close>.\<close>

definition chain_iter :: "raw_view list \<Rightarrow> iter_next \<Rightarrow> frame_iter" where
  "chain_iter vs fin n = Returned (if n < length vs then NextFrame (vs ! n) else fin)"

text \<open>The first frames, at most \<open>n\<close> of them, that an iterator gives from its call \<open>k\<close> on.\<close>

fun frames_given :: "frame_iter \<Rightarrow> nat \<Rightarrow> nat \<Rightarrow> raw_view list" where
  "frames_given it k 0 = []"
| "frames_given it k (Suc n) =
     (case it k of Returned (NextFrame v) \<Rightarrow> v # frames_given it (Suc k) n | _ \<Rightarrow> [])"

lemma frames_given_chain_iter:
  "fin = IterEnd \<or> fin = IterErr \<Longrightarrow> frames_given (chain_iter vs fin) k n = take n (drop k vs)"
  by (induction n arbitrary: k) (auto simp: chain_iter_def take_Cons' Cons_nth_drop_Suc [symmetric])

lemma length_frames_given: "length (frames_given it k n) \<le> n"
  by (induction it k n rule: frames_given.induct) (auto split: outcome.splits iter_next.splits)

lemma collect_frames_given:
  assumes "length raw + n = cap" "vs = frames_given it (length raw) n"
  shows "collect_frames it cap raw =
    (if length vs = n then Returned (Inr (raw @ map raw_of_view vs))
     else case it (length raw + length vs) of
       Panicked \<Rightarrow> Panicked
     | Returned r \<Rightarrow>
         if r = IterErr \<and> raw = [] \<and> vs = [] then Returned (Inl CorruptInlineTree)
         else Returned (Inr (raw @ map raw_of_view vs)))"
  using assms
proof (induction n arbitrary: raw vs)
  case 0
  then show ?case by (subst collect_frames.simps) simp
next
  case (Suc n)
  show ?case
  proof (cases "\<exists>v. it (length raw) = Returned (NextFrame v)")
    case True
    then obtain v where v: "it (length raw) = Returned (NextFrame v)" by blast
    have step: "collect_frames it cap raw = collect_frames it cap (raw @ [raw_of_view v])"
      using Suc.prems(1) by (subst collect_frames.simps) (simp add: v)
    show ?thesis
      unfolding step using Suc.prems v
      by (subst Suc.IH [OF _ refl]) (simp_all split: outcome.split)
  next
    case False
    with Suc.prems have "vs = []" by (auto split: outcome.splits iter_next.splits)
    with False Suc.prems(1) show ?thesis
      by (subst collect_frames.simps) (auto split: outcome.splits iter_next.splits)
  qed
qed

lemma collect_frames_bound:
  "collect_frames it cap raw = Returned (Inr fs) \<Longrightarrow> length raw \<le> cap \<Longrightarrow> length fs \<le> cap"
proof (induction it cap raw rule: collect_frames.induct)
  case (1 it cap raw)
  from 1(2,3) show ?case
    by (subst (asm) collect_frames.simps)
      (auto split: if_splits outcome.splits iter_next.splits intro: 1(1))
qed

lemma collect_frames_kind:
  "collect_frames it cap raw = Returned (Inl k) \<Longrightarrow> k = CorruptInlineTree"
proof (induction it cap raw rule: collect_frames.induct)
  case (1 it cap raw)
  from 1(2) show ?case
    by (subst (asm) collect_frames.simps)
      (auto split: if_splits outcome.splits iter_next.splits intro: 1(1))
qed

text \<open>The first raw frame is the one the first call of \<^verbatim>\<open>next()\<close> gave.\<close>

lemma collect_frames_prefix:
  "collect_frames it cap raw = Returned (Inr fs) \<Longrightarrow> \<exists>gs. fs = raw @ gs"
proof (induction it cap raw rule: collect_frames.induct)
  case (1 it cap raw)
  from 1(2) show ?case
    by (subst (asm) collect_frames.simps)
      (auto split: if_splits outcome.splits iter_next.splits dest!: 1(1))
qed

lemma collect_frames_first:
  assumes "collect_frames it cap [] = Returned (Inr (r # fs))"
  shows "\<exists>v. it 0 = Returned (NextFrame v) \<and> r = raw_of_view v"
proof -
  from assms obtain v where v: "it 0 = Returned (NextFrame v)"
      "collect_frames it cap [raw_of_view v] = Returned (Inr (r # fs))"
    by (subst (asm) collect_frames.simps)
      (auto split: if_splits outcome.splits iter_next.splits)
  from collect_frames_prefix [OF v(2)] v(1) show ?thesis by auto
qed

section \<open>The answers of a DWARF module\<close>

lemma fill_dwarf_keeps [simp]:
  "rf_inline_depth (fill_dwarf K r f) = rf_inline_depth f"
  "rf_is_inline (fill_dwarf K r f) = rf_is_inline f"
  "rf_module (fill_dwarf K r f) = rf_module f"
  "rf_debug_id (fill_dwarf K r f) = rf_debug_id f"
  "rf_status (fill_dwarf K r f) = rf_status f"
  by (simp_all add: fill_dwarf_def split: prod.splits)

lemma no_line_frame_simps [simp]:
  "rf_inline_depth (no_line_frame m a) = 0" "rf_is_inline (no_line_frame m a) = False"
  "rf_module (no_line_frame m a) = Some (dw_name m)"
  "rf_debug_id (no_line_frame m a) = Some (debug_id_str (dw_identity m))"
  "rf_status (no_line_frame m a) = NoLine"
  "rf_function (no_line_frame m a) = symbol_for m a"
  "rf_function_raw (no_line_frame m a) = symbol_for m a"
  by (auto simp: no_line_frame_def Let_def blank_frame_def split: option.splits)

lemma dwarf_error_frame_simps [simp]:
  "rf_inline_depth (dwarf_error_frame m k) = 0" "rf_is_inline (dwarf_error_frame m k) = False"
  "rf_function (dwarf_error_frame m k) = None"
  "rf_status (dwarf_error_frame m k) = StatusError k"
  "stamped (dw_name m) (dw_identity m) (dwarf_error_frame m k)"
  by (simp_all add: dwarf_error_frame_def)

text \<open>The frames written out.\<close>

lemma dwarf_chain:
  "number_frames (fill_dwarf K) name i (map raw_of_view vs) =
    map (\<lambda>k. case raw_of_view (vs ! k) of (func, file, line, column) \<Rightarrow>
          \<lparr>rf_inline_depth = of_nat k, rf_is_inline = k + 1 < length vs,
           rf_function = map_option (try_demangle K) func, rf_function_raw = func,
           rf_file = file, rf_line = line, rf_column = column,
           rf_module = Some name, rf_debug_id = Some (debug_id_str i),
           rf_status = StatusOk\<rparr>) [0..<length vs]"
  by (intro nth_equalityI)
    (simp_all add: number_frames_nth fill_dwarf_def blank_frame_def split: prod.splits)

lemma dwarf_resolve_cases:
  assumes "dwarf_resolve K m addr lim = Returned fs"
  obtains (no_line) "fs = [no_line_frame m addr]"
      "dwarf_probe_ok addr \<Longrightarrow> \<exists>it. dw_ctx m addr = Returned (Inr it) \<and>
         collect_frames it (lim_max_inline_depth lim) [] = Returned (Inr [])"
  | (error) "fs = [dwarf_error_frame m CorruptInlineTree]"
  | (frames) raw it where "raw \<noteq> []" "dw_ctx m addr = Returned (Inr it)" "dwarf_probe_ok addr"
      "collect_frames it (lim_max_inline_depth lim) [] = Returned (Inr raw)"
      "fs = number_frames (fill_dwarf K) (dw_name m) (dw_identity m) raw"
proof (cases "dwarf_probe_ok addr")
  case False
  with assms show thesis by (intro no_line) (auto simp: dwarf_resolve_def)
next
  case probe: True
  with assms obtain r where r: "dw_ctx m addr = Returned r"
    by (auto simp: dwarf_resolve_def outcome_simps)
  show thesis
  proof (cases r)
    case (Inl e)
    with assms probe r show thesis by (intro error) (auto simp: dwarf_resolve_def)
  next
    case it: (Inr it)
    with assms probe r obtain c
      where c: "collect_frames it (lim_max_inline_depth lim) [] = Returned c"
      by (auto simp: dwarf_resolve_def outcome_simps)
    show thesis
    proof (cases c)
      case (Inl k)
      with c have "k = CorruptInlineTree" using collect_frames_kind by blast
      with assms probe r it c Inl show thesis by (intro error) (auto simp: dwarf_resolve_def)
    next
      case (Inr raw)
      show thesis
      proof (cases "raw = []")
        case True
        with assms probe r it c Inr show thesis by (intro no_line) (auto simp: dwarf_resolve_def)
      next
        case False
        with assms probe r it c Inr show thesis by (intro frames) (auto simp: dwarf_resolve_def)
      qed
    qed
  qed
qed

interpretation dw: module_backend dw_name dw_identity "dwarf_resolve K" for K
proof
  fix m a l fs
  assume "dwarf_resolve K m a l = Returned fs"
  then have "frames_wf fs \<and> list_all (stamped (dw_name m) (dw_identity m)) fs \<and> status_uniform fs"
  proof (cases rule: dwarf_resolve_cases)
    case no_line
    then show ?thesis by (simp add: frames_wf_single stamped_def)
  next
    case error
    then show ?thesis by (simp add: frames_wf_single)
  next
    case (frames raw it)
    then show ?thesis using number_frames_answer [of raw "fill_dwarf K"] by simp
  qed
  then show "frames_wf fs" "list_all (stamped (dw_name m) (dw_identity m)) fs" "status_uniform fs"
    by simp_all
qed

lemma dwarf_resolve_length:
  assumes "dwarf_resolve K m addr lim = Returned fs"
  shows "length fs \<le> max 1 (lim_max_inline_depth lim)"
  using assms
proof (cases rule: dwarf_resolve_cases)
  case (frames raw it)
  with collect_frames_bound [OF frames(4)] show ?thesis by simp
qed simp_all

lemma collect_frames_none:
  "collect_frames it cap [] = Returned (Inr []) \<Longrightarrow> 0 < cap \<Longrightarrow> it 0 = Returned IterEnd"
  by (subst (asm) collect_frames.simps)
    (auto split: if_splits outcome.splits iter_next.splits dest: collect_frames_prefix)

lemma dwarf_function_name_first:
  assumes "dwarf_resolve K m addr lim = Returned fs" "0 < lim_max_inline_depth lim"
    and "rf_function (hd fs) = Some f"
  shows "dwarf_function_name K m addr = Returned (Some f)"
  using assms(1)
proof (cases rule: dwarf_resolve_cases)
  case error
  with assms(3) show ?thesis by simp
next
  case (frames raw it)
  then obtain x xs where raw: "raw = x # xs" by (cases raw) auto
  with frames(4) obtain v where v: "it 0 = Returned (NextFrame v)" "x = raw_of_view v"
    using collect_frames_first by blast
  have "hd fs = fs ! 0" using frames raw by (simp add: number_frames_def)
  with assms(3) frames raw have "map_option (try_demangle K) (fst x) = Some f"
    by (simp add: number_frames_nth fill_dwarf_def split: prod.splits)
  then show ?thesis
    using v frames
    by (auto simp: dwarf_function_name_def raw_of_view_def Let_def split: option.splits)
next
  case no_line
  then have sym: "symbol_for m addr = Some f" using assms(3) by simp
  show ?thesis
  proof (cases "dwarf_probe_ok addr")
    case False
    with sym show ?thesis by (simp add: dwarf_function_name_def)
  next
    case True
    with no_line(2) obtain it where it: "dw_ctx m addr = Returned (Inr it)"
        "collect_frames it (lim_max_inline_depth lim) [] = Returned (Inr [])" by blast
    from collect_frames_none [OF it(2) assms(2)] it(1) True sym show ?thesis
      by (simp add: dwarf_function_name_def)
  qed
qed

end
