(* ===== verification/Pdb_Module.thy ===== *)
theory Pdb_Module
  imports Module_Base
begin

text \<open>
  \<^verbatim>\<open>crates/symbols-core/src/module/pdb.rs\<close>: parsing a PDB into a resident module and resolving
  an RVA against it. RVAs have 32 bits; the resolve context is rebuilt on every call.
\<close>

record pdb_module =
  pm_data :: pdb_data
  pm_identity :: identity
  pm_name :: str
  pm_byte_size :: i64
  pm_symbol_count :: i64

definition pdb_parse :: "crates \<Rightarrow> bytes \<Rightarrow> str \<Rightarrow> limits \<Rightarrow> pdb_module sym_result outcome" where
  "pdb_parse K data name lim =
     try_bind (pdb_open K data) (\<lambda>pdb.
     try_bind (pdb_identity_of K pdb) (\<lambda>ident.
     try_bind (map_err (\<lambda>e. sym_error_new Truncated (''pdb data: '' @ e)) (pf_context_data pdb))
       (\<lambda>d. obind d (\<lambda>ctx. Returned (Inr
          \<lparr>pm_data = d, pm_identity = ident, pm_name = name,
           pm_byte_size = of_nat (length data),
           pm_symbol_count =
             (case ctx of Inr c \<Rightarrow> of_nat (pc_function_count c) | Inl _ \<Rightarrow> 0)\<rparr>)))))"

definition pdb_resident_bytes :: "pdb_module \<Rightarrow> u64" where
  "pdb_resident_bytes m = pm_byte_size m"

text \<open>\<^verbatim>\<open>u32::try_from(u64)\<close>.\<close>

definition u32_try_from :: "u64 \<Rightarrow> u32 option" where
  "u32_try_from a = (if unat a < 2 ^ 32 then Some (ucast a) else None)"

definition pdb_error_frame :: "pdb_module \<Rightarrow> error_kind \<Rightarrow> resolved_frame" where
  "pdb_error_frame m kind = blank_frame (pm_name m) (pm_identity m) (StatusError kind)"

definition fill_pdb :: "pdb_frame \<Rightarrow> resolved_frame \<Rightarrow> resolved_frame" where
  "fill_pdb r f =
     f\<lparr>rf_function := pfr_function r, rf_function_raw := pfr_function r, rf_file := pfr_file r,
       rf_line := pfr_line r, rf_column := None\<rparr>"

text \<open>
  The flag \<^verbatim>\<open>is_inline\<close> compares with the number \<open>n\<close> of frames after the cap, so the frames
  numbered are the first \<open>n\<close>.
\<close>

definition pdb_resolve :: "pdb_module \<Rightarrow> u64 \<Rightarrow> limits \<Rightarrow> resolved_frame list outcome" where
  "pdb_resolve m addr lim =
     (let blank = blank_frame (pm_name m) (pm_identity m) NoLine in
      obind (pm_data m) (\<lambda>ctx. case ctx of
        Inl _ \<Rightarrow> Returned [pdb_error_frame m CorruptLineProgram]
      | Inr ctx \<Rightarrow> (case u32_try_from addr of
          None \<Rightarrow> Returned [blank]
        | Some probe \<Rightarrow> obind (pc_find_frames ctx probe) (\<lambda>r. case r of
            Inl _ \<Rightarrow> Returned [pdb_error_frame m CorruptInlineTree]
          | Inr None \<Rightarrow> Returned [blank]
          | Inr (Some frames) \<Rightarrow>
              (let n = min (length frames) (lim_max_inline_depth lim) in
               if n = 0 then Returned [blank]
               else Returned (number_frames fill_pdb (pm_name m) (pm_identity m)
                      (take n frames)))))))"

definition pdb_function_name :: "pdb_module \<Rightarrow> u64 \<Rightarrow> str option outcome" where
  "pdb_function_name m addr =
     (case u32_try_from addr of
        None \<Rightarrow> Returned None
      | Some probe \<Rightarrow> obind (pm_data m) (\<lambda>ctx. case ctx of
          Inl _ \<Rightarrow> Returned None
        | Inr ctx \<Rightarrow> obind (pc_find_frames ctx probe) (\<lambda>r. case r of
            Inr (Some (f # _)) \<Rightarrow> Returned (pfr_function f)
          | _ \<Rightarrow> Returned None)))"

definition pdb_info :: "pdb_module \<Rightarrow> module_info" where
  "pdb_info m =
     \<lparr>mi_format = Pdb, mi_arch = id_arch (pm_identity m),
      mi_build_id = id_raw_build_id (pm_identity m),
      mi_debug_id = Some (debug_id_str (pm_identity m)),
      mi_code_id = id_code_id (pm_identity m), mi_has_dwarf = False, mi_has_pdb = True,
      mi_has_line_table = True, mi_symbol_count = pm_symbol_count m, mi_file_count = 0,
      mi_byte_size = pm_byte_size m, mi_image_base = 0\<rparr>"

section \<open>The answers of a PDB module\<close>

lemma fill_pdb_keeps [simp]:
  "rf_inline_depth (fill_pdb r f) = rf_inline_depth f"
  "rf_is_inline (fill_pdb r f) = rf_is_inline f"
  "rf_module (fill_pdb r f) = rf_module f"
  "rf_debug_id (fill_pdb r f) = rf_debug_id f"
  "rf_status (fill_pdb r f) = rf_status f"
  by (simp_all add: fill_pdb_def)

lemma pdb_resolve_cases:
  assumes "pdb_resolve m addr lim = Returned fs"
  obtains (no_line) "fs = [blank_frame (pm_name m) (pm_identity m) NoLine]"
  | (error) k where "fs = [pdb_error_frame m k]"
  | (frames) ctx probe frames where "pm_data m = Returned (Inr ctx)"
      "u32_try_from addr = Some probe" "pc_find_frames ctx probe = Returned (Inr (Some frames))"
      "frames \<noteq> []" "0 < lim_max_inline_depth lim"
      "fs = number_frames fill_pdb (pm_name m) (pm_identity m)
         (take (lim_max_inline_depth lim) frames)"
proof -
  from assms obtain c where c: "pm_data m = Returned c"
    by (auto simp: pdb_resolve_def outcome_simps Let_def)
  show thesis
  proof (cases "u32_try_from addr")
    case None
    with assms c that(1,2) show thesis
      by (cases c) (auto simp: pdb_resolve_def)
  next
    case (Some probe)
    show thesis
    proof (cases c)
      case (Inl e)
      with assms c that(2) show thesis by (auto simp: pdb_resolve_def)
    next
      case ctx: (Inr ctx)
      with assms c Some obtain r where r: "pc_find_frames ctx probe = Returned r"
        by (auto simp: pdb_resolve_def outcome_simps Let_def)
      show thesis
      proof (cases r)
        case (Inl e)
        with assms c ctx r Some that(2) show thesis by (auto simp: pdb_resolve_def)
      next
        case found: (Inr fo)
        show thesis
        proof (cases fo)
          case None
          with assms c ctx r Some found that(1) show thesis by (auto simp: pdb_resolve_def)
        next
          case frames: (Some frames)
          have take: "take (min (length frames) n) frames = take n frames" for n
            by (simp add: min_def)
          show thesis
          proof (cases "min (length frames) (lim_max_inline_depth lim) = 0")
            case True
            with assms c ctx r Some found frames that(1) show thesis by (simp add: pdb_resolve_def)
          next
            case False
            with assms c ctx r Some found frames show thesis
              by (intro that(3) [of ctx probe frames])
                (auto simp: pdb_resolve_def Let_def take split: if_splits)
          qed
        qed
      qed
    qed
  qed
qed

interpretation pd: module_backend pm_name pm_identity pdb_resolve
proof
  fix m a l fs
  assume "pdb_resolve m a l = Returned fs"
  then have "frames_wf fs \<and> list_all (stamped (pm_name m) (pm_identity m)) fs \<and> status_uniform fs"
  proof (cases rule: pdb_resolve_cases)
    case (frames ctx probe frames)
    then show ?thesis
      using number_frames_answer [of "take (lim_max_inline_depth l) frames" fill_pdb] by simp
  qed (simp_all add: frames_wf_single stamped_def pdb_error_frame_def)
  then show "frames_wf fs" "list_all (stamped (pm_name m) (pm_identity m)) fs" "status_uniform fs"
    by simp_all
qed

lemma pdb_resolve_length:
  assumes "pdb_resolve m addr lim = Returned fs"
  shows "length fs \<le> max 1 (lim_max_inline_depth lim)"
  using assms by (cases rule: pdb_resolve_cases) simp_all

lemma pdb_function_name_first:
  assumes "pdb_resolve m addr lim = Returned fs" "rf_function (hd fs) = Some f"
  shows "pdb_function_name m addr = Returned (Some f)"
  using assms(1)
proof (cases rule: pdb_resolve_cases)
  case (frames ctx probe frames)
  then obtain x xs where xs: "frames = x # xs" by (cases frames) auto
  have "hd fs = fs ! 0" using frames by (intro hd_conv_nth) simp
  with frames xs assms(2) have "pfr_function x = Some f"
    by (simp add: number_frames_nth fill_pdb_def nth_take)
  with frames xs show ?thesis by (simp add: pdb_function_name_def)
qed (use assms(2) in \<open>simp_all add: pdb_error_frame_def\<close>)

text \<open>The frames written out.\<close>

lemma pdb_frame_at:
  "fill_pdb r ((blank_frame n i StatusOk)\<lparr>rf_inline_depth := d, rf_is_inline := b\<rparr>) =
     \<lparr>rf_inline_depth = d, rf_is_inline = b, rf_function = pfr_function r,
      rf_function_raw = pfr_function r, rf_file = pfr_file r, rf_line = pfr_line r,
      rf_column = None, rf_module = Some n, rf_debug_id = Some (debug_id_str i),
      rf_status = StatusOk\<rparr>"
  by (simp add: fill_pdb_def blank_frame_def)

lemma pdb_chain:
  assumes "n \<le> length frames"
  shows "number_frames fill_pdb name i (take n frames) =
    map (\<lambda>k. \<lparr>rf_inline_depth = of_nat k, rf_is_inline = k + 1 < n,
          rf_function = pfr_function (frames ! k), rf_function_raw = pfr_function (frames ! k),
          rf_file = pfr_file (frames ! k), rf_line = pfr_line (frames ! k), rf_column = None,
          rf_module = Some name, rf_debug_id = Some (debug_id_str i),
          rf_status = StatusOk\<rparr>) [0..<n]"
  using assms
  by (intro nth_equalityI) (simp_all add: number_frames_nth pdb_frame_at min_absorb2)

end
