(* ===== verification/Parsed_Module.thy ===== *)
theory Parsed_Module
  imports Dwarf_Module Pdb_Module
begin

text \<open>
  \<^verbatim>\<open>crates/symbols-core/src/module/mod.rs\<close>: the sum of the two module kinds, with the parse
  cap and the \<^verbatim>\<open>catch_unwind\<close> containment around everything that runs third-party code.
\<close>

datatype parsed_module = DwarfMod dwarf_module | PdbMod pdb_module

definition parse_module :: "crates \<Rightarrow> bytes \<Rightarrow> str \<Rightarrow> limits \<Rightarrow> parsed_module sym_result" where
  "parse_module K data name lim =
     (if length data > unat (lim_max_parse_bytes lim)
      then Inl (sym_error_new AllocCap
             (''debug file '' @ show_nat (length data) @ '' bytes exceeds parse cap''))
      else
        let is_pdb = starts_with data PDB_MAGIC;
            result = catch_unwind
              (if is_pdb then try_bind (pdb_parse K data name lim) (\<lambda>m. Returned (Inr (PdbMod m)))
               else try_bind (dwarf_parse K data name lim) (\<lambda>m. Returned (Inr (DwarfMod m))))
        in case result of
             Some r \<Rightarrow> r
           | None \<Rightarrow> Inl (sym_error_new CorruptLineProgram
                      ''debug-info parser panicked on malformed input''))"

fun parsed_identity :: "parsed_module \<Rightarrow> identity" where
  "parsed_identity (DwarfMod m) = dw_identity m"
| "parsed_identity (PdbMod m) = pm_identity m"

fun parsed_name :: "parsed_module \<Rightarrow> str" where
  "parsed_name (DwarfMod m) = dw_name m"
| "parsed_name (PdbMod m) = pm_name m"

fun parsed_resident_bytes :: "parsed_module \<Rightarrow> u64" where
  "parsed_resident_bytes (DwarfMod m) = dwarf_resident_bytes m"
| "parsed_resident_bytes (PdbMod m) = pdb_resident_bytes m"

fun parsed_info :: "parsed_module \<Rightarrow> module_info" where
  "parsed_info (DwarfMod m) = dwarf_info m"
| "parsed_info (PdbMod m) = pdb_info m"

definition parsed_resolve ::
  "crates \<Rightarrow> parsed_module \<Rightarrow> u64 \<Rightarrow> limits \<Rightarrow> resolved_frame list" where
  "parsed_resolve K m addr lim =
     (case catch_unwind (case m of
          DwarfMod d \<Rightarrow> dwarf_resolve K d addr lim
        | PdbMod p \<Rightarrow> pdb_resolve p addr lim) of
        Some fs \<Rightarrow> fs
      | None \<Rightarrow> [error_frame CorruptLineProgram (Some (debug_id_str (parsed_identity m)))])"

definition parsed_function_name :: "crates \<Rightarrow> parsed_module \<Rightarrow> u64 \<Rightarrow> str option" where
  "parsed_function_name K m addr =
     (case catch_unwind (case m of
          DwarfMod d \<Rightarrow> dwarf_function_name K d addr
        | PdbMod p \<Rightarrow> pdb_function_name p addr) of
        Some f \<Rightarrow> f
      | None \<Rightarrow> None)"

definition inspect :: "crates \<Rightarrow> bytes \<Rightarrow> str \<Rightarrow> limits \<Rightarrow> module_info sym_result" where
  "inspect K data name lim =
     (case parse_module K data name lim of
        Inl e \<Rightarrow> Inl e
      | Inr m \<Rightarrow> Inr (parsed_info m))"

section \<open>What the wrapper guarantees\<close>

lemma catch_unwind_Some_iff [outcome_simps]: "catch_unwind r = Some x \<longleftrightarrow> r = Returned x"
  by (cases r) auto

lemma parsed_resolve_answer:
  "frames_wf (parsed_resolve K m addr lim)"
  "status_uniform (parsed_resolve K m addr lim)"
  "list_all (\<lambda>f. rf_debug_id f = Some (debug_id_str (parsed_identity m))) (parsed_resolve K m addr lim)"
proof -
  have "frames_wf (parsed_resolve K m addr lim) \<and> status_uniform (parsed_resolve K m addr lim) \<and>
    list_all (\<lambda>f. rf_debug_id f = Some (debug_id_str (parsed_identity m))) (parsed_resolve K m addr lim)"
  proof (cases m)
    case (DwarfMod d)
    show ?thesis
      unfolding parsed_resolve_def DwarfMod parsed_module.case parsed_identity.simps
      by (intro conjI dw.contained)
  next
    case (PdbMod p)
    show ?thesis
      unfolding parsed_resolve_def PdbMod parsed_module.case parsed_identity.simps
      by (intro conjI pd.contained)
  qed
  then show "frames_wf (parsed_resolve K m addr lim)" "status_uniform (parsed_resolve K m addr lim)"
    "list_all (\<lambda>f. rf_debug_id f = Some (debug_id_str (parsed_identity m))) (parsed_resolve K m addr lim)"
    by blast+
qed

lemma parsed_resolve_nonempty [simp]: "parsed_resolve K m addr lim \<noteq> []"
  using parsed_resolve_answer(1) [of K m addr lim] by (simp add: frames_wf_def)

lemma parsed_resolve_length:
  "length (parsed_resolve K m addr lim) \<le> max 1 (lim_max_inline_depth lim)"
  unfolding parsed_resolve_def
  by (cases m)
    (auto split: option.splits simp: outcome_simps dest: dwarf_resolve_length pdb_resolve_length)

text \<open>
  The file that the index found by probing is the module that parsing it gives: the two
  derivations of the identity agree.
\<close>

lemma parse_module_identity:
  assumes "parse_module K data name lim = Inr m"
  shows "probe_identity K data = Returned (Inr (parsed_identity m))"
    and "parsed_name m = name" and "parsed_resident_bytes m = of_nat (length data)"
  using assms
  by (auto simp: parse_module_def probe_identity_def pdb_identity_def pdb_parse_def
      dwarf_parse_def Let_def outcome_simps dwarf_resident_bytes_def pdb_resident_bytes_def
      split: if_splits option.splits prod.splits)

lemma parse_module_symbols_sorted:
  assumes "parse_module K data name lim = Inr (DwarfMod d)"
  shows "sorted_wrt (<) (map fst (dw_symbols d))"
  using assms
  by (auto simp: parse_module_def dwarf_parse_def Let_def outcome_simps symbol_table_sorted
      split: if_splits option.splits prod.splits)

lemma parsed_function_name_first:
  assumes "0 < lim_max_inline_depth lim" "rf_function (hd (parsed_resolve K m addr lim)) = Some f"
  shows "parsed_function_name K m addr = Some f"
proof (cases m)
  case (DwarfMod d)
  then show ?thesis
    using assms dwarf_function_name_first [OF _ assms(1)]
    by (auto simp: parsed_resolve_def parsed_function_name_def outcome_simps split: option.splits)
next
  case (PdbMod p)
  then show ?thesis
    using assms pdb_function_name_first
    by (auto simp: parsed_resolve_def parsed_function_name_def outcome_simps split: option.splits)
qed

end
