(* ===== verification/Manifest.thy ===== *)
theory Manifest
  imports Frames
begin

text \<open>
  \<^verbatim>\<open>crates/symbols-core/src/cache/manifest.rs\<close>: the serializable state. \<^verbatim>\<open>serde_json\<close> is a
  parameter: what \<^verbatim>\<open>to_vec\<close> and \<^verbatim>\<open>from_slice\<close> return for a manifest.
\<close>

datatype origin =
    OriginDir str
  | OriginGlob str
  | OriginDebuginfod str
  | OriginS3 str str
  | OriginHttp str
  | OriginInline

fun origin_label :: "origin \<Rightarrow> str" where
  "origin_label (OriginDir path) = ''dir:'' @ path"
| "origin_label (OriginGlob matched_path) = ''glob:'' @ matched_path"
| "origin_label (OriginDebuginfod url) = ''debuginfod:'' @ url"
| "origin_label (OriginS3 bucket key) = ''s3:'' @ bucket @ ''/'' @ key"
| "origin_label (OriginHttp url) = ''http:'' @ url"
| "origin_label OriginInline = ''inline''"

record source_spec =
  ss_source_id :: str
  ss_kind :: str
  ss_path :: "str option"
  ss_url :: "str option"
  ss_bucket :: "str option"
  ss_enabled :: bool
  ss_egress :: bool
  ss_secret :: "str option"

definition source_location :: "source_spec \<Rightarrow> str" where
  "source_location s =
     (case ss_path s of Some p \<Rightarrow> p | None \<Rightarrow>
      (case ss_url s of Some u \<Rightarrow> u | None \<Rightarrow>
       (case ss_bucket s of Some b \<Rightarrow> b | None \<Rightarrow> [])))"

record manifest_entry =
  me_debug_id :: str
  me_origin :: "origin option"
  me_format :: "str option"
  me_arch :: "str option"
  me_name :: "str option"
  me_fetched_bytes :: u64
  me_rows_resolved :: u64
  me_last_used_epoch :: u64
  me_miss :: bool

record cache_manifest =
  cm_sources :: "source_spec list"
  cm_entries :: "manifest_entry list"

definition default_manifest :: cache_manifest where
  "default_manifest = \<lparr>cm_sources = [], cm_entries = []\<rparr>"

record serde_json =
  sj_to_vec :: "cache_manifest \<Rightarrow> bytes option"
  sj_from_slice :: "bytes \<Rightarrow> cache_manifest option"

definition manifest_to_bytes :: "serde_json \<Rightarrow> cache_manifest \<Rightarrow> bytes" where
  "manifest_to_bytes J m = (case sj_to_vec J m of Some b \<Rightarrow> b | None \<Rightarrow> [])"

definition manifest_from_bytes :: "serde_json \<Rightarrow> bytes \<Rightarrow> cache_manifest" where
  "manifest_from_bytes J b =
     (if b = [] then default_manifest
      else case sj_from_slice J b of Some m \<Rightarrow> m | None \<Rightarrow> default_manifest)"

text \<open>\<^verbatim>\<open>serde_json\<close> writes the manifest and reads it back as documented for derived types.\<close>

definition reads_back :: "serde_json \<Rightarrow> cache_manifest \<Rightarrow> bool" where
  "reads_back J m \<longleftrightarrow> (case sj_to_vec J m of
     None \<Rightarrow> False
   | Some b \<Rightarrow> b \<noteq> [] \<and> sj_from_slice J b = Some m)"

lemma reads_back_bytes: "reads_back J m \<Longrightarrow> manifest_from_bytes J (manifest_to_bytes J m) = m"
  by (simp add: reads_back_def manifest_to_bytes_def manifest_from_bytes_def split: option.splits)

end
