(* ===== verification/Lru.thy ===== *)
theory Lru
  imports Rust_Prelude
begin

text \<open>
  The interface of the \<^verbatim>\<open>lru\<close> crate that \<^verbatim>\<open>cache/mod.rs\<close> uses. The crate is not in the
  repository: \<open>lru_api\<close> is the record of the operations called, and the locale \<open>lru_laws\<close>
  states their documented behaviour through \<^verbatim>\<open>LruCache::iter\<close>, which lists the entries from
  the most to the least recently used. \<open>list_lru\<close> is the executable reference behaviour the
  laws describe; it discharges them and serves the concrete examples.
\<close>

record ('c, 'v) lru_api =
  lru_new :: "nat \<Rightarrow> 'c"
  lru_cap :: "'c \<Rightarrow> nat"
  lru_iter :: "'c \<Rightarrow> (str \<times> 'v) list"
  lru_len :: "'c \<Rightarrow> nat"
  lru_contains :: "'c \<Rightarrow> str \<Rightarrow> bool"
  lru_get_mut :: "'c \<Rightarrow> str \<Rightarrow> ('v \<times> ('v \<Rightarrow> 'c)) option"
    \<comment> \<open>the value, and the cache after writing through the reference\<close>
  lru_put :: "'c \<Rightarrow> str \<Rightarrow> 'v \<Rightarrow> 'v option \<times> 'c"
  lru_pop :: "'c \<Rightarrow> str \<Rightarrow> ('v \<times> 'c) option"
  lru_pop_lru :: "'c \<Rightarrow> ((str \<times> 'v) \<times> 'c) option"

definition drop_key :: "'k \<Rightarrow> ('k \<times> 'v) list \<Rightarrow> ('k \<times> 'v) list" where
  "drop_key k ps = filter (\<lambda>p. fst p \<noteq> k) ps"

lemma set_drop_key [simp]: "set (drop_key k ps) = {p \<in> set ps. fst p \<noteq> k}"
  by (auto simp: drop_key_def)

lemma keys_drop_key [simp]: "fst ` set (drop_key k ps) = fst ` set ps - {k}"
  by (auto simp: drop_key_def)

lemma map_of_drop_key [simp]: "map_of (drop_key k ps) = (map_of ps)(k := None)"
  by (induction ps) (auto simp: drop_key_def)

lemma distinct_drop_key [intro]: "distinct (map fst ps) \<Longrightarrow> distinct (map fst (drop_key k ps))"
  unfolding drop_key_def by (rule distinct_map_filter)

lemma drop_key_absent: "k \<notin> fst ` set ps \<Longrightarrow> drop_key k ps = ps"
  by (auto simp: drop_key_def filter_id_conv)

lemma length_drop_key:
  "distinct (map fst ps) \<Longrightarrow> k \<in> fst ` set ps \<Longrightarrow> Suc (length (drop_key k ps)) = length ps"
proof (induction ps)
  case (Cons p ps)
  then show ?case
    using drop_key_absent [of k ps] by (cases "fst p = k") (auto simp: drop_key_def)
qed simp

locale lru_laws =
  fixes L :: "('c, 'v) lru_api"
  assumes iter_distinct: "distinct (map fst (lru_iter L c))"
    and cap_pos: "0 < lru_cap L c"
    and iter_cap: "length (lru_iter L c) \<le> lru_cap L c"
    and len: "lru_len L c = length (lru_iter L c)"
    and contains: "lru_contains L c k \<longleftrightarrow> k \<in> fst ` set (lru_iter L c)"
    and new: "0 < n \<Longrightarrow> lru_iter L (lru_new L n) = [] \<and> lru_cap L (lru_new L n) = n"
    and get_mut_absent: "map_of (lru_iter L c) k = None \<Longrightarrow> lru_get_mut L c k = None"
    and get_mut_present: "map_of (lru_iter L c) k = Some v \<Longrightarrow>
      \<exists>store. lru_get_mut L c k = Some (v, store) \<and>
        (\<forall>v'. lru_iter L (store v') = (k, v') # drop_key k (lru_iter L c) \<and>
              lru_cap L (store v') = lru_cap L c)"
    and put_cap: "lru_cap L (snd (lru_put L c k v)) = lru_cap L c"
    and put_present: "map_of (lru_iter L c) k = Some old \<Longrightarrow>
      fst (lru_put L c k v) = Some old \<and>
      lru_iter L (snd (lru_put L c k v)) = (k, v) # drop_key k (lru_iter L c)"
    and put_absent: "map_of (lru_iter L c) k = None \<Longrightarrow>
      fst (lru_put L c k v) = None \<and>
      lru_iter L (snd (lru_put L c k v)) =
        (k, v) # (if length (lru_iter L c) < lru_cap L c then lru_iter L c else butlast (lru_iter L c))"
    and pop_absent: "map_of (lru_iter L c) k = None \<Longrightarrow> lru_pop L c k = None"
    and pop_present: "map_of (lru_iter L c) k = Some v \<Longrightarrow>
      \<exists>c'. lru_pop L c k = Some (v, c') \<and> lru_iter L c' = drop_key k (lru_iter L c) \<and>
        lru_cap L c' = lru_cap L c"
    and pop_lru_empty: "lru_iter L c = [] \<Longrightarrow> lru_pop_lru L c = None"
    and pop_lru_nonempty: "lru_iter L c \<noteq> [] \<Longrightarrow>
      \<exists>c'. lru_pop_lru L c = Some (last (lru_iter L c), c') \<and>
        lru_iter L c' = butlast (lru_iter L c) \<and> lru_cap L c' = lru_cap L c"
begin

lemma get_mut_cases:
  obtains (absent) "map_of (lru_iter L c) k = None" "lru_get_mut L c k = None"
  | (present) v store where "map_of (lru_iter L c) k = Some v"
      "lru_get_mut L c k = Some (v, store)"
      "\<And>v'. lru_iter L (store v') = (k, v') # drop_key k (lru_iter L c)"
      "\<And>v'. lru_cap L (store v') = lru_cap L c"
proof (cases "map_of (lru_iter L c) k")
  case None
  with absent get_mut_absent show thesis by simp
next
  case (Some v)
  with get_mut_present [OF Some] present show thesis by blast
qed

lemma pop_cases:
  obtains (absent) "map_of (lru_iter L c) k = None" "lru_pop L c k = None"
  | (present) v c' where "map_of (lru_iter L c) k = Some v" "lru_pop L c k = Some (v, c')"
      "lru_iter L c' = drop_key k (lru_iter L c)" "lru_cap L c' = lru_cap L c"
proof (cases "map_of (lru_iter L c) k")
  case None
  with absent pop_absent show thesis by simp
next
  case (Some v)
  with pop_present [OF Some] present show thesis by blast
qed

lemma pop_lru_cases:
  obtains (empty) "lru_iter L c = []" "lru_pop_lru L c = None"
  | (popped) ps p c' where "lru_iter L c = ps @ [p]" "lru_pop_lru L c = Some (p, c')"
      "lru_iter L c' = ps" "lru_cap L c' = lru_cap L c"
proof (cases "lru_iter L c = []")
  case True
  then show thesis by (intro empty pop_lru_empty)
next
  case False
  from pop_lru_nonempty [OF this] obtain c'
    where c': "lru_pop_lru L c = Some (last (lru_iter L c), c')"
      "lru_iter L c' = butlast (lru_iter L c)" "lru_cap L c' = lru_cap L c" by blast
  have "lru_iter L c = butlast (lru_iter L c) @ [last (lru_iter L c)]" using False by simp
  then show thesis using c' by (rule popped)
qed

lemma contains_iff: "lru_contains L c k \<longleftrightarrow> map_of (lru_iter L c) k \<noteq> None"
  by (simp add: contains map_of_eq_None_iff)

end

section \<open>The reference behaviour\<close>

text \<open>A capacity and the entries from the most to the least recently used.\<close>

typedef 'v lru_list =
  "{(n, ps :: (str \<times> 'v) list). 0 < n \<and> distinct (map fst ps) \<and> length ps \<le> n}"
  by (rule exI [of _ "(1, [])"]) simp

setup_lifting type_definition_lru_list

lift_definition ll_new :: "nat \<Rightarrow> 'v lru_list" is "\<lambda>n. (max 1 n, [])" by simp
lift_definition ll_cap :: "'v lru_list \<Rightarrow> nat" is fst .
lift_definition ll_iter :: "'v lru_list \<Rightarrow> (str \<times> 'v) list" is snd .

definition put_list :: "nat \<Rightarrow> (str \<times> 'v) list \<Rightarrow> str \<Rightarrow> 'v \<Rightarrow> (str \<times> 'v) list" where
  "put_list n ps k v =
     (if k \<in> fst ` set ps then (k, v) # drop_key k ps
      else (k, v) # (if length ps < n then ps else butlast ps))"

lemma put_list_ok:
  assumes "0 < n" "distinct (map fst ps)" "length ps \<le> n"
  shows "distinct (map fst (put_list n ps k v)) \<and> length (put_list n ps k v) \<le> n"
proof (cases "k \<in> fst ` set ps")
  case True
  with assms length_drop_key [OF assms(2) True] show ?thesis
    by (auto simp: put_list_def intro: distinct_drop_key)
next
  case False
  then have "k \<notin> fst ` set (butlast ps)" by (auto dest: in_set_butlastD)
  with assms False show ?thesis
    by (simp add: put_list_def map_butlast distinct_butlast)
qed

lift_definition ll_put :: "'v lru_list \<Rightarrow> str \<Rightarrow> 'v \<Rightarrow> 'v lru_list" is
  "\<lambda>(n, ps) k v. (n, put_list n ps k v)"
  by (clarsimp simp: put_list_ok)

lift_definition ll_remove :: "'v lru_list \<Rightarrow> str \<Rightarrow> 'v lru_list" is
  "\<lambda>(n, ps) k. (n, drop_key k ps)"
  by (auto simp: drop_key_def intro: distinct_map_filter order.trans [OF length_filter_le])

lift_definition ll_butlast :: "'v lru_list \<Rightarrow> 'v lru_list" is "\<lambda>(n, ps). (n, butlast ps)"
  by (auto simp: map_butlast distinct_butlast)

definition list_lru :: "('v lru_list, 'v) lru_api" where
  "list_lru =
     \<lparr>lru_new = ll_new, lru_cap = ll_cap, lru_iter = ll_iter,
      lru_len = (\<lambda>c. length (ll_iter c)),
      lru_contains = (\<lambda>c k. map_of (ll_iter c) k \<noteq> None),
      lru_get_mut = (\<lambda>c k. map_option (\<lambda>v. (v, ll_put c k)) (map_of (ll_iter c) k)),
      lru_put = (\<lambda>c k v. (map_of (ll_iter c) k, ll_put c k v)),
      lru_pop = (\<lambda>c k. map_option (\<lambda>v. (v, ll_remove c k)) (map_of (ll_iter c) k)),
      lru_pop_lru = (\<lambda>c. if ll_iter c = [] then None else Some (last (ll_iter c), ll_butlast c))\<rparr>"

lemma ll_iter_simps [simp]:
  "ll_iter (ll_new n) = []"
  "ll_iter (ll_put c k v) = put_list (ll_cap c) (ll_iter c) k v"
  "ll_iter (ll_remove c k) = drop_key k (ll_iter c)"
  "ll_iter (ll_butlast c) = butlast (ll_iter c)"
  by (transfer; auto)+

lemma ll_cap_simps [simp]:
  "ll_cap (ll_new n) = max 1 n" "ll_cap (ll_put c k v) = ll_cap c"
  "ll_cap (ll_remove c k) = ll_cap c" "ll_cap (ll_butlast c) = ll_cap c"
  by (transfer; auto)+

lemma ll_valid:
  "distinct (map fst (ll_iter c))" "length (ll_iter c) \<le> ll_cap c" "0 < ll_cap c"
  by (transfer; auto)+

interpretation ref_lru: lru_laws list_lru
  by unfold_locales
    (auto simp: list_lru_def ll_valid put_list_def map_of_eq_None_iff dom_map_of_conv_image_fst
      dest: map_of_SomeD intro: rev_image_eqI)

end
