(* ===== verification/Symbol_Cache.thy ===== *)
theory Symbol_Cache
  imports Parsed_Module Manifest Lru
begin

text \<open>
  \<^verbatim>\<open>crates/symbols-core/src/cache/mod.rs\<close>: the resident LRU of parsed modules, the durable
  index and the negative cache. The LRU is the \<^verbatim>\<open>lru\<close> crate's, so every operation takes its
  \<open>lru_api\<close>; the wall clock is the argument \<open>now\<close> of the operations that read it. The map
  \<open>entries\<close> is iterated by the code and is an association list; \<open>aliases\<close> and \<open>negative\<close>
  are only looked up. Counters and byte totals are 64-bit words.
\<close>

text \<open>
  The clock in seconds, from the system time in nanoseconds relative to the epoch: before the epoch
  \<^verbatim>\<open>duration_since\<close> fails and the reading is 0. The operations take their reading as an argument.
\<close>

definition now_epoch :: "int \<Rightarrow> u64" where
  "now_epoch nanos = (if nanos < 0 then 0 else of_int (nanos div 10 ^ 9))"

definition DEFAULT_MAX_BYTES :: u64 where
  "DEFAULT_MAX_BYTES = 4 * 1024 * 1024 * 1024"

definition DEFAULT_MAX_MODULES :: nat where
  "DEFAULT_MAX_MODULES = 256"

record resident =
  rs_module :: parsed_module
  rs_bytes :: u64
  rs_rows_resolved :: u64
  rs_last_used_epoch :: u64

record status_row =
  sr_debug_id :: str
  sr_name :: str
  sr_format :: str
  sr_arch :: str
  sr_bytes_resident :: i64
  sr_rows_resolved :: i64
  sr_last_used_epoch :: i64
  sr_origin :: str
  sr_resident :: bool

record 'c symbol_cache =
  sc_resident :: 'c
  sc_aliases :: "str \<rightharpoonup> str"
  sc_entries :: "(str \<times> manifest_entry) list"
  sc_negative :: "str set"
  sc_max_bytes :: u64
  sc_resident_bytes :: u64
  sc_parse_count :: u64

type_synonym 'c lru = "('c, resident) lru_api"

definition saturating_sub :: "u64 \<Rightarrow> u64 \<Rightarrow> u64" where
  "saturating_sub a b = (if b \<le> a then a - b else 0)"

definition cache_new :: "'c lru \<Rightarrow> u64 \<Rightarrow> nat \<Rightarrow> 'c symbol_cache" where
  "cache_new L max_bytes max_modules =
     \<lparr>sc_resident = lru_new L (max max_modules 1), sc_aliases = Map.empty, sc_entries = [],
      sc_negative = {}, sc_max_bytes = max_bytes, sc_resident_bytes = 0, sc_parse_count = 0\<rparr>"

section \<open>The durable index\<close>

definition rehydrate_entry :: "manifest_entry \<Rightarrow> 'c symbol_cache \<Rightarrow> 'c symbol_cache" where
  "rehydrate_entry e s =
     (let token = canonical_token (me_debug_id e);
          s1 = s\<lparr>sc_aliases := (sc_aliases s)(token \<mapsto> me_debug_id e)\<rparr>;
          s2 = (if me_miss e then s1\<lparr>sc_negative := insert token (sc_negative s1)\<rparr> else s1)
      in s2\<lparr>sc_entries := upsert (me_debug_id e) e (sc_entries s2)\<rparr>)"

definition rehydrate :: "cache_manifest \<Rightarrow> 'c symbol_cache \<Rightarrow> 'c symbol_cache" where
  "rehydrate manifest s = fold rehydrate_entry (cm_entries manifest) s"

definition refresh_entry :: "resident \<Rightarrow> manifest_entry \<Rightarrow> manifest_entry" where
  "refresh_entry r e =
     e\<lparr>me_rows_resolved := rs_rows_resolved r, me_last_used_epoch := rs_last_used_epoch r\<rparr>"

definition fold_back :: "str \<Rightarrow> resident \<Rightarrow> 'c symbol_cache \<Rightarrow> 'c symbol_cache" where
  "fold_back dbg r s = s\<lparr>sc_entries := modify dbg (refresh_entry r) (sc_entries s)\<rparr>"

definition sync_entries :: "'c lru \<Rightarrow> 'c symbol_cache \<Rightarrow> 'c symbol_cache" where
  "sync_entries L s = fold (\<lambda>(dbg, r). fold_back dbg r) (lru_iter L (sc_resident s)) s"

definition to_manifest ::
  "'c lru \<Rightarrow> source_spec list \<Rightarrow> 'c symbol_cache \<Rightarrow> cache_manifest \<times> 'c symbol_cache" where
  "to_manifest L sources s =
     (let s1 = sync_entries L s
      in (\<lparr>cm_sources = sources, cm_entries = sort_key me_debug_id (map snd (sc_entries s1))\<rparr>, s1))"

section \<open>Lookups\<close>

definition resolve_debug_id :: "'c symbol_cache \<Rightarrow> str \<Rightarrow> str option" where
  "resolve_debug_id s token = sc_aliases s (canonical_token token)"

definition is_known_miss :: "'c symbol_cache \<Rightarrow> str \<Rightarrow> bool" where
  "is_known_miss s token \<longleftrightarrow> canonical_token token \<in> sc_negative s"

definition is_resident :: "'c lru \<Rightarrow> 'c symbol_cache \<Rightarrow> str \<Rightarrow> bool" where
  "is_resident L s token =
     (case resolve_debug_id s token of
        Some dbg \<Rightarrow> lru_contains L (sc_resident s) dbg
      | None \<Rightarrow> False)"

definition record_miss :: "u64 \<Rightarrow> str \<Rightarrow> 'c symbol_cache \<Rightarrow> 'c symbol_cache" where
  "record_miss now token s =
     (let canon = canonical_token token in
      s\<lparr>sc_aliases := (case sc_aliases s canon of
            Some _ \<Rightarrow> sc_aliases s | None \<Rightarrow> (sc_aliases s)(canon \<mapsto> canon)),
        sc_negative := insert canon (sc_negative s),
        sc_entries := or_insert canon
          \<lparr>me_debug_id = canon, me_origin = None, me_format = None, me_arch = None,
           me_name = None, me_fetched_bytes = 0, me_rows_resolved = 0,
           me_last_used_epoch = now, me_miss = True\<rparr> (sc_entries s)\<rparr>)"

section \<open>Resolving against a resident module\<close>

definition touch :: "u64 \<Rightarrow> resident \<Rightarrow> resident" where
  "touch now r = r\<lparr>rs_rows_resolved := rs_rows_resolved r + 1, rs_last_used_epoch := now\<rparr>"

definition cache_resolve ::
  "'c lru \<Rightarrow> crates \<Rightarrow> u64 \<Rightarrow> str \<Rightarrow> u64 \<Rightarrow> limits \<Rightarrow> 'c symbol_cache
     \<Rightarrow> resolved_frame list option \<times> 'c symbol_cache" where
  "cache_resolve L K now token addr lim s =
     (case resolve_debug_id s token of
        None \<Rightarrow> (None, s)
      | Some dbg \<Rightarrow>
          (case lru_get_mut L (sc_resident s) dbg of
             None \<Rightarrow> (None, s)
           | Some (r, store) \<Rightarrow>
               (Some (parsed_resolve K (rs_module r) addr lim),
                s\<lparr>sc_resident := store (touch now r)\<rparr>)))"

definition cache_function_name ::
  "'c lru \<Rightarrow> crates \<Rightarrow> u64 \<Rightarrow> str \<Rightarrow> u64 \<Rightarrow> 'c symbol_cache
     \<Rightarrow> str option option \<times> 'c symbol_cache" where
  "cache_function_name L K now token addr s =
     (case resolve_debug_id s token of
        None \<Rightarrow> (None, s)
      | Some dbg \<Rightarrow>
          (case lru_get_mut L (sc_resident s) dbg of
             None \<Rightarrow> (None, s)
           | Some (r, store) \<Rightarrow>
               (Some (parsed_function_name K (rs_module r) addr),
                s\<lparr>sc_resident := store (touch now r)\<rparr>)))"

section \<open>Eviction and insertion\<close>

text \<open>
  The eviction loop pops whole modules. Each round removes one, so the number of resident
  modules is fuel enough; \<open>evict_loop_done\<close> below shows that it stops by its own guard.
\<close>

fun evict_loop :: "'c lru \<Rightarrow> nat \<Rightarrow> 'c symbol_cache \<Rightarrow> 'c symbol_cache" where
  "evict_loop L 0 s = s"
| "evict_loop L (Suc n) s =
     (if sc_max_bytes s < sc_resident_bytes s \<and> 1 < lru_len L (sc_resident s)
      then case lru_pop_lru L (sc_resident s) of
             Some ((dbg, r), c) \<Rightarrow>
               evict_loop L n
                 (fold_back dbg r
                    (s\<lparr>sc_resident := c,
                       sc_resident_bytes := saturating_sub (sc_resident_bytes s) (rs_bytes r)\<rparr>))
           | None \<Rightarrow> s
      else s)"

definition evict_to_budget :: "'c lru \<Rightarrow> 'c symbol_cache \<Rightarrow> 'c symbol_cache" where
  "evict_to_budget L s = evict_loop L (lru_len L (sc_resident s)) s"

definition located_entry :: "u64 \<Rightarrow> parsed_module \<Rightarrow> origin \<Rightarrow> manifest_entry" where
  "located_entry now module origin =
     \<lparr>me_debug_id = debug_id_str (parsed_identity module), me_origin = Some origin,
      me_format = Some (format_as_str (mi_format (parsed_info module))),
      me_arch = Some (mi_arch (parsed_info module)), me_name = Some (parsed_name module),
      me_fetched_bytes = parsed_resident_bytes module, me_rows_resolved = 0,
      me_last_used_epoch = now, me_miss = False\<rparr>"

text \<open>
  The insertion up to the call of \<^verbatim>\<open>evict_to_budget\<close>. \<^verbatim>\<open>LruCache::put\<close> answers with the value
  that was stored under the same key, if any.
\<close>

definition insert_unbounded ::
  "'c lru \<Rightarrow> u64 \<Rightarrow> parsed_module \<Rightarrow> origin \<Rightarrow> 'c symbol_cache \<Rightarrow> 'c symbol_cache" where
  "insert_unbounded L now module origin s =
     (let identity = parsed_identity module;
          dbg = debug_id_str identity;
          bytes = parsed_resident_bytes module;
          s1 = s\<lparr>sc_parse_count := sc_parse_count s + 1,
                 sc_aliases := fold (\<lambda>a m. m(a \<mapsto> dbg)) (aliases identity) (sc_aliases s),
                 sc_negative := sc_negative s - {canonical_token dbg},
                 sc_entries := upsert dbg (located_entry now module origin) (sc_entries s)\<rparr>;
          (old, c) = lru_put L (sc_resident s1) dbg
            \<lparr>rs_module = module, rs_bytes = bytes, rs_rows_resolved = 0, rs_last_used_epoch = now\<rparr>;
          kept = (case old of Some r \<Rightarrow> saturating_sub (sc_resident_bytes s1) (rs_bytes r)
                  | None \<Rightarrow> sc_resident_bytes s1)
      in s1\<lparr>sc_resident := c, sc_resident_bytes := kept + bytes\<rparr>)"

definition cache_insert ::
  "'c lru \<Rightarrow> u64 \<Rightarrow> parsed_module \<Rightarrow> origin \<Rightarrow> 'c symbol_cache \<Rightarrow> str \<times> 'c symbol_cache" where
  "cache_insert L now module origin s =
     (debug_id_str (parsed_identity module),
      evict_to_budget L (insert_unbounded L now module origin s))"

fun evict_all :: "'c lru \<Rightarrow> nat \<Rightarrow> i64 \<Rightarrow> 'c symbol_cache \<Rightarrow> i64 \<times> 'c symbol_cache" where
  "evict_all L 0 freed s = (freed, s)"
| "evict_all L (Suc n) freed s =
     (case lru_pop_lru L (sc_resident s) of
        Some ((dbg, r), c) \<Rightarrow>
          evict_all L n (freed + rs_bytes r) (fold_back dbg r (s\<lparr>sc_resident := c\<rparr>))
      | None \<Rightarrow> (freed, s))"

definition cache_evict :: "'c lru \<Rightarrow> str option \<Rightarrow> 'c symbol_cache \<Rightarrow> i64 \<times> 'c symbol_cache" where
  "cache_evict L token s =
     (case token of
        Some t \<Rightarrow>
          (case resolve_debug_id s t of
             None \<Rightarrow> (0, s)
           | Some dbg \<Rightarrow>
               (case lru_pop L (sc_resident s) dbg of
                  Some (r, c) \<Rightarrow>
                    (rs_bytes r,
                     fold_back dbg r
                       (s\<lparr>sc_resident := c,
                          sc_resident_bytes := saturating_sub (sc_resident_bytes s) (rs_bytes r)\<rparr>))
                | None \<Rightarrow> (0, s)))
      | None \<Rightarrow>
          (let (freed, s') = evict_all L (lru_len L (sc_resident s)) 0 s
           in (freed, s'\<lparr>sc_resident_bytes := 0\<rparr>)))"

section \<open>The status table\<close>

definition resident_row :: "(str \<times> manifest_entry) list \<Rightarrow> str \<Rightarrow> resident \<Rightarrow> status_row" where
  "resident_row entries dbg r =
     \<lparr>sr_debug_id = dbg, sr_name = parsed_name (rs_module r),
      sr_format = format_as_str (mi_format (parsed_info (rs_module r))),
      sr_arch = mi_arch (parsed_info (rs_module r)), sr_bytes_resident = rs_bytes r,
      sr_rows_resolved = rs_rows_resolved r, sr_last_used_epoch = rs_last_used_epoch r,
      sr_origin = (case Option.bind (map_of entries dbg) me_origin of
          Some loc \<Rightarrow> origin_label loc | None \<Rightarrow> []),
      sr_resident = True\<rparr>"

definition entry_row :: "str \<Rightarrow> manifest_entry \<Rightarrow> status_row" where
  "entry_row dbg e =
     \<lparr>sr_debug_id = dbg, sr_name = (case me_name e of Some n \<Rightarrow> n | None \<Rightarrow> []),
      sr_format = (case me_format e of Some n \<Rightarrow> n | None \<Rightarrow> []),
      sr_arch = (case me_arch e of Some n \<Rightarrow> n | None \<Rightarrow> []), sr_bytes_resident = 0,
      sr_rows_resolved = me_rows_resolved e, sr_last_used_epoch = me_last_used_epoch e,
      sr_origin = (case me_origin e of Some loc \<Rightarrow> origin_label loc
          | None \<Rightarrow> if me_miss e then ''not_found'' else []),
      sr_resident = False\<rparr>"

definition cache_status :: "'c lru \<Rightarrow> 'c symbol_cache \<Rightarrow> status_row list" where
  "cache_status L s =
     map (\<lambda>(dbg, r). resident_row (sc_entries s) dbg r) (lru_iter L (sc_resident s))
     @ map (\<lambda>(dbg, e). entry_row dbg e)
         (filter (\<lambda>(dbg, e). \<not> lru_contains L (sc_resident s) dbg) (sc_entries s))"

end
