(* ===== verification/Cache_Laws.thy ===== *)
theory Cache_Laws
  imports Symbol_Cache
begin

text \<open>
  What the operations of \<^verbatim>\<open>SymbolCache\<close> keep and change: the frame facts, the byte
  accounting, and, under the laws of the LRU, the locale \<open>resident_lru\<close> with one lemma group
  per operation. The invariant of the index is \<open>index_inv\<close>, that of the whole cache \<open>cache_inv\<close>;
  \<open>cache_step\<close> runs one operation, and the machine of these steps interprets the locales
  \<open>step_machine\<close> and \<open>monotone_machine\<close>.
\<close>

section \<open>Frame facts\<close>

lemma fold_back_frame [simp]:
  "sc_resident (fold_back d r s) = sc_resident s" "sc_aliases (fold_back d r s) = sc_aliases s"
  "sc_negative (fold_back d r s) = sc_negative s" "sc_max_bytes (fold_back d r s) = sc_max_bytes s"
  "sc_resident_bytes (fold_back d r s) = sc_resident_bytes s"
  "sc_parse_count (fold_back d r s) = sc_parse_count s"
  "sc_entries (fold_back d r s) = modify d (refresh_entry r) (sc_entries s)"
  by (simp_all add: fold_back_def)

lemma refresh_entry_simps [simp]:
  "me_debug_id (refresh_entry r e) = me_debug_id e" "me_origin (refresh_entry r e) = me_origin e"
  "me_format (refresh_entry r e) = me_format e" "me_arch (refresh_entry r e) = me_arch e"
  "me_name (refresh_entry r e) = me_name e" "me_miss (refresh_entry r e) = me_miss e"
  "me_rows_resolved (refresh_entry r e) = rs_rows_resolved r"
  "me_last_used_epoch (refresh_entry r e) = rs_last_used_epoch r"
  by (simp_all add: refresh_entry_def)

lemma touch_simps [simp]:
  "rs_module (touch now r) = rs_module r" "rs_bytes (touch now r) = rs_bytes r"
  "rs_rows_resolved (touch now r) = rs_rows_resolved r + 1"
  by (simp_all add: touch_def)

lemma located_entry_simps [simp]:
  "me_debug_id (located_entry now m og) = debug_id_str (parsed_identity m)"
  "me_miss (located_entry now m og) = False" "me_rows_resolved (located_entry now m og) = 0"
  "me_origin (located_entry now m og) = Some og"
  by (simp_all add: located_entry_def)

lemma fold_aliases: "fold (\<lambda>a m. m(a \<mapsto> d)) as m t = (if t \<in> set as then Some d else m t)"
  by (induction as arbitrary: m) auto

text \<open>
  What eviction and resolution leave alone: everything but the resident set, its size and
  the two statistics of the entries.
\<close>

definition index_entry :: "manifest_entry \<Rightarrow> manifest_entry" where
  "index_entry e = e\<lparr>me_rows_resolved := 0, me_last_used_epoch := 0\<rparr>"

lemma index_entry_refresh [simp]: "index_entry (refresh_entry r e) = index_entry e"
  by (simp add: index_entry_def refresh_entry_def)

lemma index_entry_eqD:
  "index_entry e = index_entry f \<Longrightarrow> me_debug_id e = me_debug_id f"
  "index_entry e = index_entry f \<Longrightarrow> me_origin e = me_origin f"
  "index_entry e = index_entry f \<Longrightarrow> me_miss e = me_miss f"
  by (cases e, cases f, simp add: index_entry_def)+

definition same_index :: "'c symbol_cache \<Rightarrow> 'c symbol_cache \<Rightarrow> bool" where
  "same_index s t \<longleftrightarrow> sc_aliases t = sc_aliases s \<and> sc_negative t = sc_negative s \<and>
     sc_max_bytes t = sc_max_bytes s \<and> sc_parse_count t = sc_parse_count s \<and>
     map (map_prod id index_entry) (sc_entries t) = map (map_prod id index_entry) (sc_entries s)"

lemma same_index_refl [simp]: "same_index s s"
  by (simp add: same_index_def)

lemma same_index_trans: "same_index s t \<Longrightarrow> same_index t u \<Longrightarrow> same_index s u"
  by (simp add: same_index_def)

lemma modify_index: "map (map_prod id index_entry) (modify d (refresh_entry r) ps) =
    map (map_prod id index_entry) ps"
  by (auto simp: modify_def)

lemma same_index_fold_back [simp]:
  "same_index s (fold_back d r t) = same_index s t"
  "same_index s (t\<lparr>sc_resident := c\<rparr>) = same_index s t"
  "same_index s (t\<lparr>sc_resident_bytes := b\<rparr>) = same_index s t"
  by (simp_all add: same_index_def modify_index)

lemma same_index_keys: "same_index s t \<Longrightarrow> map fst (sc_entries t) = map fst (sc_entries s)"
  unfolding same_index_def by (metis (no_types, lifting) fst_map_prod id_apply list.map_comp list.map_cong comp_apply)

section \<open>Byte accounting\<close>

definition total_bytes :: "(str \<times> resident) list \<Rightarrow> nat" where
  "total_bytes ps = (\<Sum>p\<leftarrow>ps. unat (rs_bytes (snd p)))"

text \<open>
  The counter \<^verbatim>\<open>resident_bytes\<close> is the true total of the resident modules plus \<open>d\<close>: the drift
  is the amount by which it overstates.
\<close>

definition drift :: "'c lru \<Rightarrow> 'c symbol_cache \<Rightarrow> nat \<Rightarrow> bool" where
  "drift L s d \<longleftrightarrow> unat (sc_resident_bytes s) = total_bytes (lru_iter L (sc_resident s)) + d"

lemma total_bytes_simps [simp]:
  "total_bytes [] = 0" "total_bytes (p # ps) = unat (rs_bytes (snd p)) + total_bytes ps"
  "total_bytes (ps @ qs) = total_bytes ps + total_bytes qs"
  by (simp_all add: total_bytes_def)

lemma total_bytes_drop_key:
  "distinct (map fst ps) \<Longrightarrow> map_of ps k = Some r \<Longrightarrow>
     total_bytes ps = unat (rs_bytes r) + total_bytes (drop_key k ps)"
proof (induction ps)
  case (Cons p ps)
  show ?case
  proof (cases "fst p = k")
    case True
    with Cons.prems have "k \<notin> fst ` set ps" "snd p = r" by auto
    with True show ?thesis using drop_key_absent [of k ps] by (simp add: drop_key_def)
  next
    case False
    with Cons show ?thesis by (simp add: drop_key_def)
  qed
qed simp

lemma unat_saturating_sub [simp]: "unat (saturating_sub a b) = unat a - unat b"
  by (auto simp: saturating_sub_def unat_sub word_le_nat_alt not_le)

lemma unat_add_fits: "unat a + unat b < 2 ^ 64 \<Longrightarrow> unat (a + b) = unat a + unat b" for a b :: u64
  by (simp add: unat_word_ariths)

text \<open>The counter after evicting all but the \<open>n\<close> most recently used modules.\<close>

definition counter_keeping :: "'c lru \<Rightarrow> 'c symbol_cache \<Rightarrow> nat \<Rightarrow> nat" where
  "counter_keeping L s n =
     unat (sc_resident_bytes s) - total_bytes (drop n (lru_iter L (sc_resident s)))"

text \<open>
  The cache \<open>t\<close> keeps a most recent part of the modules of \<open>s\<close> that is as long as the budget
  allows: with any more of them the counter would be over it.
\<close>

definition kept_least :: "'c lru \<Rightarrow> 'c symbol_cache \<Rightarrow> 'c symbol_cache \<Rightarrow> bool" where
  "kept_least L s t \<longleftrightarrow> sc_max_bytes t = sc_max_bytes s \<and> lru_iter L (sc_resident t) \<noteq> [] \<and>
     lru_iter L (sc_resident t) = take (length (lru_iter L (sc_resident t))) (lru_iter L (sc_resident s)) \<and>
     unat (sc_resident_bytes t) = counter_keeping L s (length (lru_iter L (sc_resident t))) \<and>
     (\<forall>k. length (lru_iter L (sc_resident t)) < k \<longrightarrow> k \<le> length (lru_iter L (sc_resident s)) \<longrightarrow>
        unat (sc_max_bytes s) < counter_keeping L s k)"

section \<open>The resident record of an insertion\<close>

abbreviation key_of :: "parsed_module \<Rightarrow> str" where
  "key_of m \<equiv> debug_id_str (parsed_identity m)"

definition new_resident :: "u64 \<Rightarrow> parsed_module \<Rightarrow> resident" where
  "new_resident now m =
     \<lparr>rs_module = m, rs_bytes = parsed_resident_bytes m, rs_rows_resolved = 0,
      rs_last_used_epoch = now\<rparr>"

text \<open>
  The bytes by which an insertion inflates the counter: those of the least recently used
  module, when \<^verbatim>\<open>put\<close> drops it to make room.
\<close>

definition displaced_bytes :: "'c lru \<Rightarrow> 'c symbol_cache \<Rightarrow> parsed_module \<Rightarrow> nat" where
  "displaced_bytes L s m =
     (if map_of (lru_iter L (sc_resident s)) (key_of m) = None \<and> \<not> length (lru_iter L (sc_resident s)) < lru_cap L (sc_resident s)
      then unat (rs_bytes (snd (last (lru_iter L (sc_resident s))))) else 0)"

lemma insert_unbounded_frame [simp]:
  "sc_parse_count (insert_unbounded L now m og s) = sc_parse_count s + 1"
  "sc_aliases (insert_unbounded L now m og s) =
     fold (\<lambda>a f. f(a \<mapsto> key_of m)) (aliases (parsed_identity m)) (sc_aliases s)"
  "sc_negative (insert_unbounded L now m og s) = sc_negative s - {canonical_token (key_of m)}"
  "sc_entries (insert_unbounded L now m og s) =
     upsert (key_of m) (located_entry now m og) (sc_entries s)"
  "sc_max_bytes (insert_unbounded L now m og s) = sc_max_bytes s"
  by (simp_all add: insert_unbounded_def Let_def split: prod.splits)

section \<open>The laws of the LRU at work\<close>

locale resident_lru = lru_laws L for L :: "('c, resident) lru_api"
begin

abbreviation items :: "'c symbol_cache \<Rightarrow> (str \<times> resident) list" where
  "items s \<equiv> lru_iter L (sc_resident s)"

lemma items_distinct: "distinct (map fst (items s))"
  by (rule iter_distinct)

lemma is_resident_iff:
  "is_resident L s t \<longleftrightarrow> (\<exists>d. resolve_debug_id s t = Some d \<and> map_of (items s) d \<noteq> None)"
  by (auto simp: is_resident_def contains_iff split: option.splits)

subsection \<open>The eviction loop\<close>

lemma evict_loop_invariant:
  assumes "P s"
    and "\<And>s ps d r c. P s \<Longrightarrow> sc_max_bytes s < sc_resident_bytes s \<Longrightarrow>
      items s = ps @ [(d, r)] \<Longrightarrow> ps \<noteq> [] \<Longrightarrow> lru_iter L c = ps \<Longrightarrow>
      lru_cap L c = lru_cap L (sc_resident s) \<Longrightarrow>
      P (fold_back d r (s\<lparr>sc_resident := c,
           sc_resident_bytes := saturating_sub (sc_resident_bytes s) (rs_bytes r)\<rparr>))"
  shows "P (evict_loop L n s)"
  using assms(1)
proof (induction n arbitrary: s)
  case (Suc n)
  show ?case
  proof (cases "sc_max_bytes s < sc_resident_bytes s \<and> 1 < lru_len L (sc_resident s)")
    case guard: True
    show ?thesis
    proof (cases rule: pop_lru_cases [of "sc_resident s"])
      case empty
      with guard show ?thesis by (simp add: len)
    next
      case (popped ps p c)
      obtain d r where p: "p = (d, r)" by (cases p)
      have "ps \<noteq> []" using guard popped(1) by (auto simp: len)
      with popped p Suc.prems assms(2) Suc.IH guard show ?thesis by simp
    qed
  next
    case False
    then have "evict_loop L (Suc n) s = s" by auto
    with Suc.prems show ?thesis by simp
  qed
qed simp

lemma evict_loop_done:
  "length (items s) \<le> n \<Longrightarrow>
     sc_resident_bytes (evict_loop L n s) \<le> sc_max_bytes s \<or> length (items (evict_loop L n s)) \<le> 1"
proof (induction n arbitrary: s)
  case (Suc n)
  show ?case
  proof (cases "sc_max_bytes s < sc_resident_bytes s \<and> 1 < lru_len L (sc_resident s)")
    case guard: True
    show ?thesis
    proof (cases rule: pop_lru_cases [of "sc_resident s"])
      case empty
      with guard show ?thesis by (simp add: len)
    next
      case (popped ps p c)
      obtain d r where p: "p = (d, r)" by (cases p)
      with popped guard Suc.prems show ?thesis
        using Suc.IH [of "fold_back d r (s\<lparr>sc_resident := c,
           sc_resident_bytes := saturating_sub (sc_resident_bytes s) (rs_bytes r)\<rparr>)"]
        by simp
    qed
  next
    case False
    then show ?thesis by (auto simp: len not_less)
  qed
qed simp

lemma evict_to_budget_index: "same_index s (evict_to_budget L s)"
  unfolding evict_to_budget_def
  by (rule evict_loop_invariant [where P = "same_index s"]) simp_all

lemma evict_to_budget_prefix:
  assumes "items s \<noteq> []"
  shows "\<exists>n > 0. items (evict_to_budget L s) = take n (items s)"
  unfolding evict_to_budget_def
proof (rule evict_loop_invariant [where P = "\<lambda>t. \<exists>n > 0. items t = take n (items s)"])
  show "\<exists>n > 0. items s = take n (items s)" using assms by (intro exI [of _ "length (items s)"]) simp
next
  fix t ps d r c
  assume P: "\<exists>n > 0. items t = take n (items s)" and split: "items t = ps @ [(d, r)]" "ps \<noteq> []"
    and c: "lru_iter L c = ps"
  then obtain n where n: "take n (items s) = ps @ [(d, r)]" by metis
  then have "take (length ps) (items s) = ps"
    by (metis append_eq_conv_conj append_take_drop_id append.assoc)
  with split(2) c show "\<exists>n > 0. items (fold_back d r (t\<lparr>sc_resident := c,
      sc_resident_bytes := saturating_sub (sc_resident_bytes t) (rs_bytes r)\<rparr>)) = take n (items s)"
    by (intro exI [of _ "length ps"]) simp
qed

lemma kept_least_step:
  assumes "kept_least L s t" "sc_max_bytes t < sc_resident_bytes t" "items t = ps @ [(d, r)]" "ps \<noteq> []"
    and "lru_iter L c = ps"
  shows "kept_least L s (fold_back d r (t\<lparr>sc_resident := c,
      sc_resident_bytes := saturating_sub (sc_resident_bytes t) (rs_bytes r)\<rparr>))"
proof -
  define m where "m = length ps"
  have n: "length (items t) = Suc m" using assms(3) by (simp add: m_def)
  have keep: "ps @ [(d, r)] = take (Suc m) (items s)"
    using assms(1,3) by (simp add: kept_least_def m_def)
  then have "length (take (Suc m) (items s)) = Suc m" using m_def by (metis length_append_singleton)
  then have len: "m < length (items s)" by (simp split: if_splits)
  have ps: "ps = take m (items s)"
    using arg_cong [OF keep, of butlast] len by (simp add: butlast_take)
  have "items s ! m = (d, r)"
    using arg_cong [OF keep, of "\<lambda>xs. xs ! m"] by (simp add: m_def nth_append)
  then have drop: "drop m (items s) = (d, r) # drop (Suc m) (items s)"
    using len by (simp flip: Cons_nth_drop_Suc)
  have here: "unat (sc_resident_bytes t) = counter_keeping L s (Suc m)"
    using assms(1) n by (simp add: kept_least_def)
  have "unat (sc_max_bytes s) < counter_keeping L s k" if "m < k" "k \<le> length (items s)" for k
  proof (cases "k = Suc m")
    case True
    with here assms(1,2) show ?thesis by (simp add: kept_least_def word_less_nat_alt)
  next
    case False
    with that assms(1) n show ?thesis by (simp add: kept_least_def)
  qed
  moreover have "unat (saturating_sub (sc_resident_bytes t) (rs_bytes r)) = counter_keeping L s m"
    by (simp add: here counter_keeping_def drop)
  moreover have "sc_max_bytes t = sc_max_bytes s" using assms(1) by (simp add: kept_least_def)
  moreover have "length (lru_iter L c) = m" "lru_iter L c = take m (items s)" "lru_iter L c \<noteq> []"
    unfolding assms(5) by (rule m_def [symmetric], rule ps, rule assms(4))
  ultimately show ?thesis
    unfolding kept_least_def by simp
qed

lemma evict_to_budget_least: "items s \<noteq> [] \<Longrightarrow> kept_least L s (evict_to_budget L s)"
  unfolding evict_to_budget_def
  by (rule evict_loop_invariant [where P = "kept_least L s"])
    (simp_all add: kept_least_step, simp add: kept_least_def counter_keeping_def)

lemma evict_to_budget_drift: "drift L s d \<Longrightarrow> drift L (evict_to_budget L s) d"
  unfolding evict_to_budget_def
  by (rule evict_loop_invariant [where P = "\<lambda>s. drift L s d"]) (simp_all add: drift_def)

lemma evict_to_budget_done:
  "sc_resident_bytes (evict_to_budget L s) \<le> sc_max_bytes s \<or> length (items (evict_to_budget L s)) \<le> 1"
  unfolding evict_to_budget_def by (rule evict_loop_done) (simp add: len)


subsection \<open>Insertion\<close>

lemma insert_unbounded_items:
  "items (insert_unbounded L now m og s) = (key_of m, new_resident now m) #
     (if map_of (items s) (key_of m) \<noteq> None then drop_key (key_of m) (items s)
      else if length (items s) < lru_cap L (sc_resident s) then items s else butlast (items s))"
  using put_present [of "sc_resident s" "key_of m" _ "new_resident now m"]
    put_absent [of "sc_resident s" "key_of m" "new_resident now m"]
  by (auto simp: insert_unbounded_def Let_def new_resident_def split: prod.splits)

lemma insert_unbounded_bytes:
  "sc_resident_bytes (insert_unbounded L now m og s) =
     (case map_of (items s) (key_of m) of
        Some r \<Rightarrow> saturating_sub (sc_resident_bytes s) (rs_bytes r) | None \<Rightarrow> sc_resident_bytes s)
     + parsed_resident_bytes m"
  using put_present [of "sc_resident s" "key_of m" _ "new_resident now m"]
    put_absent [of "sc_resident s" "key_of m" "new_resident now m"]
  by (auto simp: insert_unbounded_def Let_def new_resident_def split: prod.splits option.splits)

lemma insert_unbounded_drift:
  assumes "drift L s d"
    and fits: "unat (sc_resident_bytes s) + unat (parsed_resident_bytes m) < 2 ^ 64"
  shows "drift L (insert_unbounded L now m og s) (d + displaced_bytes L s m)"
proof (cases "map_of (items s) (key_of m)")
  case (Some r)
  from total_bytes_drop_key [OF items_distinct Some] assms(1)
  have sub: "unat (saturating_sub (sc_resident_bytes s) (rs_bytes r)) =
      total_bytes (drop_key (key_of m) (items s)) + d"
    by (simp add: drift_def)
  then have "unat (saturating_sub (sc_resident_bytes s) (rs_bytes r) + parsed_resident_bytes m) =
      total_bytes (drop_key (key_of m) (items s)) + d + unat (parsed_resident_bytes m)"
    using fits by (subst unat_add_fits) (simp_all)
  with Some show ?thesis
    by (simp add: drift_def displaced_bytes_def insert_unbounded_items insert_unbounded_bytes
        new_resident_def)
next
  case None
  have "total_bytes (items s) =
      total_bytes (butlast (items s)) + unat (rs_bytes (snd (last (items s))))"
    if "\<not> length (items s) < lru_cap L (sc_resident s)"
  proof -
    from that have "items s \<noteq> []" using cap_pos [of "sc_resident s"] by auto
    then have "items s = butlast (items s) @ [last (items s)]" by simp
    then show ?thesis by (metis add.commute add_0 total_bytes_simps)
  qed
  with None assms(1) show ?thesis
    by (auto simp: drift_def displaced_bytes_def insert_unbounded_items insert_unbounded_bytes
        new_resident_def unat_add_fits [OF fits])
qed

lemma cache_insert_index:
  "same_index (insert_unbounded L now m og s) (snd (cache_insert L now m og s))"
  by (simp add: cache_insert_def evict_to_budget_index)

lemma cache_insert_items:
  "\<exists>rest. items (snd (cache_insert L now m og s)) = (key_of m, new_resident now m) # rest \<and>
     length rest \<le> length (items s) \<and> (\<forall>p \<in> set rest. p \<in> set (items s))"
proof -
  obtain rest0 where r0: "items (insert_unbounded L now m og s) = (key_of m, new_resident now m) # rest0"
      "length rest0 \<le> length (items s)" "\<forall>p \<in> set rest0. p \<in> set (items s)"
    by (rule that [of "if map_of (items s) (key_of m) \<noteq> None then drop_key (key_of m) (items s)
      else if length (items s) < lru_cap L (sc_resident s) then items s else butlast (items s)"])
      (auto simp: insert_unbounded_items drop_key_def dest: in_set_butlastD)
  then obtain n where n: "n > 0" "items (evict_to_budget L (insert_unbounded L now m og s)) =
      take n ((key_of m, new_resident now m) # rest0)"
    using evict_to_budget_prefix [of "insert_unbounded L now m og s"] by auto
  then have "items (snd (cache_insert L now m og s)) =
      (key_of m, new_resident now m) # take (n - 1) rest0"
    by (cases n) (simp_all add: cache_insert_def)
  with r0 show ?thesis by (auto dest: in_set_takeD)
qed

lemma cache_insert_drift:
  assumes "drift L s d" "unat (sc_resident_bytes s) + unat (parsed_resident_bytes m) < 2 ^ 64"
  shows "drift L (snd (cache_insert L now m og s)) (d + displaced_bytes L s m)"
  unfolding cache_insert_def snd_conv
  by (intro evict_to_budget_drift insert_unbounded_drift assms)

subsection \<open>Lookups that promote\<close>

lemma cache_resolve_cases:
  obtains (absent) "\<not> is_resident L s t" "cache_resolve L K now t a lim s = (None, s)"
  | (present) d r c where "resolve_debug_id s t = Some d" "map_of (items s) d = Some r"
      "cache_resolve L K now t a lim s =
         (Some (parsed_resolve K (rs_module r) a lim), s\<lparr>sc_resident := c\<rparr>)"
      "lru_iter L c = (d, touch now r) # drop_key d (items s)"
      "lru_cap L c = lru_cap L (sc_resident s)"
proof (cases "resolve_debug_id s t")
  case None
  then show thesis by (intro absent) (simp_all add: is_resident_def cache_resolve_def)
next
  case (Some d)
  show thesis
  proof (cases rule: get_mut_cases [of "sc_resident s" d])
    case absent
    with Some that(1) show thesis by (simp add: is_resident_iff cache_resolve_def)
  next
    case (present v store)
    with Some that(2) [of d v "store (touch now v)"] show thesis by (simp add: cache_resolve_def)
  qed
qed

lemma cache_function_name_cases:
  obtains (absent) "\<not> is_resident L s t" "cache_function_name L K now t a s = (None, s)"
  | (present) d r c where "resolve_debug_id s t = Some d" "map_of (items s) d = Some r"
      "cache_function_name L K now t a s =
         (Some (parsed_function_name K (rs_module r) a), s\<lparr>sc_resident := c\<rparr>)"
      "lru_iter L c = (d, touch now r) # drop_key d (items s)"
      "lru_cap L c = lru_cap L (sc_resident s)"
proof (cases "resolve_debug_id s t")
  case None
  then show thesis by (intro absent) (simp_all add: is_resident_def cache_function_name_def)
next
  case (Some d)
  show thesis
  proof (cases rule: get_mut_cases [of "sc_resident s" d])
    case absent
    with Some that(1) show thesis by (simp add: is_resident_iff cache_function_name_def)
  next
    case (present v store)
    with Some that(2) [of d v "store (touch now v)"] show thesis by (simp add: cache_function_name_def)
  qed
qed

subsection \<open>Forced eviction and the statistics\<close>

lemma cache_evict_some_cases:
  obtains (absent) "\<not> is_resident L s t" "cache_evict L (Some t) s = (0, s)"
  | (present) d r c where "resolve_debug_id s t = Some d" "map_of (items s) d = Some r"
      "cache_evict L (Some t) s = (rs_bytes r, fold_back d r (s\<lparr>sc_resident := c,
         sc_resident_bytes := saturating_sub (sc_resident_bytes s) (rs_bytes r)\<rparr>))"
      "lru_iter L c = drop_key d (items s)" "lru_cap L c = lru_cap L (sc_resident s)"
proof (cases "resolve_debug_id s t")
  case None
  then show thesis by (intro absent) (simp_all add: is_resident_def cache_evict_def)
next
  case (Some d)
  show thesis
  proof (cases rule: pop_cases [of "sc_resident s" d])
    case absent
    with Some that(1) show thesis by (simp add: is_resident_iff cache_evict_def)
  next
    case (present v c)
    with Some that(2) [of d v c] show thesis by (simp add: cache_evict_def)
  qed
qed

lemma evict_all_state:
  "length (items s) \<le> n \<Longrightarrow>
     items (snd (evict_all L n f s)) = [] \<and> same_index s (snd (evict_all L n f s)) \<and>
     lru_cap L (sc_resident (snd (evict_all L n f s))) = lru_cap L (sc_resident s) \<and>
     fst (evict_all L n f s) = f + (\<Sum>p\<leftarrow>items s. rs_bytes (snd p))"
proof (induction n arbitrary: s f)
  case (Suc n)
  show ?case
  proof (cases rule: pop_lru_cases [of "sc_resident s"])
    case empty
    then show ?thesis by simp
  next
    case (popped ps p c)
    obtain d r where p: "p = (d, r)" by (cases p)
    define s' where "s' = fold_back d r (s\<lparr>sc_resident := c\<rparr>)"
    have s': "items s' = ps" "same_index s s'" "lru_cap L (sc_resident s') = lru_cap L (sc_resident s)"
      using popped by (simp_all add: s'_def)
    have step: "evict_all L (Suc n) f s = evict_all L n (f + rs_bytes r) s'"
      using popped p by (simp add: s'_def)
    from popped(1) Suc.prems s'(1) have "length (items s') \<le> n" by simp
    from Suc.IH [OF this, of "f + rs_bytes r"] s' popped(1) p show ?thesis
      unfolding step by (auto intro: same_index_trans)
  qed
qed simp

lemma cache_evict_none:
  "items (snd (cache_evict L None s)) = []" "same_index s (snd (cache_evict L None s))"
  "fst (cache_evict L None s) = (\<Sum>p\<leftarrow>items s. rs_bytes (snd p))"
  "sc_resident_bytes (snd (cache_evict L None s)) = 0"
  "lru_cap L (sc_resident (snd (cache_evict L None s))) = lru_cap L (sc_resident s)"
  using evict_all_state [of s "lru_len L (sc_resident s)" 0]
  by (simp_all add: cache_evict_def len case_prod_beta)

lemma fold_sync:
  "sc_resident (fold (\<lambda>(d, r). fold_back d r) ps s) = sc_resident s \<and>
   sc_resident_bytes (fold (\<lambda>(d, r). fold_back d r) ps s) = sc_resident_bytes s \<and>
   same_index s (fold (\<lambda>(d, r). fold_back d r) ps s)"
proof (induction ps arbitrary: s)
  case (Cons p ps)
  obtain d r where p: "p = (d, r)" by (cases p)
  have "same_index s (fold_back d r s)" by simp
  from same_index_trans [OF this, of "fold (\<lambda>(d, r). fold_back d r) ps (fold_back d r s)"]
    Cons [of "fold_back d r s"] p show ?case by simp
qed simp

lemma sync_entries_frame [simp]:
  "sc_resident (sync_entries L s) = sc_resident s"
  "sc_resident_bytes (sync_entries L s) = sc_resident_bytes s"
  "same_index s (sync_entries L s)"
  using fold_sync [of "items s" s] by (simp_all add: sync_entries_def)

end

section \<open>The invariant\<close>

definition index_inv :: "'c symbol_cache \<Rightarrow> bool" where
  "index_inv s \<longleftrightarrow> distinct (map fst (sc_entries s)) \<and>
     list_all (\<lambda>(k, e). me_debug_id e = k \<and> canonical_token k \<in> dom (sc_aliases s)) (sc_entries s) \<and>
     ran (sc_aliases s) \<subseteq> fst ` set (sc_entries s) \<and>
     dom (sc_aliases s) \<subseteq> range canonical_token \<and>
     sc_negative s \<subseteq> dom (sc_aliases s)"

definition resident_ok :: "'c symbol_cache \<Rightarrow> str \<times> resident \<Rightarrow> bool" where
  "resident_ok s p \<longleftrightarrow> fst p = key_of (rs_module (snd p)) \<and>
     rs_bytes (snd p) = parsed_resident_bytes (rs_module (snd p)) \<and>
     fst p \<in> fst ` set (sc_entries s) \<and>
     set (aliases (parsed_identity (rs_module (snd p)))) \<subseteq> dom (sc_aliases s)"

definition cache_inv :: "'c lru \<Rightarrow> 'c symbol_cache \<Rightarrow> bool" where
  "cache_inv L s \<longleftrightarrow> index_inv s \<and> list_all (resident_ok s) (lru_iter L (sc_resident s))"

lemma same_index_inv:
  assumes "same_index s t" "index_inv s"
  shows "index_inv t"
proof -
  note keys = same_index_keys [OF assms(1)]
  have "me_debug_id e = k" if "(k, e) \<in> set (sc_entries t)" for k e
  proof -
    from that have "(k, index_entry e) \<in> set (map (map_prod id index_entry) (sc_entries t))"
      by (force simp: image_iff)
    then have "(k, index_entry e) \<in> set (map (map_prod id index_entry) (sc_entries s))"
      using assms(1) unfolding same_index_def by metis
    then obtain e' where "(k, e') \<in> set (sc_entries s)" "index_entry e' = index_entry e" by auto
    with assms(2) index_entry_eqD(1) [of e' e] show ?thesis
      by (auto simp: index_inv_def list_all_iff)
  qed
  moreover have "canonical_token k \<in> dom (sc_aliases s)" if "(k, e) \<in> set (sc_entries t)" for k e
  proof -
    from that have "k \<in> fst ` set (sc_entries t)" by force
    then have "k \<in> fst ` set (sc_entries s)" using keys by (metis list.set_map)
    with assms(2) show ?thesis by (auto simp: index_inv_def list_all_iff)
  qed
  moreover have "fst ` set (sc_entries t) = fst ` set (sc_entries s)"
    using keys by (metis list.set_map)
  moreover have "sc_aliases t = sc_aliases s" "sc_negative t = sc_negative s"
    using assms(1) by (simp_all add: same_index_def)
  ultimately show ?thesis
    using assms(2) keys unfolding index_inv_def list_all_iff
    by (metis (mono_tags, lifting) case_prodI2)
qed

lemma same_index_resident_ok: "same_index s t \<Longrightarrow> resident_ok t p = resident_ok s p"
  using same_index_keys [of s t] unfolding resident_ok_def same_index_def
  by (metis list.set_map)

lemma resident_ok_touch [simp]: "resident_ok s (d, touch now r) = resident_ok s (d, r)"
  by (simp add: resident_ok_def)

lemma resident_ok_resident [simp]:
  "resident_ok (s\<lparr>sc_resident := c\<rparr>) p = resident_ok s p"
  "index_inv (s\<lparr>sc_resident := c\<rparr>) = index_inv s"
  by (simp_all add: resident_ok_def index_inv_def)

lemma resident_ok_new:
  "resident_ok (insert_unbounded L now m og s) (key_of m, new_resident now m)"
  by (auto simp: resident_ok_def new_resident_def fold_aliases)

lemma index_inv_grow:
  assumes "index_inv s" "dom (sc_aliases s) \<subseteq> dom m" "dom m \<subseteq> range canonical_token"
    "ran m \<subseteq> insert k (fst ` set (sc_entries s))" "neg \<subseteq> dom m" "canonical_token k \<in> dom m"
    "me_debug_id e = k"
  shows "index_inv (s\<lparr>sc_aliases := m, sc_negative := neg, sc_entries := upsert k e (sc_entries s)\<rparr>)"
proof -
  have "case p of (l, x) \<Rightarrow> me_debug_id x = l \<and> canonical_token l \<in> dom m"
    if "p \<in> set (upsert k e (sc_entries s))" for p
  proof -
    from set_upsert_subset that have "p \<in> insert (k, e) (set (sc_entries s))" by (rule subsetD)
    then show ?thesis
    proof
      assume "p \<in> set (sc_entries s)"
      with assms(1) have "case p of (l, x) \<Rightarrow> me_debug_id x = l \<and> canonical_token l \<in> dom (sc_aliases s)"
        by (simp add: index_inv_def list_all_iff)
      with subsetD [OF assms(2)] show ?thesis by (simp add: case_prod_beta)
    qed (use assms(6,7) in simp)
  qed
  then have "list_all (\<lambda>(l, x). me_debug_id x = l \<and> canonical_token l \<in> dom m) (upsert k e (sc_entries s))"
    unfolding list_all_iff by (rule ballI)
  moreover have "distinct (map fst (upsert k e (sc_entries s)))"
    using assms(1) by (intro distinct_upsert) (simp add: index_inv_def)
  ultimately show ?thesis
    using assms(3-5) by (simp add: index_inv_def)
qed

lemma index_inv_insert:
  assumes "index_inv s"
  shows "index_inv (insert_unbounded L now m og s)"
proof -
  define f where "f = fold (\<lambda>a f. f(a \<mapsto> key_of m)) (aliases (parsed_identity m)) (sc_aliases s)"
  have f: "f t = (if t \<in> set (aliases (parsed_identity m)) then Some (key_of m) else sc_aliases s t)" for t
    by (simp add: f_def fold_aliases)
  have canonical: "t \<in> range canonical_token" if "t \<in> set (aliases (parsed_identity m))" for t
    using aliases_canonical [OF that] by (metis rangeI)
  have "index_inv (s\<lparr>sc_aliases := f, sc_negative := sc_negative s - {canonical_token (key_of m)},
      sc_entries := upsert (key_of m) (located_entry now m og) (sc_entries s)\<rparr>)"
  proof (rule index_inv_grow [OF assms])
    show "dom (sc_aliases s) \<subseteq> dom f" by (auto simp: f)
    show "dom f \<subseteq> range canonical_token"
    proof
      fix t assume "t \<in> dom f"
      then have "t \<in> set (aliases (parsed_identity m)) \<or> t \<in> dom (sc_aliases s)"
        by (auto simp: f split: if_splits)
      then show "t \<in> range canonical_token"
        using assms canonical unfolding index_inv_def by blast
    qed
    show "ran f \<subseteq> insert (key_of m) (fst ` set (sc_entries s))"
    proof
      fix d assume "d \<in> ran f"
      then obtain t where "f t = Some d" by (auto simp: ran_def)
      then have "d = key_of m \<or> d \<in> ran (sc_aliases s)"
        by (auto simp: f ran_def split: if_splits)
      then show "d \<in> insert (key_of m) (fst ` set (sc_entries s))"
        using assms by (auto simp: index_inv_def)
    qed
    show "sc_negative s - {canonical_token (key_of m)} \<subseteq> dom f"
    proof -
      have "sc_negative s \<subseteq> dom (sc_aliases s)" using assms by (simp add: index_inv_def)
      also have "dom (sc_aliases s) \<subseteq> dom f" by (auto simp: f)
      finally show ?thesis by blast
    qed
    show "canonical_token (key_of m) \<in> dom f" by (simp add: f domIff)
  qed simp
  then show ?thesis by (simp add: index_inv_def f_def [symmetric])
qed

lemma index_inv_rehydrate_entry: "index_inv s \<Longrightarrow> index_inv (rehydrate_entry e s)"
proof -
  assume inv: "index_inv s"
  define k where "k = me_debug_id e"
  define f where "f = (sc_aliases s)(canonical_token k \<mapsto> k)"
  define neg where "neg = (if me_miss e then insert (canonical_token k) (sc_negative s) else sc_negative s)"
  have "index_inv (s\<lparr>sc_aliases := f, sc_negative := neg, sc_entries := upsert k e (sc_entries s)\<rparr>)"
  proof (rule index_inv_grow [OF inv])
    show "ran f \<subseteq> insert k (fst ` set (sc_entries s))"
      using inv by (auto simp: f_def index_inv_def ran_def)
    show "neg \<subseteq> dom f" using inv by (auto simp: neg_def f_def index_inv_def)
    show "dom f \<subseteq> range canonical_token" using inv by (auto simp: f_def index_inv_def)
  qed (auto simp: f_def k_def)
  also have "s\<lparr>sc_aliases := f, sc_negative := neg, sc_entries := upsert k e (sc_entries s)\<rparr> =
      rehydrate_entry e s"
    by (simp add: rehydrate_entry_def Let_def f_def neg_def k_def)
  finally show ?thesis .
qed

lemma rehydrate_frame [simp]:
  "sc_resident (rehydrate m s) = sc_resident s"
  "sc_resident_bytes (rehydrate m s) = sc_resident_bytes s"
  "sc_max_bytes (rehydrate m s) = sc_max_bytes s"
  "sc_parse_count (rehydrate m s) = sc_parse_count s"
proof -
  have "sc_resident (fold rehydrate_entry es s) = sc_resident s \<and>
    sc_resident_bytes (fold rehydrate_entry es s) = sc_resident_bytes s \<and>
    sc_max_bytes (fold rehydrate_entry es s) = sc_max_bytes s \<and>
    sc_parse_count (fold rehydrate_entry es s) = sc_parse_count s" for es
    by (induction es arbitrary: s) (simp_all add: rehydrate_entry_def Let_def)
  then show "sc_resident (rehydrate m s) = sc_resident s"
    "sc_resident_bytes (rehydrate m s) = sc_resident_bytes s"
    "sc_max_bytes (rehydrate m s) = sc_max_bytes s"
    "sc_parse_count (rehydrate m s) = sc_parse_count s"
    by (simp_all add: rehydrate_def)
qed

lemma rehydrate_grows:
  "dom (sc_aliases s) \<subseteq> dom (sc_aliases (rehydrate m s))"
  "fst ` set (sc_entries s) \<subseteq> fst ` set (sc_entries (rehydrate m s))"
proof -
  have "dom (sc_aliases s) \<subseteq> dom (sc_aliases (fold rehydrate_entry es s)) \<and>
    fst ` set (sc_entries s) \<subseteq> fst ` set (sc_entries (fold rehydrate_entry es s))" for es
  proof (induction es arbitrary: s)
    case (Cons e es)
    have "dom (sc_aliases s) \<subseteq> dom (sc_aliases (rehydrate_entry e s))"
      "fst ` set (sc_entries s) \<subseteq> fst ` set (sc_entries (rehydrate_entry e s))"
      by (auto simp: rehydrate_entry_def Let_def)
    with Cons [of "rehydrate_entry e s"] show ?case
      unfolding fold_Cons comp_apply by (meson order.trans)
  qed simp
  then show "dom (sc_aliases s) \<subseteq> dom (sc_aliases (rehydrate m s))"
    "fst ` set (sc_entries s) \<subseteq> fst ` set (sc_entries (rehydrate m s))"
    by (simp_all add: rehydrate_def)
qed

lemma index_inv_rehydrate: "index_inv s \<Longrightarrow> index_inv (rehydrate m s)"
  unfolding rehydrate_def by (rule fold_invariant [where P = index_inv and Q = "\<lambda>_. True"])
    (simp_all add: index_inv_rehydrate_entry)

lemma record_miss_frame [simp]:
  "sc_resident (record_miss now t s) = sc_resident s"
  "sc_resident_bytes (record_miss now t s) = sc_resident_bytes s"
  "sc_max_bytes (record_miss now t s) = sc_max_bytes s"
  "sc_parse_count (record_miss now t s) = sc_parse_count s"
  "sc_negative (record_miss now t s) = insert (canonical_token t) (sc_negative s)"
  by (simp_all add: record_miss_def Let_def)

lemma index_inv_record_miss: "index_inv s \<Longrightarrow> index_inv (record_miss now t s)"
proof -
  assume inv: "index_inv s"
  define k where "k = canonical_token t"
  define f where "f = (case sc_aliases s k of Some _ \<Rightarrow> sc_aliases s | None \<Rightarrow> (sc_aliases s)(k \<mapsto> k))"
  define e where "e = \<lparr>me_debug_id = k, me_origin = None, me_format = None, me_arch = None,
    me_name = None, me_fetched_bytes = 0, me_rows_resolved = 0, me_last_used_epoch = now,
    me_miss = True\<rparr>"
  have rm: "record_miss now t s = s\<lparr>sc_aliases := f, sc_negative := insert k (sc_negative s),
      sc_entries := or_insert k e (sc_entries s)\<rparr>"
    by (simp add: record_miss_def Let_def f_def k_def [symmetric] e_def)
  have dom: "dom f = insert k (dom (sc_aliases s))" by (auto simp: f_def split: option.splits)
  have ran: "ran f \<subseteq> insert k (fst ` set (sc_entries s))"
    using inv by (auto simp: f_def index_inv_def ran_def split: option.splits if_splits)
  have canon: "dom f \<subseteq> range canonical_token"
    using inv unfolding dom by (simp add: index_inv_def k_def)
  have neg: "insert k (sc_negative s) \<subseteq> dom f"
    using inv unfolding dom index_inv_def by blast
  show ?thesis
  proof (cases "map_of (sc_entries s) k")
    case None
    then have "or_insert k e (sc_entries s) = upsert k e (sc_entries s)" by (simp add: or_insert_def)
    moreover have "index_inv (s\<lparr>sc_aliases := f, sc_negative := insert k (sc_negative s),
        sc_entries := upsert k e (sc_entries s)\<rparr>)"
      by (rule index_inv_grow [OF inv _ canon ran neg]) (simp_all add: dom e_def k_def subset_insertI)
    ultimately show ?thesis by (simp add: rm)
  next
    case (Some e0)
    then have same: "or_insert k e (sc_entries s) = sc_entries s" by (simp add: or_insert_def)
    have "k \<in> fst ` set (sc_entries s)" using Some by (force dest: map_of_SomeD)
    with ran have "ran f \<subseteq> fst ` set (sc_entries s)" by (simp add: insert_absorb)
    moreover have "list_all (\<lambda>(l, x). me_debug_id x = l \<and> canonical_token l \<in> dom f) (sc_entries s)"
      using inv unfolding dom index_inv_def by (auto simp: list_all_iff)
    ultimately show ?thesis
      using inv canon neg unfolding rm same by (simp add: index_inv_def)
  qed
qed

lemma record_miss_grows:
  "dom (sc_aliases s) \<subseteq> dom (sc_aliases (record_miss now t s))"
  "fst ` set (sc_entries s) \<subseteq> fst ` set (sc_entries (record_miss now t s))"
  by (auto simp: record_miss_def Let_def or_insert_def split: option.splits)

section \<open>One operation of the cache\<close>

datatype cache_op =
    DoRehydrate cache_manifest
  | DoExport "source_spec list"
  | DoRecordMiss u64 str
  | DoResolve u64 str u64 limits
  | DoFunctionName u64 str u64
  | DoInsert u64 parsed_module origin
  | DoEvict "str option"

fun cache_step :: "'c lru \<Rightarrow> crates \<Rightarrow> cache_op \<Rightarrow> 'c symbol_cache \<Rightarrow> 'c symbol_cache" where
  "cache_step L K (DoRehydrate m) s = rehydrate m s"
| "cache_step L K (DoExport sources) s = snd (to_manifest L sources s)"
| "cache_step L K (DoRecordMiss now t) s = record_miss now t s"
| "cache_step L K (DoResolve now t a lim) s = snd (cache_resolve L K now t a lim s)"
| "cache_step L K (DoFunctionName now t a) s = snd (cache_function_name L K now t a s)"
| "cache_step L K (DoInsert now m og) s = snd (cache_insert L now m og s)"
| "cache_step L K (DoEvict t) s = snd (cache_evict L t s)"

definition is_insert :: "cache_op \<Rightarrow> bool" where
  "is_insert oper = (case oper of DoInsert _ _ _ \<Rightarrow> True | _ \<Rightarrow> False)"

text \<open>The order in which a run only moves up: known tokens and entries stay known, and the
  configured budget stays.\<close>

definition knows_more :: "'c symbol_cache \<Rightarrow> 'c symbol_cache \<Rightarrow> bool" where
  "knows_more s t \<longleftrightarrow> dom (sc_aliases s) \<subseteq> dom (sc_aliases t) \<and>
     fst ` set (sc_entries s) \<subseteq> fst ` set (sc_entries t) \<and> sc_max_bytes t = sc_max_bytes s"

lemma knows_more_refl: "knows_more s s"
  unfolding knows_more_def by (intro conjI order.refl refl)

lemma knows_more_trans: "knows_more s t \<Longrightarrow> knows_more t u \<Longrightarrow> knows_more s u"
  unfolding knows_more_def
  by (elim conjE, intro conjI, erule (1) order.trans, erule (1) order.trans, simp only:)

lemma same_index_knows: "same_index s t \<Longrightarrow> knows_more s t"
  using same_index_keys [of s t] unfolding knows_more_def same_index_def
  by (metis list.set_map order.refl)

lemma knows_more_resident_ok: "knows_more s t \<Longrightarrow> resident_ok s p \<Longrightarrow> resident_ok t p"
  unfolding knows_more_def resident_ok_def by blast

context resident_lru
begin

lemma cache_inv_keep:
  assumes "cache_inv L s" "same_index s t"
    and "\<And>d r. (d, r) \<in> set (items t) \<Longrightarrow>
      \<exists>r0. (d, r0) \<in> set (items s) \<and> rs_module r = rs_module r0 \<and> rs_bytes r = rs_bytes r0"
  shows "cache_inv L t"
proof -
  have "resident_ok t p" if "p \<in> set (items t)" for p
  proof -
    obtain d r where p: "p = (d, r)" by (cases p)
    with assms(3) that obtain r0 where "(d, r0) \<in> set (items s)"
      "rs_module r = rs_module r0" "rs_bytes r = rs_bytes r0" by blast
    moreover from assms(1) this(1) have "resident_ok s (d, r0)"
      by (auto simp: cache_inv_def list_all_iff)
    ultimately have "resident_ok s p" unfolding resident_ok_def p fst_conv snd_conv by metis
    then show ?thesis by (simp add: same_index_resident_ok [OF assms(2)])
  qed
  moreover have "index_inv t" using assms(1,2) same_index_inv by (auto simp: cache_inv_def)
  ultimately show ?thesis by (simp add: cache_inv_def list_all_iff)
qed

lemma cache_inv_grow:
  assumes "cache_inv L s" "knows_more s t" "index_inv t" "sc_resident t = sc_resident s"
  shows "cache_inv L t"
  using assms knows_more_resident_ok [OF assms(2)] by (simp add: cache_inv_def list_all_iff)

lemma cache_inv_resolve: "cache_inv L s \<Longrightarrow> cache_inv L (snd (cache_resolve L K now t a lim s))"
  by (cases rule: cache_resolve_cases [of s t K now a lim], simp,
      rule cache_inv_keep) (auto dest: map_of_SomeD)

lemma cache_inv_function_name:
  "cache_inv L s \<Longrightarrow> cache_inv L (snd (cache_function_name L K now t a s))"
  by (cases rule: cache_function_name_cases [of s t K now a], simp,
      rule cache_inv_keep) (auto dest: map_of_SomeD)

lemma cache_inv_evict: "cache_inv L s \<Longrightarrow> cache_inv L (snd (cache_evict L t s))"
proof (cases t)
  case None
  assume "cache_inv L s"
  then show ?thesis
    unfolding None by (rule cache_inv_keep) (simp_all add: cache_evict_none)
next
  case (Some u)
  assume "cache_inv L s"
  then show ?thesis
    unfolding Some
    by (cases rule: cache_evict_some_cases [of s u], simp, rule cache_inv_keep) auto
qed

lemma cache_inv_export: "cache_inv L s \<Longrightarrow> cache_inv L (snd (to_manifest L sources s))"
  by (rule cache_inv_keep) (auto simp: to_manifest_def Let_def)

lemma cache_inv_insert: "cache_inv L s \<Longrightarrow> cache_inv L (snd (cache_insert L now m og s))"
proof (rule cache_inv_keep [OF _ cache_insert_index])
  assume inv: "cache_inv L s"
  have "knows_more s (insert_unbounded L now m og s)"
    by (auto simp: knows_more_def fold_aliases)
  then have "list_all (resident_ok (insert_unbounded L now m og s)) (items s)"
    using inv by (auto simp: cache_inv_def list_all_iff intro: knows_more_resident_ok)
  then have "list_all (resident_ok (insert_unbounded L now m og s))
      (items (insert_unbounded L now m og s))"
    by (auto simp: insert_unbounded_items list_all_iff drop_key_def resident_ok_new
        dest: in_set_butlastD)
  with inv index_inv_insert show "cache_inv L (insert_unbounded L now m og s)"
    by (auto simp: cache_inv_def)
next
  fix d r assume "(d, r) \<in> set (items (snd (cache_insert L now m og s)))"
  moreover have "set (items (snd (cache_insert L now m og s))) \<subseteq>
      set (items (insert_unbounded L now m og s))"
  proof -
    have "items (insert_unbounded L now m og s) \<noteq> []" by (simp add: insert_unbounded_items)
    from evict_to_budget_prefix [OF this] obtain n where
      "items (snd (cache_insert L now m og s)) = take n (items (insert_unbounded L now m og s))"
      by (auto simp: cache_insert_def)
    then show ?thesis using set_take_subset by metis
  qed
  ultimately show "\<exists>r0. (d, r0) \<in> set (items (insert_unbounded L now m og s)) \<and>
      rs_module r = rs_module r0 \<and> rs_bytes r = rs_bytes r0"
    by blast
qed

lemma cache_step_inv: "cache_inv L s \<Longrightarrow> cache_inv L (cache_step L K oper s)"
proof (cases oper)
  case (DoRehydrate m)
  assume inv: "cache_inv L s"
  have "knows_more s (rehydrate m s)" using rehydrate_grows [of s m] by (simp add: knows_more_def)
  with inv DoRehydrate show ?thesis
    using cache_inv_grow [OF inv, of "rehydrate m s"] by (simp add: cache_inv_def index_inv_rehydrate)
next
  case (DoRecordMiss now t)
  assume inv: "cache_inv L s"
  have "knows_more s (record_miss now t s)"
    using record_miss_grows [of s now t] by (simp add: knows_more_def)
  with inv DoRecordMiss show ?thesis
    using cache_inv_grow [OF inv, of "record_miss now t s"]
    by (simp add: cache_inv_def index_inv_record_miss)
qed (simp_all add: cache_inv_resolve cache_inv_function_name cache_inv_evict cache_inv_export
    cache_inv_insert)

lemma cache_step_knows: "knows_more s (cache_step L K oper s)"
proof (cases oper)
  case (DoRehydrate m)
  then show ?thesis using rehydrate_grows [of s m] by (simp add: knows_more_def)
next
  case (DoExport sources)
  then show ?thesis by (simp add: to_manifest_def Let_def same_index_knows)
next
  case (DoRecordMiss now t)
  then show ?thesis using record_miss_grows [of s now t] by (simp add: knows_more_def)
next
  case (DoResolve now t a lim)
  show ?thesis unfolding DoResolve
    by (cases rule: cache_resolve_cases [of s t K now a lim]) (simp_all add: same_index_knows)
next
  case (DoFunctionName now t a)
  show ?thesis unfolding DoFunctionName
    by (cases rule: cache_function_name_cases [of s t K now a]) (simp_all add: same_index_knows)
next
  case (DoInsert now m og)
  have "knows_more s (insert_unbounded L now m og s)"
    by (auto simp: knows_more_def fold_aliases)
  moreover have "knows_more (insert_unbounded L now m og s) (snd (cache_insert L now m og s))"
    by (intro same_index_knows cache_insert_index)
  ultimately show ?thesis unfolding DoInsert cache_step.simps by (rule knows_more_trans)
next
  case (DoEvict t)
  show ?thesis
  proof (cases t)
    case None
    with DoEvict show ?thesis by (simp add: same_index_knows cache_evict_none)
  next
    case (Some u)
    show ?thesis unfolding DoEvict Some
      by (cases rule: cache_evict_some_cases [of s u]) (simp_all add: same_index_knows)
  qed
qed

lemma cache_step_parses:
  "sc_parse_count (cache_step L K oper s) = sc_parse_count s + (if is_insert oper then 1 else 0)"
proof (cases oper)
  case (DoResolve now t a lim)
  show ?thesis unfolding DoResolve
    by (cases rule: cache_resolve_cases [of s t K now a lim]) (simp_all add: is_insert_def)
next
  case (DoFunctionName now t a)
  show ?thesis unfolding DoFunctionName
    by (cases rule: cache_function_name_cases [of s t K now a]) (simp_all add: is_insert_def)
next
  case (DoInsert now m og)
  then show ?thesis
    using cache_insert_index [of now m og s] by (simp add: same_index_def is_insert_def)
next
  case (DoEvict t)
  then show ?thesis
  proof (cases t)
    case None
    with DoEvict cache_evict_none(2) [of s] show ?thesis
      by (simp add: same_index_def is_insert_def)
  next
    case (Some u)
    show ?thesis unfolding DoEvict Some
      by (cases rule: cache_evict_some_cases [of s u]) (simp_all add: is_insert_def)
  qed
next
  case (DoExport sources)
  then show ?thesis
    using sync_entries_frame(3) [of s] by (simp add: to_manifest_def Let_def same_index_def is_insert_def)
qed (simp_all add: is_insert_def)

end

section \<open>The cache as a machine\<close>

sublocale resident_lru \<subseteq> cache: monotone_machine "cache_step L K" "cache_inv L" knows_more for K
  by unfold_locales
    (erule cache_step_inv, rule knows_more_refl, erule (1) knows_more_trans, rule cache_step_knows)

context resident_lru
begin

lemma cache_run_inv: "cache_inv L s \<Longrightarrow> cache_inv L (fold (cache_step L K) ops s)"
  by (rule cache.run_inv)

lemma cache_run_knows: "cache_inv L s \<Longrightarrow> knows_more s (fold (cache_step L K) ops s)"
  by (rule cache.run_le)

end

interpretation ref_cache: resident_lru list_lru
  by unfold_locales

lemma cache_new_inv:
  assumes "lru_laws L"
  shows "cache_inv L (cache_new L max_bytes max_modules)"
  using lru_laws.new [OF assms, of "max max_modules 1"]
  by (simp add: cache_new_def cache_inv_def index_inv_def)

end
