(* ===== verification/Cache_Spec.thy ===== *)
theory Cache_Spec
  imports Cache_Laws
begin

text \<open>
  The cache as its clients see it: a partial map from tokens to resident modules. Each
  operation of \<^verbatim>\<open>SymbolCache\<close> is shown to act on this map as its documentation says; the
  properties of the component close the theory.
\<close>

definition resident_module :: "'c lru \<Rightarrow> 'c symbol_cache \<Rightarrow> str \<Rightarrow> parsed_module option" where
  "resident_module L s token =
     (case resolve_debug_id s token of
        None \<Rightarrow> None
      | Some dbg \<Rightarrow> map_option rs_module (map_of (lru_iter L (sc_resident s)) dbg))"

text \<open>No module is gained or exchanged, only lost.\<close>

definition only_loses :: "'c lru \<Rightarrow> 'c symbol_cache \<Rightarrow> 'c symbol_cache \<Rightarrow> bool" where
  "only_loses L s s' \<longleftrightarrow> resident_module L s' \<subseteq>\<^sub>m resident_module L s"

lemma resolve_debug_id_frame [simp]:
  "resolve_debug_id (s\<lparr>sc_resident := c\<rparr>) = resolve_debug_id s"
  "resolve_debug_id (s\<lparr>sc_resident_bytes := b\<rparr>) = resolve_debug_id s"
  "resolve_debug_id (fold_back d r s) = resolve_debug_id s"
  by (simp_all add: resolve_debug_id_def fun_eq_iff)

lemma same_index_resolve: "same_index s t \<Longrightarrow> resolve_debug_id t = resolve_debug_id s"
  by (simp add: same_index_def resolve_debug_id_def fun_eq_iff)

lemma resident_module_canonical: "resident_module L s (canonical_token t) = resident_module L s t"
  by (rule tok.through_norm [where g = "\<lambda>c. case sc_aliases s c of
        None \<Rightarrow> None
      | Some dbg \<Rightarrow> map_option rs_module (map_of (lru_iter L (sc_resident s)) dbg)"])
    (simp only: resident_module_def resolve_debug_id_def)

lemma resolve_debug_id_insert:
  "resolve_debug_id (insert_unbounded L now m og s) t =
     (if canonical_token t \<in> set (aliases (parsed_identity m)) then Some (key_of m)
      else resolve_debug_id s t)"
  by (simp add: resolve_debug_id_def fold_aliases)

context resident_lru
begin

lemma is_resident_module: "is_resident L s t \<longleftrightarrow> resident_module L s t \<noteq> None"
  by (auto simp: is_resident_iff resident_module_def split: option.splits)

lemma promoted_module:
  assumes "map_of (items s) d = Some r" "lru_iter L c = (d, touch now r) # drop_key d (items s)"
  shows "resident_module L (s\<lparr>sc_resident := c\<rparr>) = resident_module L s"
  using assms by (auto simp: resident_module_def fun_eq_iff split: option.splits)

lemma cache_resolve_spec:
  "fst (cache_resolve L K now t a lim s) =
     map_option (\<lambda>m. parsed_resolve K m a lim) (resident_module L s t)"
  "resident_module L (snd (cache_resolve L K now t a lim s)) = resident_module L s"
proof -
  have "fst (cache_resolve L K now t a lim s) =
      map_option (\<lambda>m. parsed_resolve K m a lim) (resident_module L s t) \<and>
    resident_module L (snd (cache_resolve L K now t a lim s)) = resident_module L s"
  proof (cases rule: cache_resolve_cases [of s t K now a lim])
    case absent
    then show ?thesis by (simp add: is_resident_module)
  next
    case (present d r c)
    with promoted_module [OF present(2,4)] show ?thesis by (simp add: resident_module_def)
  qed
  then show "fst (cache_resolve L K now t a lim s) =
      map_option (\<lambda>m. parsed_resolve K m a lim) (resident_module L s t)"
    "resident_module L (snd (cache_resolve L K now t a lim s)) = resident_module L s" by simp_all
qed

lemma cache_function_name_spec:
  "fst (cache_function_name L K now t a s) =
     map_option (\<lambda>m. parsed_function_name K m a) (resident_module L s t)"
  "resident_module L (snd (cache_function_name L K now t a s)) = resident_module L s"
proof -
  have "fst (cache_function_name L K now t a s) =
      map_option (\<lambda>m. parsed_function_name K m a) (resident_module L s t) \<and>
    resident_module L (snd (cache_function_name L K now t a s)) = resident_module L s"
  proof (cases rule: cache_function_name_cases [of s t K now a])
    case absent
    then show ?thesis by (simp add: is_resident_module)
  next
    case (present d r c)
    with promoted_module [OF present(2,4)] show ?thesis by (simp add: resident_module_def)
  qed
  then show "fst (cache_function_name L K now t a s) =
      map_option (\<lambda>m. parsed_function_name K m a) (resident_module L s t)"
    "resident_module L (snd (cache_function_name L K now t a s)) = resident_module L s" by simp_all
qed

lemma cache_insert_module:
  "resident_module L (snd (cache_insert L now m og s)) t = Some m"
  if "canonical_token t \<in> set (aliases (parsed_identity m))"
proof -
  obtain rest where "items (snd (cache_insert L now m og s)) = (key_of m, new_resident now m) # rest"
    using cache_insert_items by blast
  with that show ?thesis
    by (simp add: resident_module_def same_index_resolve [OF cache_insert_index]
        resolve_debug_id_insert new_resident_def)
qed

lemma cache_insert_others:
  assumes "canonical_token t \<notin> set (aliases (parsed_identity m))"
    and "resolve_debug_id s t \<noteq> Some (key_of m)"
  shows "resident_module L (snd (cache_insert L now m og s)) t \<in> {None, resident_module L s t}"
proof (cases "resolve_debug_id s t")
  case None
  with assms show ?thesis
    by (simp add: resident_module_def same_index_resolve [OF cache_insert_index]
        resolve_debug_id_insert)
next
  case (Some d)
  with assms have d: "d \<noteq> key_of m"
    "resolve_debug_id (snd (cache_insert L now m og s)) t = Some d"
    by (simp_all add: same_index_resolve [OF cache_insert_index] resolve_debug_id_insert)
  obtain rest where rest: "items (snd (cache_insert L now m og s)) = (key_of m, new_resident now m) # rest"
      "\<forall>p \<in> set rest. p \<in> set (items s)"
    using cache_insert_items by blast
  have "map_of (items s) d = Some r" if "map_of (items (snd (cache_insert L now m og s))) d = Some r" for r
  proof -
    from that rest(1) d(1) have "map_of rest d = Some r" by simp
    then have "(d, r) \<in> set rest" by (rule map_of_SomeD)
    then have "(d, r) \<in> set (items s)" using rest(2) by blast
    with items_distinct show ?thesis by (rule map_of_is_SomeI)
  qed
  with Some d(2) show ?thesis
    by (cases "map_of (items (snd (cache_insert L now m og s))) d")
      (auto simp: resident_module_def)
qed

lemma cache_evict_token:
  "resident_module L (snd (cache_evict L (Some t) s)) t = None"
  "only_loses L s (snd (cache_evict L (Some t) s))"
proof -
  have "resident_module L (snd (cache_evict L (Some t) s)) t = None \<and>
    only_loses L s (snd (cache_evict L (Some t) s))"
  proof (cases rule: cache_evict_some_cases [of s t])
    case absent
    then show ?thesis by (simp add: is_resident_module only_loses_def)
  next
    case (present d r c)
    then show ?thesis
      by (auto simp: resident_module_def only_loses_def map_le_def split: option.splits if_splits)
  qed
  then show "resident_module L (snd (cache_evict L (Some t) s)) t = None"
    "only_loses L s (snd (cache_evict L (Some t) s))" by simp_all
qed

lemma cache_evict_everything: "resident_module L (snd (cache_evict L None s)) = Map.empty"
  by (simp add: resident_module_def cache_evict_none fun_eq_iff split: option.splits)

lemma export_module: "resident_module L (snd (to_manifest L sources s)) = resident_module L s"
  by (simp add: to_manifest_def Let_def resident_module_def fun_eq_iff
      same_index_resolve [OF sync_entries_frame(3)] cong: option.case_cong)

lemma record_miss_module:
  assumes "cache_inv L s"
  shows "resident_module L (record_miss now t s) = resident_module L s"
proof
  fix u
  have absent: "map_of (items s) (canonical_token u) = None"
    if "sc_aliases s (canonical_token u) = None"
  proof (rule ccontr)
    assume "map_of (items s) (canonical_token u) \<noteq> None"
    then obtain r where "(canonical_token u, r) \<in> set (items s)" by (auto dest: map_of_SomeD)
    with assms have ok: "resident_ok s (canonical_token u, r)"
      by (auto simp: cache_inv_def list_all_iff)
    then have "key_of (rs_module r) = canonical_token u" by (simp add: resident_ok_def)
    moreover have "set (aliases (parsed_identity (rs_module r))) \<subseteq> dom (sc_aliases s)"
      using ok by (simp add: resident_ok_def)
    from this aliases_debug_id have "canonical_token (key_of (rs_module r)) \<in> dom (sc_aliases s)"
      by (rule subsetD)
    ultimately show False using that by auto
  qed
  show "resident_module L (record_miss now t s) u = resident_module L s u"
    using absent
    by (auto simp: resident_module_def resolve_debug_id_def record_miss_def Let_def
        split: option.splits)
qed

end

end
