(* ===== verification/Paths.thy ===== *)
theory Paths
  imports Rust_Prelude
begin

text \<open>
  The operations of \<^verbatim>\<open>std::path\<close> that the sources and \<^verbatim>\<open>module_info\<close> use, on Unix: a path
  is the list of its bytes, which need not be UTF-8.
\<close>

section \<open>Joining and splitting\<close>

text \<open>\<^verbatim>\<open>DirEntry::path\<close>, that is \<^verbatim>\<open>Path::join\<close> with one relative name.\<close>

definition path_join :: "str \<Rightarrow> str \<Rightarrow> str" where
  "path_join dir name =
     (if dir = [] \<or> last dir = CHR ''/'' then dir @ name else dir @ CHR ''/'' # name)"

text \<open>
  \<^verbatim>\<open>Path::file_name\<close> on Unix: the last component, when it is a normal one. Empty and \<open>.\<close>
  components are skipped by the parser of paths.
\<close>

definition file_name :: "str \<Rightarrow> str option" where
  "file_name path =
     (case rev (filter (\<lambda>c. c \<noteq> [] \<and> c \<noteq> ''.'') (split_on (CHR ''/'') path)) of
        [] \<Rightarrow> None
      | c # _ \<Rightarrow> if c = ''..'' then None else Some c)"

section \<open>Lossy decoding\<close>

text \<open>
  \<^verbatim>\<open>to_string_lossy\<close>: every maximal prefix of an ill-formed UTF-8 sequence becomes one
  U+FFFD. \<open>utf8_step\<close> reads at one position: whether a character is there, and how many
  bytes it (or the ill-formed prefix) takes.
\<close>

definition utf8_width :: "nat \<Rightarrow> nat" where
  "utf8_width n =
     (if n < 128 then 1 else if 194 \<le> n \<and> n \<le> 223 then 2 else if 224 \<le> n \<and> n \<le> 239 then 3
      else if 240 \<le> n \<and> n \<le> 244 then 4 else 0)"

definition utf8_cont :: "nat \<Rightarrow> bool" where
  "utf8_cont b \<longleftrightarrow> 128 \<le> b \<and> b \<le> 191"

definition utf8_second :: "nat \<Rightarrow> nat \<Rightarrow> bool" where
  "utf8_second n b \<longleftrightarrow> utf8_cont b \<and>
     (n = 224 \<longrightarrow> 160 \<le> b) \<and> (n = 237 \<longrightarrow> b \<le> 159) \<and> (n = 240 \<longrightarrow> 144 \<le> b) \<and> (n = 244 \<longrightarrow> b \<le> 143)"

definition utf8_step :: "char \<Rightarrow> str \<Rightarrow> bool \<times> nat" where
  "utf8_step c cs =
     (let n = of_char c; w = utf8_width n;
          b = (\<lambda>i. if i < length cs then of_char (cs ! i) else 0) in
      if w = 1 then (True, 1)
      else if w = 0 \<or> \<not> utf8_second n (b 0) then (False, 1)
      else if w = 2 then (True, 2)
      else if \<not> utf8_cont (b 1) then (False, 2)
      else if w = 3 then (True, 3)
      else if \<not> utf8_cont (b 2) then (False, 3)
      else (True, 4))"

function utf8_lossy :: "str \<Rightarrow> str" where
  "utf8_lossy [] = []"
| "utf8_lossy (c # cs) =
     (case utf8_step c cs of (ok, k) \<Rightarrow>
        (if ok then take k (c # cs) else map char_of [239, 191, 189 :: nat])
        @ utf8_lossy (drop (k - 1) cs))"
  by pat_completeness auto
termination
  by (relation "measure length") auto

definition is_ascii :: "str \<Rightarrow> bool" where
  "is_ascii s \<longleftrightarrow> list_all (\<lambda>c. (of_char c :: nat) < 128) s"

lemma utf8_lossy_ascii [ascii_simps]: "is_ascii s \<Longrightarrow> utf8_lossy s = s"
  by (induction s) (simp_all add: is_ascii_def utf8_step_def utf8_width_def)

lemma file_name_plain:
  "CHR ''/'' \<notin> set name \<Longrightarrow> name \<notin> {[], ''.'', ''..''} \<Longrightarrow> file_name (path_join dir name) = Some name"
proof -
  assume name: "CHR ''/'' \<notin> set name" "name \<notin> {[], ''.'', ''..''}"
  have slash: "split_on (CHR ''/'') (p @ CHR ''/'' # name) = split_on (CHR ''/'') p @ [name]" for p
  proof (induction p)
    case (Cons c p)
    then show ?case
      by (cases "split_on (CHR ''/'') p") (auto simp: split_on_single [OF name(1)])
  qed (simp add: split_on_single [OF name(1)])
  show ?thesis
  proof (cases "dir = []")
    case True
    with name show ?thesis by (simp add: path_join_def file_name_def split_on_single)
  next
    case False
    show ?thesis
    proof (cases "last dir = CHR ''/''")
      case True
      with False have "dir = butlast dir @ [CHR ''/'']" by (metis append_butlast_last_id)
      then have "path_join dir name = butlast dir @ CHR ''/'' # name"
        using True by (metis append.assoc append_Cons append_Nil path_join_def)
      with name show ?thesis by (simp add: file_name_def slash)
    qed (use name False in \<open>simp add: path_join_def file_name_def slash\<close>)
  qed
qed

end
