(* ===== verification/Local_Sources.thy ===== *)
theory Local_Sources
  imports Module_Base Paths
begin

text \<open>
  \<^verbatim>\<open>crates/symbols-core/src/source/local.rs\<close>: indexing a directory tree or a glob by
  debug-id. What the operating system and the \<^verbatim>\<open>glob\<close> crate answer is the record \<open>world\<close>,
  an argument of every operation that asks. A path is the list of its bytes.
\<close>

section \<open>What the file system answers\<close>

text \<open>
  A directory tree as a walk that does not follow links sees it, finite because the file
  system is: \<^verbatim>\<open>read_dir\<close> fails (then \<^verbatim>\<open>is_file\<close> is asked) or lists entries, and an entry is an
  error, or has a name and a file type (an error, a directory, a regular file, or neither).
\<close>

datatype dir_tree = Unreadable bool | Listing "dir_entry list"
and dir_entry =
    BadEntry
  | UntypedEntry str
  | SubDir str dir_tree
  | RegularFile str
  | SpecialEntry str

record world =
  w_tree :: "str \<Rightarrow> dir_tree"
  w_mmap :: "str \<Rightarrow> bytes option"          \<comment> \<open>\<^verbatim>\<open>File::open\<close> and \<^verbatim>\<open>Mmap::map\<close>\<close>
  w_glob :: "str \<Rightarrow> str option list option"  \<comment> \<open>\<^verbatim>\<open>glob::glob\<close>: a bad pattern, or the matches\<close>
  w_is_dir :: "str \<Rightarrow> bool"
  w_read :: "str \<Rightarrow> str + bytes"           \<comment> \<open>\<^verbatim>\<open>std::fs::read\<close>\<close>

section \<open>Indexing\<close>

record indexed =
  ix_aliases :: "str list"
  ix_path :: str

definition aliases_of :: "world \<Rightarrow> crates \<Rightarrow> str \<Rightarrow> indexed option outcome" where
  "aliases_of W K path =
     (case w_mmap W path of
        None \<Rightarrow> Returned None
      | Some data \<Rightarrow> obind (probe_identity K data) (\<lambda>r. Returned (case r of
            Inl _ \<Rightarrow> None
          | Inr i \<Rightarrow> Some \<lparr>ix_aliases = aliases i, ix_path = path\<rparr>)))"

definition push_some :: "'a option \<Rightarrow> 'a list \<Rightarrow> 'a list" where
  "push_some x out = (case x of Some y \<Rightarrow> out @ [y] | None \<Rightarrow> out)"

text \<open>
  The loop over the entries of one directory: the stack, the counter and the result so far;
  the flag says that the loop returned from the function.
\<close>

fun index_entries ::
  "world \<Rightarrow> crates \<Rightarrow> nat \<Rightarrow> str \<Rightarrow> dir_entry list \<Rightarrow> (str \<times> dir_tree) list \<Rightarrow> nat \<Rightarrow> indexed list
     \<Rightarrow> (bool \<times> (str \<times> dir_tree) list \<times> nat \<times> indexed list) outcome" where
  "index_entries W K max_files dir [] stack visited out = Returned (False, stack, visited, out)"
| "index_entries W K max_files dir (e # es) stack visited out =
     (case e of
        SubDir name t \<Rightarrow>
          index_entries W K max_files dir es ((path_join dir name, t) # stack) visited out
      | RegularFile name \<Rightarrow>
          (if visited + 1 > max_files then Returned (True, stack, visited + 1, out)
           else obind (aliases_of W K (path_join dir name)) (\<lambda>ix.
             index_entries W K max_files dir es stack (visited + 1) (push_some ix out)))
      | _ \<Rightarrow> index_entries W K max_files dir es stack visited out)"

lemma index_entries_stack:
  "index_entries W K n dir es stack visited out = Returned (b, stack', visited', out') \<Longrightarrow>
     (\<Sum>p\<leftarrow>stack'. Suc (size (snd p))) \<le> (\<Sum>p\<leftarrow>stack. Suc (size (snd p))) + size_list size es"
proof (induction es arbitrary: stack visited out)
  case (Cons e es)
  show ?case
  proof (cases e)
    case (SubDir name t)
    with Cons.IH [of "(path_join dir name, t) # stack"] Cons.prems show ?thesis by fastforce
  next
    case (RegularFile name)
    with Cons.prems show ?thesis
      by (fastforce simp: outcome_simps split: if_splits dest: Cons.IH)
  qed (use Cons in \<open>fastforce+\<close>)
qed simp

text \<open>The walk: a stack of directories, the last one pushed is read first.\<close>

function index_walk ::
  "world \<Rightarrow> crates \<Rightarrow> nat \<Rightarrow> (str \<times> dir_tree) list \<Rightarrow> nat \<Rightarrow> indexed list \<Rightarrow> indexed list outcome" where
  "index_walk W K max_files [] visited out = Returned out"
| "index_walk W K max_files ((dir, t) # stack) visited out =
     (case t of
        Unreadable is_file \<Rightarrow>
          (if is_file
           then (case aliases_of W K dir of
                   Panicked \<Rightarrow> Panicked
                 | Returned ix \<Rightarrow> index_walk W K max_files stack visited (push_some ix out))
           else index_walk W K max_files stack visited out)
      | Listing es \<Rightarrow>
          (case index_entries W K max_files dir es stack visited out of
             Panicked \<Rightarrow> Panicked
           | Returned (stop, stack', visited', out') \<Rightarrow>
               if stop then Returned out' else index_walk W K max_files stack' visited' out'))"
  by pat_completeness auto
termination
  by (relation "measure (\<lambda>(W, K, n, stack, v, out). \<Sum>p\<leftarrow>stack. Suc (size (snd p)))")
    (auto dest!: index_entries_stack)

definition index_dir :: "world \<Rightarrow> crates \<Rightarrow> str \<Rightarrow> nat \<Rightarrow> indexed list outcome" where
  "index_dir W K root max_files = index_walk W K max_files [(root, w_tree W root)] 0 []"

text \<open>
  \<^verbatim>\<open>index_glob\<close>: the loop over the matches of one expanded pattern, and the loop over the
  patterns.
\<close>

fun index_matches ::
  "world \<Rightarrow> crates \<Rightarrow> nat \<Rightarrow> str option list \<Rightarrow> nat \<Rightarrow> indexed list
     \<Rightarrow> (bool \<times> nat \<times> indexed list) outcome" where
  "index_matches W K max_files [] visited out = Returned (False, visited, out)"
| "index_matches W K max_files (None # ms) visited out = index_matches W K max_files ms visited out"
| "index_matches W K max_files (Some entry # ms) visited out =
     (if w_is_dir W entry then index_matches W K max_files ms visited out
      else if visited + 1 > max_files then Returned (True, visited + 1, out)
      else obind (aliases_of W K entry) (\<lambda>ix.
        index_matches W K max_files ms (visited + 1) (push_some ix out)))"

fun index_patterns ::
  "world \<Rightarrow> crates \<Rightarrow> nat \<Rightarrow> str list \<Rightarrow> nat \<Rightarrow> indexed list \<Rightarrow> indexed list outcome" where
  "index_patterns W K max_files [] visited out = Returned out"
| "index_patterns W K max_files (expanded # ps) visited out =
     (case w_glob W expanded of
        None \<Rightarrow> index_patterns W K max_files ps visited out
      | Some ms \<Rightarrow> obind (index_matches W K max_files ms visited out) (\<lambda>(stop, visited', out').
          if stop then Returned out' else index_patterns W K max_files ps visited' out'))"

text \<open>
  The body of the inner loop of \<^verbatim>\<open>expand_braces\<close>: the text up to the brace that closes the
  group, and what is left of the pattern after it.
\<close>

fun take_group :: "nat \<Rightarrow> str \<Rightarrow> str \<times> str" where
  "take_group depth [] = ([], [])"
| "take_group depth (gc # cs) =
     (if gc = CHR 0x7B then (let (group, rest) = take_group (depth + 1) cs in (gc # group, rest))
      else if gc = CHR 0x7D then
        (if depth - 1 = 0 then ([], cs)
         else (let (group, rest) = take_group (depth - 1) cs in (gc # group, rest)))
      else (let (group, rest) = take_group depth cs in (gc # group, rest)))"

lemma take_group_rest: "length (snd (take_group depth cs)) \<le> length cs"
  by (induction depth cs rule: take_group.induct) (auto simp: Let_def case_prod_beta)

function expand_from :: "str list \<Rightarrow> str \<Rightarrow> str list" where
  "expand_from results [] = results"
| "expand_from results (c # cs) =
     (if c = CHR 0x7B then
        let (group, rest) = take_group 1 cs;
            alts = split_on (CHR '','') group
        in expand_from (concat (map (\<lambda>prefix. map (\<lambda>alt. prefix @ alt) alts) results)) rest
      else expand_from (map (\<lambda>r. r @ [c]) results) cs)"
  by pat_completeness auto
termination
proof (relation "measure (\<lambda>(results, cs). length cs)")
  fix results :: "str list" and c :: char and cs group rest :: str and x y
  assume "x = take_group 1 cs" "(group, rest) = x"
  then show "((concat (map (\<lambda>prefix. map (\<lambda>alt. prefix @ alt) y) results), rest), results, c # cs)
      \<in> measure (\<lambda>(results, cs). length cs)"
    using take_group_rest [of 1 cs] by (metis case_prod_conv in_measure le_imp_less_Suc length_Cons snd_conv)
qed auto

definition expand_braces :: "str \<Rightarrow> str list" where
  "expand_braces pattern = expand_from [[]] pattern"

definition index_glob :: "world \<Rightarrow> crates \<Rightarrow> str \<Rightarrow> nat \<Rightarrow> indexed list outcome" where
  "index_glob W K pattern max_files = index_patterns W K max_files (expand_braces pattern) 0 []"

section \<open>Brace expansion\<close>

lemma expand_from_append:
  "expand_from rs s = concat (map (\<lambda>r. map (\<lambda>e. r @ e) (expand_from [[]] s)) rs)"
proof (induction "length s" arbitrary: rs s rule: less_induct)
  case less
  show ?case
  proof (cases s)
    case Nil
    then show ?thesis by simp
  next
    case (Cons c cs)
    show ?thesis
    proof (cases "c = CHR 0x7B")
      case False
      have l: "length cs < length s" by (simp add: Cons)
      have "expand_from rs s = expand_from (map (\<lambda>r. r @ [c]) rs) cs" using False Cons by simp
      also have "\<dots> = concat (map (\<lambda>r. map (\<lambda>e. r @ c # e) (expand_from [[]] cs)) rs)"
      proof -
        have "(@) (x @ [c]) = (\<lambda>e. x @ c # e)" for x by auto
        then show ?thesis by (subst less [OF l]) (simp add: comp_def)
      qed
      also have "\<dots> = concat (map (\<lambda>r. map (\<lambda>e. r @ e) (expand_from [[]] s)) rs)"
        using False Cons less [OF l, of "[[c]]"] by (simp add: comp_def)
      finally show ?thesis .
    next
      case True
      obtain g rest where g: "take_group 1 cs = (g, rest)" by (cases "take_group 1 cs")
      with take_group_rest [of 1 cs] have l: "length rest < length s" by (simp add: Cons)
      define alts where "alts = split_on (CHR '','') g"
      have step: "expand_from xs s = expand_from (concat (map (\<lambda>p. map (\<lambda>a. p @ a) alts) xs)) rest" for xs
        using True Cons g by (simp add: alts_def)
      define E where "E = expand_from [[]] rest"
      have E: "expand_from xs rest = concat (map (\<lambda>r. map (\<lambda>e. r @ e) E) xs)" for xs
        unfolding E_def by (rule less [OF l])
      have "expand_from [[]] s = concat (map (\<lambda>a. map (\<lambda>e. a @ e) E) alts)"
        unfolding step [of "[[]]"] E by (simp add: comp_def)
      moreover have "concat (map (\<lambda>r. map (\<lambda>e. r @ e) E) (concat (map (\<lambda>p. map (\<lambda>a. p @ a) alts) rs)))
          = concat (map (\<lambda>p. map (\<lambda>x. p @ x) (concat (map (\<lambda>a. map (\<lambda>e. a @ e) E) alts))) rs)"
      proof -
        have "(@) (p @ a) = (\<lambda>x. p @ a @ x)" for p a :: str by auto
        then show ?thesis by (induction rs) (simp_all add: map_concat comp_def)
      qed
      ultimately show ?thesis unfolding step [of rs] E by simp
    qed
  qed
qed

lemma expand_from_literal:
  "CHR 0x7B \<notin> set p \<Longrightarrow> expand_from rs (p @ s) = expand_from (map (\<lambda>r. r @ p) rs) s"
  by (induction p arbitrary: rs) (auto simp: comp_def)

lemma take_group_flat:
  "CHR 0x7B \<notin> set g \<Longrightarrow> CHR 0x7D \<notin> set g \<Longrightarrow> take_group 1 (g @ CHR 0x7D # rest) = (g, rest)"
  by (induction g) auto

lemma braces_join:
  "b \<noteq> d \<Longrightarrow> \<forall>a \<in> set alts. b \<notin> set a \<Longrightarrow> b \<notin> set (join_with d alts)"
  by (induction d alts rule: join_with.induct) auto

lemma expand_braces_literal: "CHR 0x7B \<notin> set p \<Longrightarrow> expand_braces p = [p]"
  using expand_from_literal [of p "[[]]" "[]"] by (simp add: expand_braces_def)

lemma expand_braces_nonempty: "expand_braces p \<noteq> []"
proof -
  have "rs \<noteq> [] \<Longrightarrow> expand_from rs s \<noteq> []" for rs s
  proof (induction rs s rule: expand_from.induct)
    case (2 results c cs)
    then show ?case by (auto simp: Let_def case_prod_beta)
  qed simp
  then show ?thesis by (simp add: expand_braces_def)
qed

section \<open>What a directory walk finds\<close>

text \<open>
  The regular files of a directory in the order of its entries, its subdirectories in the
  order in which the stack gives them back, and the files of the whole tree.
\<close>

fun own_files :: "str \<Rightarrow> dir_entry list \<Rightarrow> str list" where
  "own_files dir [] = []"
| "own_files dir (RegularFile name # es) = path_join dir name # own_files dir es"
| "own_files dir (_ # es) = own_files dir es"

fun sub_dirs :: "str \<Rightarrow> dir_entry list \<Rightarrow> (str \<times> dir_tree) list" where
  "sub_dirs dir [] = []"
| "sub_dirs dir (SubDir name t # es) = sub_dirs dir es @ [(path_join dir name, t)]"
| "sub_dirs dir (_ # es) = sub_dirs dir es"

fun tree_files :: "str \<Rightarrow> dir_tree \<Rightarrow> str list" and sub_files :: "str \<Rightarrow> dir_entry list \<Rightarrow> str list" where
  "tree_files dir (Unreadable is_file) = []"
| "tree_files dir (Listing es) = own_files dir es @ sub_files dir es"
| "sub_files dir [] = []"
| "sub_files dir (SubDir name t # es) = sub_files dir es @ tree_files (path_join dir name) t"
| "sub_files dir (_ # es) = sub_files dir es"

text \<open>No directory of the snapshot turns out to be a file when it is opened.\<close>

fun dirs_stay :: "dir_tree \<Rightarrow> bool" and entries_stay :: "dir_entry list \<Rightarrow> bool" where
  "dirs_stay (Unreadable is_file) = (\<not> is_file)"
| "dirs_stay (Listing es) = entries_stay es"
| "entries_stay [] = True"
| "entries_stay (SubDir name t # es) = (dirs_stay t \<and> entries_stay es)"
| "entries_stay (_ # es) = entries_stay es"

lemma sub_files_dirs:
  "sub_files dir es = concat (map (\<lambda>(d, t). tree_files d t) (sub_dirs dir es))"
  by (induction dir es rule: sub_dirs.induct) auto

lemma entries_stay_dirs: "entries_stay es \<longleftrightarrow> list_all (dirs_stay \<circ> snd) (sub_dirs dir es)"
  by (induction dir es rule: sub_dirs.induct) auto

text \<open>Probing a file, when the parsers do not panic on it.\<close>

definition probe_file :: "world \<Rightarrow> crates \<Rightarrow> str \<Rightarrow> indexed option" where
  "probe_file W K path = Option.bind (catch_unwind (aliases_of W K path)) id"

definition probes_return :: "world \<Rightarrow> crates \<Rightarrow> bool" where
  "probes_return W K \<longleftrightarrow> (\<forall>path. aliases_of W K path \<noteq> Panicked)"

lemma aliases_of_probe: "probes_return W K \<Longrightarrow> aliases_of W K path = Returned (probe_file W K path)"
  by (cases "aliases_of W K path") (auto simp: probes_return_def probe_file_def)

lemma push_some_filter: "push_some x out @ ys = out @ (case x of Some y \<Rightarrow> y # ys | None \<Rightarrow> ys)"
  by (simp add: push_some_def split: option.splits)

lemma map_filter_Cons [simp]:
  "List.map_filter f (x # xs) = (case f x of Some y \<Rightarrow> y # List.map_filter f xs | None \<Rightarrow> List.map_filter f xs)"
  "List.map_filter f [] = []"
  by (simp_all add: List.map_filter_def split: option.splits)

lemma index_entries_all:
  assumes "probes_return W K" "visited + length (own_files dir es) \<le> n"
  shows "index_entries W K n dir es stack visited out = Returned
     (False, sub_dirs dir es @ stack, visited + length (own_files dir es),
      out @ List.map_filter (probe_file W K) (own_files dir es))"
  using assms(2)
proof (induction es arbitrary: stack visited out)
  case (Cons e es)
  then show ?case
    by (cases e) (simp_all add: aliases_of_probe [OF assms(1)] push_some_def split: option.splits)
qed simp

lemma index_entries_cut:
  assumes "probes_return W K" "visited \<le> n" "n < visited + length (own_files dir es)"
  shows "\<exists>stack' visited'. index_entries W K n dir es stack visited out = Returned
     (True, stack', visited',
      out @ List.map_filter (probe_file W K) (take (n - visited) (own_files dir es)))"
  using assms(2,3)
proof (induction es arbitrary: stack visited out)
  case (Cons e es)
  show ?case
  proof (cases e)
    case (RegularFile name)
    show ?thesis
    proof (cases "visited = n")
      case False
      then obtain k where k: "n - visited = Suc k" "n - Suc visited = k" using Cons.prems
        by (metis Suc_diff_Suc le_neq_implies_less)
      have "Suc visited \<le> n" "n < Suc visited + length (own_files dir es)"
        using Cons.prems False RegularFile by auto
      from Cons.IH [OF this, of stack "push_some (probe_file W K (path_join dir name)) out"]
      show ?thesis using False Cons.prems RegularFile k
        by (simp add: aliases_of_probe [OF assms(1)] push_some_filter)
    qed (use RegularFile in simp)
  qed (use Cons in simp_all)
qed simp

lemma index_walk_eq:
  assumes "probes_return W K" "visited \<le> n" "list_all (dirs_stay \<circ> snd) stack"
  shows "index_walk W K n stack visited out = Returned
    (out @ List.map_filter (probe_file W K)
       (take (n - visited) (concat (map (\<lambda>(d, t). tree_files d t) stack))))"
  using assms
proof (induction W K n stack visited out rule: index_walk.induct)
  case (2 W K n dir t stack visited out)
  show ?case
  proof (cases t)
    case (Unreadable is_file)
    with 2(6) have off: "\<not> is_file" by simp
    from 2(6) have "list_all (dirs_stay \<circ> snd) stack" by (simp add: comp_def)
    from 2(2) [OF Unreadable off 2(4,5) this] Unreadable off show ?thesis by simp
  next
    case (Listing es)
    define own where "own = own_files dir es"
    show ?thesis
    proof (cases "visited + length own \<le> n")
      case True
      have walk: "index_entries W K n dir es stack visited out = Returned
          (False, sub_dirs dir es @ stack, visited + length own, out @ List.map_filter (probe_file W K) own)"
        using index_entries_all [OF 2(4), of visited dir es n stack out] True by (simp add: own_def)
      have stay: "list_all (dirs_stay \<circ> snd) (sub_dirs dir es @ stack)"
        using 2(6) Listing entries_stay_dirs [of es dir] by (simp add: comp_def)
      have "index_walk W K n ((dir, t) # stack) visited out =
          index_walk W K n (sub_dirs dir es @ stack) (visited + length own)
            (out @ List.map_filter (probe_file W K) own)"
        using Listing walk by simp
      also have "\<dots> = Returned ((out @ List.map_filter (probe_file W K) own) @
          List.map_filter (probe_file W K) (take (n - (visited + length own))
            (concat (map (\<lambda>(d, t). tree_files d t) (sub_dirs dir es @ stack)))))"
        by (rule 2(3) [OF Listing walk refl refl refl _ 2(4) True stay]) simp
      finally show ?thesis
        using True Listing by (simp add: own_def [symmetric] sub_files_dirs List.map_filter_def)
    next
      case False
      then obtain st v where "index_entries W K n dir es stack visited out = Returned
          (True, st, v, out @ List.map_filter (probe_file W K) (take (n - visited) own))"
        using index_entries_cut [OF 2(4,5), of dir es stack out] by (auto simp: own_def)
      with Listing False show ?thesis by (simp add: own_def [symmetric])
    qed
  qed
qed simp

section \<open>What a glob finds\<close>

text \<open>The matches of a list of patterns that are no directories; a bad pattern has none.\<close>

definition pattern_files :: "world \<Rightarrow> str option list \<Rightarrow> str list" where
  "pattern_files W ms = filter (\<lambda>p. \<not> w_is_dir W p) (List.map_filter id ms)"

definition glob_files :: "world \<Rightarrow> str list \<Rightarrow> str list" where
  "glob_files W ps =
     concat (map (\<lambda>p. case w_glob W p of None \<Rightarrow> [] | Some ms \<Rightarrow> pattern_files W ms) ps)"

lemma pattern_files_simps [simp]:
  "pattern_files W [] = []"
  "pattern_files W (None # ms) = pattern_files W ms"
  "pattern_files W (Some p # ms) =
     (if w_is_dir W p then pattern_files W ms else p # pattern_files W ms)"
  by (simp_all add: pattern_files_def)

lemma index_matches_all:
  assumes "probes_return W K" "visited + length (pattern_files W ms) \<le> n"
  shows "index_matches W K n ms visited out = Returned
     (False, visited + length (pattern_files W ms),
      out @ List.map_filter (probe_file W K) (pattern_files W ms))"
  using assms(2)
proof (induction ms arbitrary: visited out)
  case (Cons m ms)
  then show ?case
    by (cases m) (auto simp: aliases_of_probe [OF assms(1)] push_some_filter split: if_splits)
qed simp

lemma index_matches_cut:
  assumes "probes_return W K" "visited \<le> n" "n < visited + length (pattern_files W ms)"
  shows "\<exists>visited'. index_matches W K n ms visited out = Returned
     (True, visited', out @ List.map_filter (probe_file W K) (take (n - visited) (pattern_files W ms)))"
  using assms(2,3)
proof (induction ms arbitrary: visited out)
  case (Cons m ms)
  show ?case
  proof (cases "\<exists>p. m = Some p \<and> \<not> w_is_dir W p")
    case False
    then have same: "pattern_files W (m # ms) = pattern_files W ms" by (cases m) auto
    with Cons.prems have "n < visited + length (pattern_files W ms)" by simp
    from Cons.IH [OF Cons.prems(1) this] False same show ?thesis by (cases m) auto
  next
    case True
    then obtain p where p: "m = Some p" "\<not> w_is_dir W p" by blast
    then have files: "pattern_files W (m # ms) = p # pattern_files W ms" by simp
    show ?thesis
    proof (cases "visited = n")
      case False
      then obtain k where k: "n - visited = Suc k" "n - Suc visited = k" using Cons.prems
        by (metis Suc_diff_Suc le_neq_implies_less)
      have "Suc visited \<le> n" "n < Suc visited + length (pattern_files W ms)"
        using Cons.prems False files by auto
      from Cons.IH [OF this, of "push_some (probe_file W K p) out"] show ?thesis
        using False Cons.prems p k
        by (simp add: aliases_of_probe [OF assms(1)] push_some_filter)
    qed (use p in simp)
  qed
qed simp

lemma index_patterns_eq:
  assumes "probes_return W K" "visited \<le> n"
  shows "index_patterns W K n ps visited out = Returned
    (out @ List.map_filter (probe_file W K) (take (n - visited) (glob_files W ps)))"
  using assms(2)
proof (induction ps arbitrary: visited out)
  case (Cons p ps)
  show ?case
  proof (cases "w_glob W p")
    case (Some ms)
    show ?thesis
    proof (cases "visited + length (pattern_files W ms) \<le> n")
      case True
      from Cons.IH [OF this] show ?thesis
        using Some True index_matches_all [OF assms(1) True, of out]
        by (simp add: glob_files_def List.map_filter_def)
    next
      case False
      then obtain v where "index_matches W K n ms visited out = Returned (True, v,
          out @ List.map_filter (probe_file W K) (take (n - visited) (pattern_files W ms)))"
        using index_matches_cut [OF assms(1) Cons.prems, of ms out] by auto
      with Some False show ?thesis by (simp add: glob_files_def)
    qed
  qed (use Cons in \<open>simp add: glob_files_def\<close>)
qed (simp add: glob_files_def)

section \<open>Indexing returns when the parsers do\<close>

lemma index_entries_returns:
  "probes_return W K \<Longrightarrow> index_entries W K n dir es stack visited out \<noteq> Panicked"
proof (induction es arbitrary: stack visited out)
  case (Cons e es)
  then show ?case by (cases e) (simp_all add: aliases_of_probe)
qed simp

lemma index_walk_returns: "probes_return W K \<Longrightarrow> index_walk W K n stack visited out \<noteq> Panicked"
proof (induction W K n stack visited out rule: index_walk.induct)
  case (2 W K n dir t stack visited out)
  then show ?case
    using index_entries_returns [OF 2(4), of n dir _ stack visited out]
    by (auto simp: aliases_of_probe split: dir_tree.splits outcome.splits)
qed simp

lemma index_matches_returns:
  "probes_return W K \<Longrightarrow> index_matches W K n ms visited out \<noteq> Panicked"
  by (induction W K n ms visited out rule: index_matches.induct) (simp_all add: aliases_of_probe)

lemma index_patterns_returns:
  "probes_return W K \<Longrightarrow> index_patterns W K n ps visited out \<noteq> Panicked"
proof (induction ps arbitrary: visited out)
  case (Cons p ps)
  then show ?case
    using index_matches_returns [OF Cons.prems, of n _ visited out]
    by (auto simp: outcome_simps split: option.splits if_splits)
qed simp

section \<open>Indexed files are what probing them gives\<close>

definition genuine :: "world \<Rightarrow> crates \<Rightarrow> indexed \<Rightarrow> bool" where
  "genuine W K ix \<longleftrightarrow> aliases_of W K (ix_path ix) = Returned (Some ix)"

lemma aliases_of_Some:
  "aliases_of W K path = Returned (Some ix) \<longleftrightarrow>
     (\<exists>data i. w_mmap W path = Some data \<and> probe_identity K data = Returned (Inr i) \<and>
        ix = \<lparr>ix_aliases = aliases i, ix_path = path\<rparr>)"
proof (cases "w_mmap W path")
  case (Some data)
  show ?thesis
  proof (cases "probe_identity K data")
    case (Returned r)
    with Some show ?thesis by (cases r) (auto simp: aliases_of_def)
  qed (simp add: aliases_of_def Some)
qed (simp add: aliases_of_def)

lemma aliases_of_genuine: "aliases_of W K path = Returned (Some ix) \<Longrightarrow> genuine W K ix"
  by (auto simp: genuine_def aliases_of_Some)

lemma push_some_genuine:
  "aliases_of W K path = Returned x \<Longrightarrow> list_all (genuine W K) out \<Longrightarrow>
     list_all (genuine W K) (push_some x out)"
  by (auto simp: push_some_def dest: aliases_of_genuine split: option.splits)

lemma index_entries_genuine:
  "index_entries W K n dir es stack visited out = Returned (b, stack', visited', out') \<Longrightarrow>
     list_all (genuine W K) out \<Longrightarrow> list_all (genuine W K) out'"
proof (induction es arbitrary: stack visited out)
  case (Cons e es)
  then show ?case
    by (cases e)
      (auto simp: outcome_simps split: if_splits intro: push_some_genuine dest: Cons.IH)
qed simp

lemma index_walk_genuine:
  "index_walk W K n stack visited out = Returned out' \<Longrightarrow> list_all (genuine W K) out \<Longrightarrow>
     list_all (genuine W K) out'"
proof (induction W K n stack visited out rule: index_walk.induct)
  case (2 W K n dir t stack visited out)
  show ?case
  proof (cases t)
    case (Unreadable is_file)
    with 2 show ?thesis
      by (auto split: if_splits outcome.splits intro: push_some_genuine)
  next
    case (Listing es)
    with 2(4) obtain stop st v out1 where
      e: "index_entries W K n dir es stack visited out = Returned (stop, st, v, out1)"
      by (auto split: outcome.splits prod.splits)
    have "list_all (genuine W K) out1" by (rule index_entries_genuine [OF e 2(5)])
    with 2(3) [OF Listing e refl refl refl] 2(4) Listing e show ?thesis
      by (auto split: if_splits)
  qed
qed simp

lemma index_matches_genuine:
  "index_matches W K n ms visited out = Returned (b, visited', out') \<Longrightarrow>
     list_all (genuine W K) out \<Longrightarrow> list_all (genuine W K) out'"
  by (induction W K n ms visited out rule: index_matches.induct)
    (auto simp: outcome_simps split: if_splits intro: push_some_genuine)

lemma index_patterns_genuine:
  "index_patterns W K n ps visited out = Returned out' \<Longrightarrow>
     list_all (genuine W K) out \<Longrightarrow> list_all (genuine W K) out'"
proof (induction ps arbitrary: visited out)
  case (Cons p ps)
  then show ?case
    by (auto simp: outcome_simps split: option.splits if_splits dest: index_matches_genuine)
qed simp

end
