(* ===== verification/Source_Registry.thy ===== *)
theory Source_Registry
  imports Local_Sources Manifest
begin

text \<open>
  \<^verbatim>\<open>crates/symbols-core/src/source/mod.rs\<close>: the ordered list of symbol sources and the
  index that is built from the local ones on first use. Indexing runs the identity parsers
  outside any \<^verbatim>\<open>catch_unwind\<close>, so an operation that indexes returns the registry as it was
  left together with an \<open>outcome\<close>.
\<close>

definition MAX_INDEX_FILES :: nat where
  "MAX_INDEX_FILES = 1000000"

record located =
  lc_data :: bytes
  lc_name :: str
  lc_origin :: origin

record source_registry =
  rg_sources :: "source_spec list"
  rg_next_id :: u64
  rg_index :: "str \<rightharpoonup> str \<times> bool"
  rg_indexed :: "str set"

definition registry_new :: source_registry where
  "registry_new = \<lparr>rg_sources = [], rg_next_id = 0, rg_index = Map.empty, rg_indexed = {}\<rparr>"

section \<open>The source list\<close>

definition restored_id :: "str \<Rightarrow> u64 option" where
  "restored_id source_id =
     (if starts_with source_id ''src'' then parse_u64 (drop 3 source_id) else None)"

definition keep_ahead :: "source_spec \<Rightarrow> u64 \<Rightarrow> u64" where
  "keep_ahead s next_id =
     (case restored_id (ss_source_id s) of Some n \<Rightarrow> max next_id (n + 1) | None \<Rightarrow> next_id)"

definition restore :: "source_spec list \<Rightarrow> source_registry \<Rightarrow> source_registry" where
  "restore specs r =
     r\<lparr>rg_sources := specs, rg_index := Map.empty, rg_indexed := {},
       rg_next_id := fold keep_ahead specs (rg_next_id r)\<rparr>"

definition quoted :: "str \<Rightarrow> str" where
  "quoted s = CHR 0x27 # s @ [CHR 0x27]"

definition is_missing :: "str option \<Rightarrow> bool" where
  "is_missing x \<longleftrightarrow> (case x of Some s \<Rightarrow> s | None \<Rightarrow> []) = []"

definition add_error :: "str \<Rightarrow> str option \<Rightarrow> str option \<Rightarrow> str option \<Rightarrow> str option" where
  "add_error kind path url bucket =
     (if kind \<in> {''dir'', ''glob''} then
        (if is_missing path then Some (''source kind '' @ quoted kind @ '' requires path =>'') else None)
      else if kind \<in> {''debuginfod'', ''http''} then
        (if is_missing url then Some (''source kind '' @ quoted kind @ '' requires url =>'') else None)
      else if kind = ''s3'' then
        (if is_missing bucket then Some (''source kind '' @ quoted ''s3'' @ '' requires bucket =>'') else None)
      else if kind = ''inline'' then None
      else Some (''unknown source kind '' @ quoted kind))"

definition registry_add ::
  "str \<Rightarrow> str option \<Rightarrow> str option \<Rightarrow> str option \<Rightarrow> bool option \<Rightarrow> str option \<Rightarrow> source_registry
     \<Rightarrow> (str + str) \<times> source_registry" where
  "registry_add kind0 path url bucket enabled secret r =
     (let kind = lowercase (trim kind0);
          egress = kind \<in> {''debuginfod'', ''s3'', ''http''} in
      case add_error kind path url bucket of
        Some e \<Rightarrow> (Inl e, r)
      | None \<Rightarrow>
          (let source_id = ''src'' @ show_u64 (rg_next_id r) in
           (Inr source_id,
            r\<lparr>rg_next_id := rg_next_id r + 1,
              rg_sources := rg_sources r @
                [\<lparr>ss_source_id = source_id, ss_kind = kind, ss_path = path, ss_url = url,
                  ss_bucket = bucket,
                  ss_enabled = (case enabled of Some b \<Rightarrow> b | None \<Rightarrow> \<not> egress),
                  ss_egress = egress, ss_secret = secret\<rparr>]\<rparr>)))"

definition registry_drop :: "str \<Rightarrow> source_registry \<Rightarrow> bool \<times> source_registry" where
  "registry_drop source_id r =
     (let kept = filter (\<lambda>s. ss_source_id s \<noteq> source_id) (rg_sources r);
          removed = length kept \<noteq> length (rg_sources r)
      in (removed,
          if removed then r\<lparr>rg_sources := kept, rg_index := Map.empty, rg_indexed := {}\<rparr>
          else r\<lparr>rg_sources := kept\<rparr>))"

section \<open>The lazy index\<close>

definition is_local :: "source_spec \<Rightarrow> bool" where
  "is_local s \<longleftrightarrow> ss_enabled s \<and> ss_kind s \<in> {''dir'', ''glob''}"

definition or_insert_map :: "'k \<Rightarrow> 'v \<Rightarrow> ('k \<rightharpoonup> 'v) \<Rightarrow> ('k \<rightharpoonup> 'v)" where
  "or_insert_map k v m = (case m k of Some _ \<Rightarrow> m | None \<Rightarrow> m(k \<mapsto> v))"

definition add_entries ::
  "bool \<Rightarrow> indexed list \<Rightarrow> (str \<rightharpoonup> str \<times> bool) \<Rightarrow> (str \<rightharpoonup> str \<times> bool)" where
  "add_entries is_glob entries m =
     fold (\<lambda>ix. fold (\<lambda>alias. or_insert_map alias (ix_path ix, is_glob)) (ix_aliases ix)) entries m"

definition source_entries :: "world \<Rightarrow> crates \<Rightarrow> source_spec \<Rightarrow> str \<Rightarrow> indexed list outcome" where
  "source_entries W K spec p =
     (if ss_kind spec = ''glob'' then index_glob W K p MAX_INDEX_FILES
      else index_dir W K p MAX_INDEX_FILES)"

fun index_pending ::
  "world \<Rightarrow> crates \<Rightarrow> source_spec list \<Rightarrow> source_registry \<Rightarrow> source_registry \<times> unit outcome" where
  "index_pending W K [] r = (r, Returned ())"
| "index_pending W K (spec # specs) r =
     (case ss_path spec of
        None \<Rightarrow>
          index_pending W K specs (r\<lparr>rg_indexed := insert (ss_source_id spec) (rg_indexed r)\<rparr>)
      | Some p \<Rightarrow>
          (case source_entries W K spec p of
             Panicked \<Rightarrow> (r, Panicked)
           | Returned entries \<Rightarrow>
               index_pending W K specs
                 (r\<lparr>rg_index := add_entries (ss_kind spec = ''glob'') entries (rg_index r),
                    rg_indexed := insert (ss_source_id spec) (rg_indexed r)\<rparr>)))"

definition pending_sources :: "source_registry \<Rightarrow> source_spec list" where
  "pending_sources r =
     filter (\<lambda>s. ss_source_id s \<notin> rg_indexed r) (filter is_local (rg_sources r))"

definition ensure_indexed ::
  "world \<Rightarrow> crates \<Rightarrow> source_registry \<Rightarrow> source_registry \<times> unit outcome" where
  "ensure_indexed W K r = index_pending W K (pending_sources r) r"

definition locate_indexed ::
  "world \<Rightarrow> str \<Rightarrow> (str \<rightharpoonup> str \<times> bool) \<Rightarrow> located option" where
  "locate_indexed W token index =
     (let canon = canonical_token token in
      case index canon of
        None \<Rightarrow> None
      | Some (path, is_glob) \<Rightarrow>
          (case w_read W path of
             Inl _ \<Rightarrow> None
           | Inr data \<Rightarrow> Some
               \<lparr>lc_data = data,
                lc_name = (case file_name path of Some n \<Rightarrow> utf8_lossy n | None \<Rightarrow> canon),
                lc_origin = (if is_glob then OriginGlob (utf8_lossy path)
                             else OriginDir (utf8_lossy path))\<rparr>))"

definition locate ::
  "world \<Rightarrow> crates \<Rightarrow> str \<Rightarrow> source_registry \<Rightarrow> source_registry \<times> located option outcome" where
  "locate W K token r =
     (case ensure_indexed W K r of
        (r', Panicked) \<Rightarrow> (r', Panicked)
      | (r', Returned _) \<Rightarrow> (r', Returned (locate_indexed W token (rg_index r'))))"

section \<open>The index is the first match in source order\<close>

text \<open>
  What a source offers: every alias of every file found in it, with the file. \<open>hits\<close> lists
  the offers of several sources in order, so \<^const>\<open>map_of\<close> on it is the first match.
\<close>

definition entry_hits :: "bool \<Rightarrow> indexed list \<Rightarrow> (str \<times> (str \<times> bool)) list" where
  "entry_hits is_glob entries =
     concat (map (\<lambda>ix. map (\<lambda>alias. (alias, (ix_path ix, is_glob))) (ix_aliases ix)) entries)"

definition source_hits :: "world \<Rightarrow> crates \<Rightarrow> source_spec \<Rightarrow> (str \<times> (str \<times> bool)) list" where
  "source_hits W K spec =
     (case ss_path spec of
        None \<Rightarrow> []
      | Some p \<Rightarrow> (case source_entries W K spec p of
          Returned entries \<Rightarrow> entry_hits (ss_kind spec = ''glob'') entries
        | Panicked \<Rightarrow> []))"

definition hits :: "world \<Rightarrow> crates \<Rightarrow> source_spec list \<Rightarrow> (str \<times> (str \<times> bool)) list" where
  "hits W K specs = concat (map (source_hits W K) specs)"

definition local_sources :: "source_registry \<Rightarrow> source_spec list" where
  "local_sources r = filter is_local (rg_sources r)"

lemma or_insert_map_apply: "or_insert_map k v m = [k \<mapsto> v] ++ m"
  by (auto simp: or_insert_map_def fun_eq_iff map_add_def split: option.splits)

lemma add_entries_eq: "add_entries is_glob entries m = map_of (entry_hits is_glob entries) ++ m"
proof -
  have aliases: "fold (\<lambda>alias. or_insert_map alias v) as m = map_of (map (\<lambda>a. (a, v)) as) ++ m" for as v m
    by (induction as arbitrary: m)
      (auto simp: or_insert_map_apply fun_eq_iff map_add_def split: option.splits)
  show ?thesis
    unfolding add_entries_def
    by (induction entries arbitrary: m) (simp_all add: entry_hits_def aliases map_add_assoc)
qed

text \<open>The registry \<open>r'\<close> is \<open>r\<close> after indexing the sources \<open>specs\<close>.\<close>

definition after_indexing ::
  "world \<Rightarrow> crates \<Rightarrow> source_spec list \<Rightarrow> source_registry \<Rightarrow> source_registry \<Rightarrow> bool" where
  "after_indexing W K specs r r' \<longleftrightarrow>
     r' = r\<lparr>rg_index := map_of (hits W K specs) ++ rg_index r,
            rg_indexed := rg_indexed r \<union> ss_source_id ` set specs\<rparr>"

lemma after_indexing_Nil [simp]: "after_indexing W K [] r r' \<longleftrightarrow> r' = r"
  by (simp add: after_indexing_def hits_def)

lemma after_indexing_Cons:
  "after_indexing W K (s # specs) r r' \<longleftrightarrow>
     after_indexing W K specs
       (r\<lparr>rg_index := map_of (source_hits W K s) ++ rg_index r,
          rg_indexed := insert (ss_source_id s) (rg_indexed r)\<rparr>) r'"
  by (simp add: after_indexing_def hits_def map_add_assoc)

lemma index_pending_state:
  "index_pending W K specs r = (r', o') \<Longrightarrow>
     \<exists>k. after_indexing W K (take k specs) r r' \<and> (o' = Returned () \<longrightarrow> take k specs = specs)"
proof (induction specs arbitrary: r)
  case Nil
  then show ?case by simp
next
  case (Cons spec specs)
  define r1 where "r1 = r\<lparr>rg_index := map_of (source_hits W K spec) ++ rg_index r,
      rg_indexed := insert (ss_source_id spec) (rg_indexed r)\<rparr>"
  show ?case
  proof (cases "index_pending W K (spec # specs) r = index_pending W K specs r1")
    case True
    with Cons.prems Cons.IH [of r1] obtain k where
      "after_indexing W K (take k specs) r1 r'" "o' = Returned () \<longrightarrow> take k specs = specs" by auto
    then show ?thesis by (intro exI [of _ "Suc k"]) (simp add: after_indexing_Cons r1_def)
  next
    case False
    have "index_pending W K (spec # specs) r = (r, Panicked)"
    proof (cases "ss_path spec")
      case None
      with False show ?thesis by (simp add: r1_def source_hits_def)
    next
      case (Some p)
      with False show ?thesis
        by (cases "source_entries W K spec p") (simp_all add: r1_def source_hits_def add_entries_eq)
    qed
    with Cons.prems show ?thesis by (intro exI [of _ 0]) simp
  qed
qed

text \<open>Indexing never touches the list or the counter, not even when a parser panics.\<close>

lemma locate_registry:
  "rg_sources (fst (locate W K token r)) = rg_sources r \<and> rg_next_id (fst (locate W K token r)) = rg_next_id r"
proof -
  obtain r' o' where e: "ensure_indexed W K r = (r', o')" by (cases "ensure_indexed W K r")
  with index_pending_state [of W K "pending_sources r" r r' o'] have
    "rg_sources r' = rg_sources r" "rg_next_id r' = rg_next_id r"
    by (auto simp: ensure_indexed_def after_indexing_def)
  with e show ?thesis by (cases o') (simp_all add: locate_def)
qed

section \<open>The invariant of the registry\<close>

text \<open>
  Source ids are distinct and every numbered one is below \<^verbatim>\<open>next_id\<close>; for a file system that
  answers the same throughout, the index holds exactly what the first sources offer.
\<close>

definition ids_ok :: "source_registry \<Rightarrow> bool" where
  "ids_ok r \<longleftrightarrow> distinct (map ss_source_id (rg_sources r)) \<and>
     list_all (\<lambda>s. case restored_id (ss_source_id s) of Some n \<Rightarrow> n < rg_next_id r | None \<Rightarrow> True)
       (rg_sources r)"

definition index_ok :: "world \<Rightarrow> crates \<Rightarrow> source_registry \<Rightarrow> bool" where
  "index_ok W K r \<longleftrightarrow> (\<exists>fin todo. local_sources r = fin @ todo \<and>
     rg_index r = map_of (hits W K fin) \<and> rg_indexed r = ss_source_id ` set fin)"

lemma ids_disjoint:
  assumes "ids_ok r" "local_sources r = fin @ todo"
  shows "ss_source_id ` set fin \<inter> ss_source_id ` set todo = {}"
proof -
  have "distinct (map ss_source_id (local_sources r))"
    using assms(1) by (simp add: ids_ok_def local_sources_def distinct_map_filter)
  with assms(2) show ?thesis by auto
qed

lemma pending_todo:
  assumes "ids_ok r" "local_sources r = fin @ todo" "rg_indexed r = ss_source_id ` set fin"
  shows "pending_sources r = todo"
proof -
  have "pending_sources r = filter (\<lambda>s. ss_source_id s \<notin> rg_indexed r) (fin @ todo)"
    using assms(2) by (simp add: pending_sources_def local_sources_def)
  also have "\<dots> = todo"
    using ids_disjoint [OF assms(1,2)] by (auto simp: assms(3) filter_empty_conv filter_id_conv)
  finally show ?thesis .
qed

lemma ensure_indexed_ok:
  assumes "ids_ok r" "index_ok W K r" "ensure_indexed W K r = (r', o')"
  shows "ids_ok r' \<and> index_ok W K r' \<and> rg_sources r' = rg_sources r \<and> rg_next_id r' = rg_next_id r \<and>
     (o' = Returned () \<longrightarrow> rg_index r' = map_of (hits W K (local_sources r)))"
proof -
  obtain fin todo where split: "local_sources r = fin @ todo"
    "rg_index r = map_of (hits W K fin)" "rg_indexed r = ss_source_id ` set fin"
    using assms(2) by (auto simp: index_ok_def)
  have "index_pending W K todo r = (r', o')"
    using assms(3) by (simp add: ensure_indexed_def pending_todo [OF assms(1) split(1,3)])
  from index_pending_state [OF this] obtain k where
    k: "after_indexing W K (take k todo) r r'" "o' = Returned () \<longrightarrow> take k todo = todo" by blast
  then have idx: "rg_index r' = map_of (hits W K (fin @ take k todo))"
    "rg_indexed r' = ss_source_id ` set (fin @ take k todo)"
    "rg_sources r' = rg_sources r" "rg_next_id r' = rg_next_id r"
    by (simp_all add: after_indexing_def split hits_def image_Un)
  have "local_sources r' = (fin @ take k todo) @ drop k todo"
    using idx(3) split(1) by (simp add: local_sources_def)
  with idx(1,2) have "index_ok W K r'" unfolding index_ok_def by blast
  moreover have "ids_ok r'" using assms(1) idx(3,4) by (simp add: ids_ok_def cong: option.case_cong)
  moreover have "o' = Returned () \<longrightarrow> rg_index r' = map_of (hits W K (local_sources r))"
    using k(2) idx(1) split(1) by simp
  ultimately show ?thesis using idx(3,4) by simp
qed

lemma locate_ok:
  assumes "ids_ok r" "index_ok W K r" "locate W K token r = (r', o')"
  shows "ids_ok r' \<and> index_ok W K r' \<and> rg_sources r' = rg_sources r \<and> rg_next_id r' = rg_next_id r \<and>
     (o' = Panicked \<or>
      o' = Returned (locate_indexed W token (map_of (hits W K (local_sources r)))))"
proof -
  obtain r1 o1 where e: "ensure_indexed W K r = (r1, o1)" by (cases "ensure_indexed W K r")
  note ok = ensure_indexed_ok [OF assms(1,2) e]
  show ?thesis
    using assms(3) e ok by (cases o1) (auto simp: locate_def)
qed

lemma source_entries_returns: "probes_return W K \<Longrightarrow> source_entries W K spec p \<noteq> Panicked"
  by (simp add: source_entries_def index_glob_def index_dir_def index_patterns_returns
      index_walk_returns del: index_walk.simps)

text \<open>
  A lookup panics only while it indexes a local source, in the identity parsers: they run on the
  files of a source outside any \<^verbatim>\<open>catch_unwind\<close>.
\<close>

definition indexing_panics :: "world \<Rightarrow> crates \<Rightarrow> source_spec \<Rightarrow> bool" where
  "indexing_panics W K s \<longleftrightarrow> is_local s \<and>
     (case ss_path s of None \<Rightarrow> False | Some p \<Rightarrow> source_entries W K s p = Panicked)"

lemma index_pending_panics:
  assumes "snd (index_pending W K specs r) = Panicked"
  shows "\<exists>s\<in>set specs. \<exists>p. ss_path s = Some p \<and> source_entries W K s p = Panicked"
  using assms
  by (induction W K specs r rule: index_pending.induct) (auto split: option.splits outcome.splits)

lemma locate_panics:
  assumes "snd (locate W K token r) = Panicked"
  shows "\<exists>s\<in>set (rg_sources r). indexing_panics W K s"
proof -
  from assms have "snd (index_pending W K (pending_sources r) r) = Panicked"
    by (auto simp: locate_def ensure_indexed_def split: prod.splits outcome.splits)
  from index_pending_panics [OF this] show ?thesis
    by (auto simp: pending_sources_def indexing_panics_def)
qed

lemma indexing_panics_file: "indexing_panics W K s \<Longrightarrow> \<exists>path. aliases_of W K path = Panicked"
  using source_entries_returns [of W K s]
  by (auto simp: indexing_panics_def probes_return_def split: option.splits)

lemma locate_returns: "probes_return W K \<Longrightarrow> snd (locate W K token r) \<noteq> Panicked"
  using locate_panics [of W K token r] indexing_panics_file [of W K] by (auto simp: probes_return_def)

subsection \<open>Adding, dropping and restoring sources\<close>

lemma registry_new_ok: "ids_ok registry_new" "index_ok W K registry_new"
  by (simp_all add: ids_ok_def index_ok_def registry_new_def local_sources_def hits_def)

lemma restored_id_src [simp]:
  "restored_id (CHR ''s'' # CHR ''r'' # CHR ''c'' # show_u64 n) = Some n"
  by (simp add: restored_id_def starts_with_def)

lemma word_lt_inc: "n < m + 1" if "n < m \<or> n = m" "m \<noteq> - 1" for n m :: u64
proof -
  have "unat m \<noteq> 2 ^ 64 - 1"
  proof
    assume "unat m = 2 ^ 64 - 1"
    moreover have "m = of_nat (unat m)" by simp
    ultimately have "m = of_nat (2 ^ 64 - 1)" by presburger
    with that(2) show False by simp
  qed
  moreover have "unat m < 2 ^ 64" using unsigned_less [of m] by simp
  ultimately have "unat (m + 1) = unat m + 1" by (simp add: unat_word_ariths)
  with that(1) show ?thesis by (auto simp: word_less_nat_alt)
qed

lemma registry_add_ok:
  assumes "ids_ok r" "rg_next_id r \<noteq> - 1"
    and "registry_add kind path url bucket enabled secret r = (Inr i, r')"
  shows "ids_ok r' \<and> i \<notin> ss_source_id ` set (rg_sources r)"
proof -
  have i: "i = ''src'' @ show_u64 (rg_next_id r)" and
    src: "\<exists>s. ss_source_id s = i \<and> rg_sources r' = rg_sources r @ [s]" and
    nxt: "rg_next_id r' = rg_next_id r + 1"
    using assms(3) by (auto simp: registry_add_def Let_def split: option.splits)
  have below: "n < rg_next_id r" if "s \<in> set (rg_sources r)" "restored_id (ss_source_id s) = Some n" for s n
    using assms(1) that by (auto simp: ids_ok_def list_all_iff split: option.splits)
  have fresh: "i \<notin> ss_source_id ` set (rg_sources r)"
  proof
    assume "i \<in> ss_source_id ` set (rg_sources r)"
    then obtain s where "s \<in> set (rg_sources r)" "ss_source_id s = i" by blast
    with below [of s "rg_next_id r"] i show False by simp
  qed
  have "case restored_id (ss_source_id s) of Some n \<Rightarrow> n < rg_next_id r + 1 | None \<Rightarrow> True"
    if "s \<in> set (rg_sources r')" for s
    using that src i below word_lt_inc [OF _ assms(2)] by (auto split: option.splits)
  with fresh src nxt assms(1) show ?thesis
    by (auto simp: ids_ok_def list_all_iff cong: option.case_cong)
qed

lemma registry_add_index_ok:
  assumes "ids_ok r" "index_ok W K r"
  shows "index_ok W K (snd (registry_add kind path url bucket enabled secret r))"
proof (cases "registry_add kind path url bucket enabled secret r")
  case (Pair res r')
  then have "(\<exists>s. rg_sources r' = rg_sources r @ s) \<and> rg_index r' = rg_index r \<and>
      rg_indexed r' = rg_indexed r"
    by (auto simp: registry_add_def Let_def split: option.splits)
  moreover obtain fin todo where "local_sources r = fin @ todo"
    "rg_index r = map_of (hits W K fin)" "rg_indexed r = ss_source_id ` set fin"
    using assms(2) by (auto simp: index_ok_def)
  ultimately have "\<exists>todo. local_sources r' = fin @ todo" "rg_index r' = map_of (hits W K fin)"
    "rg_indexed r' = ss_source_id ` set fin"
    by (auto simp: local_sources_def)
  with Pair show ?thesis unfolding index_ok_def by auto
qed

lemma registry_drop_ok:
  assumes "ids_ok r" "index_ok W K r" "registry_drop i r = (b, r')"
  shows "ids_ok r' \<and> index_ok W K r' \<and> rg_sources r' = filter (\<lambda>s. ss_source_id s \<noteq> i) (rg_sources r) \<and>
     b = (i \<in> ss_source_id ` set (rg_sources r))"
proof -
  have len: "length (filter P xs) = length xs \<longleftrightarrow> filter P xs = xs" for P and xs :: "source_spec list"
    by (metis filter_True length_filter_less less_irrefl)
  have src: "rg_sources r' = filter (\<lambda>s. ss_source_id s \<noteq> i) (rg_sources r)"
    "rg_next_id r' = rg_next_id r" and
    b: "b = (filter (\<lambda>s. ss_source_id s \<noteq> i) (rg_sources r) \<noteq> rg_sources r)"
    using assms(3) by (auto simp: registry_drop_def Let_def len)
  have "ids_ok r'"
    using assms(1) src by (auto simp: ids_ok_def list_all_iff distinct_map_filter cong: option.case_cong)
  moreover have "index_ok W K r'"
  proof (cases b)
    case True
    with assms(3) have "rg_index r' = Map.empty" "rg_indexed r' = {}"
      by (auto simp: registry_drop_def Let_def)
    then show ?thesis
      unfolding index_ok_def by (intro exI [of _ "[]"] exI [of _ "local_sources r'"]) (simp add: hits_def)
  next
    case False
    with assms(3) b have "r' = r" by (auto simp: registry_drop_def Let_def)
    with assms(2) show ?thesis by simp
  qed
  moreover have "b = (i \<in> ss_source_id ` set (rg_sources r))"
    unfolding b by (auto simp: filter_id_conv)
  ultimately show ?thesis using src by simp
qed

lemma keep_ahead_mono:
  "n \<le> fold keep_ahead specs n"
proof (induction specs arbitrary: n)
  case (Cons s specs)
  have "n \<le> keep_ahead s n" by (auto simp: keep_ahead_def split: option.splits)
  with Cons [of "keep_ahead s n"] show ?case by simp
qed simp

lemma keep_ahead_below:
  assumes "s \<in> set specs" "restored_id (ss_source_id s) = Some k" "k \<noteq> - 1"
  shows "k < fold keep_ahead specs n"
  using assms(1)
proof (induction specs arbitrary: n)
  case (Cons x specs)
  show ?case
  proof (cases "x = s")
    case True
    have "k < k + 1" using word_lt_inc assms(3) by blast
    also have "k + 1 \<le> keep_ahead s n" using assms(2) by (simp add: keep_ahead_def)
    also have "keep_ahead s n \<le> fold keep_ahead specs (keep_ahead s n)" by (rule keep_ahead_mono)
    finally show ?thesis using True by simp
  qed (use Cons in simp)
qed simp

lemma restore_ok:
  assumes "distinct (map ss_source_id specs)"
    and "list_all (\<lambda>s. restored_id (ss_source_id s) \<noteq> Some (- 1)) specs"
  shows "ids_ok (restore specs r)" "index_ok W K (restore specs r)"
    "rg_next_id r \<le> rg_next_id (restore specs r)"
proof -
  show "ids_ok (restore specs r)"
    using assms by (fastforce simp: ids_ok_def restore_def list_all_iff split: option.splits
        intro: keep_ahead_below)
  show "index_ok W K (restore specs r)"
    unfolding index_ok_def
    by (intro exI [of _ "[]"] exI [of _ "local_sources (restore specs r)"])
      (simp add: hits_def restore_def)
  show "rg_next_id r \<le> rg_next_id (restore specs r)"
    by (simp add: restore_def keep_ahead_mono)
qed

section \<open>A hit names a file that has the token\<close>

lemma source_entries_genuine:
  "source_entries W K spec p = Returned entries \<Longrightarrow> list_all (genuine W K) entries"
  by (auto simp: source_entries_def index_glob_def index_dir_def simp del: index_walk.simps
      split: if_splits dest: index_patterns_genuine index_walk_genuine)

lemma hits_genuine:
  assumes "map_of (hits W K specs) token = Some (path, is_glob)"
  shows "\<exists>data i. w_mmap W path = Some data \<and> probe_identity K data = Returned (Inr i) \<and>
     token \<in> set (aliases i)"
proof -
  from map_of_SomeD [OF assms] obtain spec where "(token, path, is_glob) \<in> set (source_hits W K spec)"
    by (auto simp: hits_def)
  then obtain p entries where "source_entries W K spec p = Returned entries"
    "(token, path, is_glob) \<in> set (entry_hits (ss_kind spec = ''glob'') entries)"
    unfolding source_hits_def
    by (cases "ss_path spec"; cases "source_entries W K spec (the (ss_path spec))") simp_all
  then obtain ix where "source_entries W K spec p = Returned entries"
    "ix \<in> set entries" "path = ix_path ix" "token \<in> set (ix_aliases ix)"
    by (auto simp: entry_hits_def)
  moreover from source_entries_genuine [OF this(1)] this(2) have "genuine W K ix"
    by (simp add: list_all_iff)
  ultimately show ?thesis
    unfolding genuine_def aliases_of_Some by (metis indexed.select_convs(1))
qed

text \<open>A file that is mapped and read back has the same bytes both times.\<close>

definition world_stable :: "world \<Rightarrow> bool" where
  "world_stable W \<longleftrightarrow> (\<forall>path data data'. w_mmap W path = Some data \<longrightarrow> w_read W path = Inr data' \<longrightarrow>
     data' = data)"

lemma located_token:
  assumes "world_stable W" "locate_indexed W token (map_of (hits W K specs)) = Some loc"
  shows "\<exists>i. probe_identity K (lc_data loc) = Returned (Inr i) \<and> canonical_token token \<in> set (aliases i)"
proof -
  from assms(2) obtain path g data where hit: "map_of (hits W K specs) (canonical_token token) = Some (path, g)"
    and read: "w_read W path = Inr data" "lc_data loc = data"
    by (auto simp: locate_indexed_def Let_def split: option.splits sum.splits)
  from hits_genuine [OF hit] obtain d i where "w_mmap W path = Some d"
    "probe_identity K d = Returned (Inr i)" "canonical_token token \<in> set (aliases i)" by blast
  with assms(1) read show ?thesis by (auto simp: world_stable_def)
qed

end
