(* ===== verification/Symbols_State.thy ===== *)
theory Symbols_State
  imports Cache_Spec Source_Registry
begin

text \<open>
  \<^verbatim>\<open>crates/symbols-core/src/state.rs\<close>: the state of the worker, that is the source registry,
  the cache and the parse caps, and the flow of one resolution through them. An operation that
  may index takes the \<open>world\<close> and returns an \<open>outcome\<close> beside the state: when an identity parser
  panics, the state is what the unwinding left. \<open>clock n\<close> is the \<open>n\<close>-th reading of the wall
  clock during the call.
\<close>

record 'c symbols_state =
  st_sources :: source_registry
  st_cache :: "'c symbol_cache"
  st_limits :: limits

definition state_with_budgets :: "'c lru \<Rightarrow> u64 \<Rightarrow> nat \<Rightarrow> 'c symbols_state" where
  "state_with_budgets L max_bytes max_modules =
     \<lparr>st_sources = registry_new, st_cache = cache_new L max_bytes max_modules,
      st_limits = default_limits\<rparr>"

definition state_new :: "'c lru \<Rightarrow> 'c symbols_state" where
  "state_new L = state_with_budgets L DEFAULT_MAX_BYTES DEFAULT_MAX_MODULES"

section \<open>Sources\<close>

definition state_add_source ::
  "str \<Rightarrow> str option \<Rightarrow> str option \<Rightarrow> str option \<Rightarrow> bool option \<Rightarrow> str option \<Rightarrow> 'c symbols_state
     \<Rightarrow> (str + str) \<times> 'c symbols_state" where
  "state_add_source kind path url bucket enabled secret st =
     (let (res, rg) = registry_add kind path url bucket enabled secret (st_sources st)
      in (res, st\<lparr>st_sources := rg\<rparr>))"

definition state_list_sources :: "'c symbols_state \<Rightarrow> source_spec list" where
  "state_list_sources st = rg_sources (st_sources st)"

definition state_drop_source :: "str \<Rightarrow> 'c symbols_state \<Rightarrow> bool \<times> 'c symbols_state" where
  "state_drop_source source_id st =
     (let (removed, rg) = registry_drop source_id (st_sources st)
      in (removed, st\<lparr>st_sources := rg\<rparr>))"

section \<open>Resolution\<close>

definition ensure_resident ::
  "'c lru \<Rightarrow> crates \<Rightarrow> world \<Rightarrow> u64 \<Rightarrow> str \<Rightarrow> 'c symbols_state
     \<Rightarrow> (error_kind + bool) outcome \<times> 'c symbols_state" where
  "ensure_resident L K W now token st =
     (if is_resident L (st_cache st) token then (Returned (Inr True), st)
      else if is_known_miss (st_cache st) token then (Returned (Inr False), st)
      else case locate W K token (st_sources st) of
        (rg, Panicked) \<Rightarrow> (Panicked, st\<lparr>st_sources := rg\<rparr>)
      | (rg, Returned (Some loc)) \<Rightarrow>
          (case parse_module K (lc_data loc) (lc_name loc) (st_limits st) of
             Inr module \<Rightarrow>
               (Returned (Inr True),
                st\<lparr>st_sources := rg,
                   st_cache := snd (cache_insert L now module (lc_origin loc) (st_cache st))\<rparr>)
           | Inl e \<Rightarrow> (Returned (Inl (se_kind e)), st\<lparr>st_sources := rg\<rparr>))
      | (rg, Returned None) \<Rightarrow>
          (Returned (Inr False),
           st\<lparr>st_sources := rg, st_cache := record_miss now token (st_cache st)\<rparr>))"

definition state_resolve ::
  "'c lru \<Rightarrow> crates \<Rightarrow> world \<Rightarrow> (nat \<Rightarrow> u64) \<Rightarrow> str \<Rightarrow> u64 \<Rightarrow> 'c symbols_state
     \<Rightarrow> resolved_frame list outcome \<times> 'c symbols_state" where
  "state_resolve L K W clock token addr st =
     (case cache_resolve L K (clock 0) token addr (st_limits st) (st_cache st) of
        (Some frames, c) \<Rightarrow> (Returned frames, st\<lparr>st_cache := c\<rparr>)
      | (None, c) \<Rightarrow>
          (case ensure_resident L K W (clock 0) token (st\<lparr>st_cache := c\<rparr>) of
             (Panicked, st1) \<Rightarrow> (Panicked, st1)
           | (Returned (Inr True), st1) \<Rightarrow>
               (case cache_resolve L K (clock 1) token addr (st_limits st1) (st_cache st1) of
                  (found, c1) \<Rightarrow>
                    (Returned (case found of Some frames \<Rightarrow> frames | None \<Rightarrow> [not_found_frame]),
                     st1\<lparr>st_cache := c1\<rparr>))
           | (Returned (Inr False), st1) \<Rightarrow> (Returned [not_found_frame], st1)
           | (Returned (Inl kind), st1) \<Rightarrow> (Returned [error_frame kind None], st1)))"

definition state_function_name ::
  "'c lru \<Rightarrow> crates \<Rightarrow> world \<Rightarrow> (nat \<Rightarrow> u64) \<Rightarrow> str \<Rightarrow> u64 \<Rightarrow> 'c symbols_state
     \<Rightarrow> str option outcome \<times> 'c symbols_state" where
  "state_function_name L K W clock token addr st =
     (case cache_function_name L K (clock 0) token addr (st_cache st) of
        (Some name, c) \<Rightarrow> (Returned name, st\<lparr>st_cache := c\<rparr>)
      | (None, c) \<Rightarrow>
          (case ensure_resident L K W (clock 0) token (st\<lparr>st_cache := c\<rparr>) of
             (Panicked, st1) \<Rightarrow> (Panicked, st1)
           | (Returned (Inr True), st1) \<Rightarrow>
               (case cache_function_name L K (clock 1) token addr (st_cache st1) of
                  (found, c1) \<Rightarrow> (Returned (Option.bind found id), st1\<lparr>st_cache := c1\<rparr>))
           | (Returned _, st1) \<Rightarrow> (Returned None, st1)))"

section \<open>Triage, observability and the manifest\<close>

definition state_module_info_blob ::
  "crates \<Rightarrow> bytes \<Rightarrow> 'c symbols_state \<Rightarrow> module_info sym_result" where
  "state_module_info_blob K data st = inspect K data ''<blob>'' (st_limits st)"

definition state_module_info_path ::
  "crates \<Rightarrow> world \<Rightarrow> str \<Rightarrow> 'c symbols_state \<Rightarrow> module_info sym_result" where
  "state_module_info_path K W path st =
     (case w_read W path of
        Inl e \<Rightarrow> Inl (sym_error_new Truncated (''read '' @ path @ '': '' @ e))
      | Inr data \<Rightarrow>
          inspect K data (case file_name path of Some n \<Rightarrow> utf8_lossy n | None \<Rightarrow> path) (st_limits st))"

definition state_cache_status :: "'c lru \<Rightarrow> 'c symbols_state \<Rightarrow> status_row list" where
  "state_cache_status L st = cache_status L (st_cache st)"

definition state_cache_evict ::
  "'c lru \<Rightarrow> str option \<Rightarrow> 'c symbols_state \<Rightarrow> i64 \<times> 'c symbols_state" where
  "state_cache_evict L token st =
     (let (freed, c) = cache_evict L token (st_cache st) in (freed, st\<lparr>st_cache := c\<rparr>))"

definition state_parse_count :: "'c symbols_state \<Rightarrow> u64" where
  "state_parse_count st = sc_parse_count (st_cache st)"

definition export_manifest ::
  "'c lru \<Rightarrow> 'c symbols_state \<Rightarrow> cache_manifest \<times> 'c symbols_state" where
  "export_manifest L st =
     (let (m, c) = to_manifest L (rg_sources (st_sources st)) (st_cache st)
      in (m, st\<lparr>st_cache := c\<rparr>))"

definition import_manifest :: "cache_manifest \<Rightarrow> 'c symbols_state \<Rightarrow> 'c symbols_state" where
  "import_manifest m st =
     st\<lparr>st_sources := restore (cm_sources m) (st_sources st), st_cache := rehydrate m (st_cache st)\<rparr>"

section \<open>The branches of one resolution\<close>

lemma ensure_resident_cases:
  obtains (resident) "is_resident L (st_cache st) token"
      "ensure_resident L K W now token st = (Returned (Inr True), st)"
  | (known_miss) "\<not> is_resident L (st_cache st) token" "is_known_miss (st_cache st) token"
      "ensure_resident L K W now token st = (Returned (Inr False), st)"
  | (panicked) rg where "\<not> is_resident L (st_cache st) token" "\<not> is_known_miss (st_cache st) token"
      "locate W K token (st_sources st) = (rg, Panicked)"
      "ensure_resident L K W now token st = (Panicked, st\<lparr>st_sources := rg\<rparr>)"
  | (missing) rg where "\<not> is_resident L (st_cache st) token" "\<not> is_known_miss (st_cache st) token"
      "locate W K token (st_sources st) = (rg, Returned None)"
      "ensure_resident L K W now token st = (Returned (Inr False),
         st\<lparr>st_sources := rg, st_cache := record_miss now token (st_cache st)\<rparr>)"
  | (malformed) rg loc e where "\<not> is_resident L (st_cache st) token"
      "\<not> is_known_miss (st_cache st) token"
      "locate W K token (st_sources st) = (rg, Returned (Some loc))"
      "parse_module K (lc_data loc) (lc_name loc) (st_limits st) = Inl e"
      "ensure_resident L K W now token st =
         (Returned (Inl (se_kind e)), st\<lparr>st_sources := rg\<rparr>)"
  | (parsed) rg loc m where "\<not> is_resident L (st_cache st) token"
      "\<not> is_known_miss (st_cache st) token"
      "locate W K token (st_sources st) = (rg, Returned (Some loc))"
      "parse_module K (lc_data loc) (lc_name loc) (st_limits st) = Inr m"
      "ensure_resident L K W now token st = (Returned (Inr True),
         st\<lparr>st_sources := rg,
            st_cache := snd (cache_insert L now m (lc_origin loc) (st_cache st))\<rparr>)"
proof -
  obtain rg o' where l: "locate W K token (st_sources st) = (rg, o')"
    by (cases "locate W K token (st_sources st)")
  show thesis
  proof (cases "is_resident L (st_cache st) token")
    case True
    then show thesis by (intro resident) (simp_all add: ensure_resident_def)
  next
    case absent: False
    show thesis
    proof (cases "is_known_miss (st_cache st) token")
      case True
      with absent show thesis by (intro known_miss) (simp_all add: ensure_resident_def)
    next
      case False
      show thesis
      proof (cases o')
        case Panicked
        with l absent False show thesis by (intro panicked) (simp_all add: ensure_resident_def)
      next
        case (Returned x)
        show thesis
        proof (cases x)
          case None
          with l absent False Returned show thesis by (intro missing) (simp_all add: ensure_resident_def)
        next
          case (Some loc)
          show thesis
          proof (cases "parse_module K (lc_data loc) (lc_name loc) (st_limits st)")
            case (Inl e)
            with l absent False Returned Some show thesis
              by (intro malformed) (simp_all add: ensure_resident_def)
          next
            case (Inr m)
            with l absent False Returned Some show thesis
              by (intro parsed) (simp_all add: ensure_resident_def)
          qed
        qed
      qed
    qed
  qed
qed

section \<open>The invariant of the state\<close>

definition state_inv :: "'c lru \<Rightarrow> world \<Rightarrow> crates \<Rightarrow> 'c symbols_state \<Rightarrow> bool" where
  "state_inv L W K st \<longleftrightarrow> cache_inv L (st_cache st) \<and> ids_ok (st_sources st) \<and>
     index_ok W K (st_sources st)"

context resident_lru
begin

lemma cache_step_keeps:
  "cache_inv L s \<Longrightarrow> cache_inv L (snd (cache_insert L now m og s))"
  "cache_inv L s \<Longrightarrow> cache_inv L (record_miss now t s)"
  using cache_step_inv [of s undefined "DoInsert now m og"] cache_step_inv [of s undefined "DoRecordMiss now t"]
  by simp_all

lemma ensure_resident_inv:
  assumes "state_inv L W K st" "ensure_resident L K W now token st = (o', st')"
  shows "state_inv L W K st'"
proof -
  note inv = assms(1) [unfolded state_inv_def]
  have located: "ids_ok rg \<and> index_ok W K rg" if "locate W K token (st_sources st) = (rg, x)" for rg x
    using locate_ok [OF _ _ that] inv by blast
  show ?thesis
    by (cases rule: ensure_resident_cases [of L st token K W now])
      (use assms(2) inv in \<open>auto simp: state_inv_def cache_step_keeps dest!: located\<close>)
qed

lemma state_resolve_inv:
  assumes "state_inv L W K st"
  shows "state_inv L W K (snd (state_resolve L K W clock token addr st))"
proof -
  obtain r0 c0 where c0: "cache_resolve L K (clock 0) token addr (st_limits st) (st_cache st) = (r0, c0)"
    by (cases "cache_resolve L K (clock 0) token addr (st_limits st) (st_cache st)")
  have inv0: "state_inv L W K (st\<lparr>st_cache := c0\<rparr>)"
    using assms cache_inv_resolve [of "st_cache st" K "clock 0" token addr "st_limits st"] c0
    by (simp add: state_inv_def)
  obtain o1 st1 where e: "ensure_resident L K W (clock 0) token (st\<lparr>st_cache := c0\<rparr>) = (o1, st1)"
    by (cases "ensure_resident L K W (clock 0) token (st\<lparr>st_cache := c0\<rparr>)")
  have inv1: "state_inv L W K st1" by (rule ensure_resident_inv [OF inv0 e])
  then have "state_inv L W K (st1\<lparr>st_cache := snd (cache_resolve L K (clock 1) token addr (st_limits st1) (st_cache st1))\<rparr>)"
    using cache_inv_resolve by (simp add: state_inv_def)
  with c0 e inv0 inv1 show ?thesis
    by (auto simp: state_resolve_def split: option.splits outcome.splits sum.splits bool.splits prod.splits)
qed

lemma state_function_name_inv:
  assumes "state_inv L W K st"
  shows "state_inv L W K (snd (state_function_name L K W clock token addr st))"
proof -
  obtain r0 c0 where c0: "cache_function_name L K (clock 0) token addr (st_cache st) = (r0, c0)"
    by (cases "cache_function_name L K (clock 0) token addr (st_cache st)")
  have inv0: "state_inv L W K (st\<lparr>st_cache := c0\<rparr>)"
    using assms cache_inv_function_name [of "st_cache st" K "clock 0" token addr] c0
    by (simp add: state_inv_def)
  obtain o1 st1 where e: "ensure_resident L K W (clock 0) token (st\<lparr>st_cache := c0\<rparr>) = (o1, st1)"
    by (cases "ensure_resident L K W (clock 0) token (st\<lparr>st_cache := c0\<rparr>)")
  have inv1: "state_inv L W K st1" by (rule ensure_resident_inv [OF inv0 e])
  then have "state_inv L W K (st1\<lparr>st_cache := snd (cache_function_name L K (clock 1) token addr (st_cache st1))\<rparr>)"
    using cache_inv_function_name by (simp add: state_inv_def)
  with c0 e inv0 inv1 show ?thesis
    by (auto simp: state_function_name_def split: option.splits outcome.splits sum.splits bool.splits prod.splits)
qed

end

section \<open>Runs\<close>

datatype state_op =
    OpAddSource str "str option" "str option" "str option" "bool option" "str option"
  | OpDropSource str
  | OpResolve "nat \<Rightarrow> u64" str u64
  | OpFunctionName "nat \<Rightarrow> u64" str u64
  | OpEvict "str option"
  | OpExport
  | OpImport cache_manifest

fun state_step ::
  "'c lru \<Rightarrow> crates \<Rightarrow> world \<Rightarrow> state_op \<Rightarrow> 'c symbols_state \<Rightarrow> 'c symbols_state" where
  "state_step L K W (OpAddSource kind path url bucket enabled secret) st =
     snd (state_add_source kind path url bucket enabled secret st)"
| "state_step L K W (OpDropSource source_id) st = snd (state_drop_source source_id st)"
| "state_step L K W (OpResolve clock token addr) st = snd (state_resolve L K W clock token addr st)"
| "state_step L K W (OpFunctionName clock token addr) st =
     snd (state_function_name L K W clock token addr st)"
| "state_step L K W (OpEvict token) st = snd (state_cache_evict L token st)"
| "state_step L K W OpExport st = snd (export_manifest L st)"
| "state_step L K W (OpImport m) st = import_manifest m st"

text \<open>
  The steps the invariant covers: the counter of source ids has not reached its end, and a
  manifest that is imported lists distinct ids, none of them the last 64-bit number.
\<close>

definition manifest_ids_ok :: "cache_manifest \<Rightarrow> bool" where
  "manifest_ids_ok m \<longleftrightarrow> distinct (map ss_source_id (cm_sources m)) \<and>
     list_all (\<lambda>s. restored_id (ss_source_id s) \<noteq> Some (- 1)) (cm_sources m)"

fun op_allowed :: "state_op \<Rightarrow> 'c symbols_state \<Rightarrow> bool" where
  "op_allowed (OpAddSource _ _ _ _ _ _) st = (rg_next_id (st_sources st) \<noteq> - 1)"
| "op_allowed (OpImport m) st = manifest_ids_ok m"
| "op_allowed _ st = True"

text \<open>A manifest that lists the sources of a registry in order can be imported.\<close>

lemma ids_ok_manifest:
  assumes "ids_ok r" "cm_sources m = rg_sources r"
  shows "manifest_ids_ok m"
proof -
  have "restored_id (ss_source_id s) \<noteq> Some (- 1)" if "s \<in> set (rg_sources r)" for s
  proof
    assume "restored_id (ss_source_id s) = Some (- 1)"
    with assms(1) that have "- 1 < rg_next_id r" by (auto simp: ids_ok_def list_all_iff)
    then show False by (metis not_less_iff_gr_or_eq word_n1_ge word_le_less_eq)
  qed
  with assms show ?thesis by (auto simp: manifest_ids_ok_def ids_ok_def list_all_iff)
qed

inductive reachable :: "'c lru \<Rightarrow> crates \<Rightarrow> world \<Rightarrow> 'c symbols_state \<Rightarrow> bool" for L K W where
  start: "reachable L K W (state_with_budgets L max_bytes max_modules)"
| step: "reachable L K W st \<Longrightarrow> op_allowed oper st \<Longrightarrow> reachable L K W (state_step L K W oper st)"

inductive_cases reachableE: "reachable L K W st"

context resident_lru
begin

lemma state_step_inv:
  assumes "state_inv L W K st" "op_allowed oper st"
  shows "state_inv L W K (state_step L K W oper st)"
proof (cases oper)
  case (OpAddSource kind path url bucket enabled secret)
  define r where "r = st_sources st"
  have inv: "cache_inv L (st_cache st)" "ids_ok r" "index_ok W K r" "rg_next_id r \<noteq> - 1"
    using assms OpAddSource by (simp_all add: state_inv_def r_def)
  obtain res rg where a: "registry_add kind path url bucket enabled secret r = (res, rg)"
    by (cases "registry_add kind path url bucket enabled secret r")
  have "ids_ok rg"
  proof (cases res)
    case (Inl e)
    with a have "rg = r" by (auto simp: registry_add_def Let_def split: option.splits)
    with inv show ?thesis by simp
  next
    case (Inr i)
    with registry_add_ok [OF inv(2,4)] a show ?thesis by blast
  qed
  moreover have "index_ok W K rg" using registry_add_index_ok [OF inv(2,3)] a by (metis snd_conv)
  ultimately show ?thesis
    using OpAddSource a inv(1) by (simp add: state_add_source_def state_inv_def r_def [symmetric])
next
  case (OpDropSource i)
  obtain b rg where d: "registry_drop i (st_sources st) = (b, rg)"
    by (cases "registry_drop i (st_sources st)")
  with assms(1) registry_drop_ok [OF _ _ d, of W K] OpDropSource show ?thesis
    by (simp add: state_drop_source_def state_inv_def)
next
  case (OpResolve clock token addr)
  with state_resolve_inv [OF assms(1)] show ?thesis by simp
next
  case (OpFunctionName clock token addr)
  with state_function_name_inv [OF assms(1)] show ?thesis by simp
next
  case (OpEvict token)
  with assms(1) cache_inv_evict [of "st_cache st" token] show ?thesis
    by (simp add: state_cache_evict_def state_inv_def case_prod_beta)
next
  case OpExport
  with assms(1) cache_inv_export [of "st_cache st"] show ?thesis
    by (simp add: export_manifest_def state_inv_def case_prod_beta)
next
  case (OpImport m)
  have "cache_inv L (rehydrate m (st_cache st))"
    using cache_step_inv [of "st_cache st" undefined "DoRehydrate m"] assms(1)
    by (simp add: state_inv_def)
  moreover have ids: "distinct (map ss_source_id (cm_sources m))"
      "list_all (\<lambda>s. restored_id (ss_source_id s) \<noteq> Some (- 1)) (cm_sources m)"
    using assms(2) OpImport by (simp_all add: manifest_ids_ok_def)
  ultimately show ?thesis
    unfolding OpImport using restore_ok(1,2) [OF ids]
    by (simp add: import_manifest_def state_inv_def)
qed

lemma state_new_inv: "state_inv L W K (state_with_budgets L max_bytes max_modules)"
  using cache_new_inv [OF lru_laws_axioms] registry_new_ok
  by (simp add: state_inv_def state_with_budgets_def)

lemma reachable_state_inv: "reachable L K W st \<Longrightarrow> state_inv L W K st"
  by (induction rule: reachable.induct) (simp_all add: state_new_inv state_step_inv)

end

end
