(* ===== verification/State_Spec.thy ===== *)
theory State_Spec
  imports Symbols_State
begin

text \<open>
  What one resolution answers, as one expression over the state before it: the resident
  module, else the negative cache, else the first source with a file for the token.
\<close>

definition located_module ::
  "crates \<Rightarrow> world \<Rightarrow> 'c symbols_state \<Rightarrow> str \<Rightarrow> (error_kind + parsed_module) option" where
  "located_module K W st token =
     (case locate_indexed W token (map_of (hits W K (local_sources (st_sources st)))) of
        None \<Rightarrow> None
      | Some loc \<Rightarrow> Some (case parse_module K (lc_data loc) (lc_name loc) (st_limits st) of
          Inl e \<Rightarrow> Inl (se_kind e)
        | Inr m \<Rightarrow> Inr m))"

definition module_for ::
  "'c lru \<Rightarrow> crates \<Rightarrow> world \<Rightarrow> 'c symbols_state \<Rightarrow> str \<Rightarrow> (error_kind + parsed_module) option" where
  "module_for L K W st token =
     (case resident_module L (st_cache st) token of
        Some m \<Rightarrow> Some (Inr m)
      | None \<Rightarrow> if is_known_miss (st_cache st) token then None else located_module K W st token)"

definition resolve_answer ::
  "'c lru \<Rightarrow> crates \<Rightarrow> world \<Rightarrow> 'c symbols_state \<Rightarrow> str \<Rightarrow> u64 \<Rightarrow> resolved_frame list" where
  "resolve_answer L K W st token addr =
     (case module_for L K W st token of
        None \<Rightarrow> [not_found_frame]
      | Some (Inl kind) \<Rightarrow> [error_frame kind None]
      | Some (Inr m) \<Rightarrow> parsed_resolve K m addr (st_limits st))"

definition function_answer ::
  "'c lru \<Rightarrow> crates \<Rightarrow> world \<Rightarrow> 'c symbols_state \<Rightarrow> str \<Rightarrow> u64 \<Rightarrow> str option" where
  "function_answer L K W st token addr =
     (case module_for L K W st token of
        Some (Inr m) \<Rightarrow> parsed_function_name K m addr
      | _ \<Rightarrow> None)"

lemma ensure_resident_limits: "st_limits (snd (ensure_resident L K W now token st)) = st_limits st"
  by (rule ensure_resident_cases [of L st token K W now]) simp_all

lemma state_resolve_limits: "st_limits (snd (state_resolve L K W clock token addr st)) = st_limits st"
proof -
  obtain r0 c0 where c0: "cache_resolve L K (clock 0) token addr (st_limits st) (st_cache st) = (r0, c0)"
    by (cases "cache_resolve L K (clock 0) token addr (st_limits st) (st_cache st)")
  show ?thesis
    using ensure_resident_limits [of L K W "clock 0" token "st\<lparr>st_cache := c0\<rparr>"] c0
    by (auto simp: state_resolve_def split: prod.splits option.splits outcome.splits sum.splits bool.splits)
qed

lemma state_function_name_limits:
  "st_limits (snd (state_function_name L K W clock token addr st)) = st_limits st"
proof -
  obtain r0 c0 where c0: "cache_function_name L K (clock 0) token addr (st_cache st) = (r0, c0)"
    by (cases "cache_function_name L K (clock 0) token addr (st_cache st)")
  show ?thesis
    using ensure_resident_limits [of L K W "clock 0" token "st\<lparr>st_cache := c0\<rparr>"] c0
    by (auto simp: state_function_name_def split: prod.splits option.splits outcome.splits sum.splits bool.splits)
qed

lemma state_step_limits: "st_limits (state_step L K W oper st) = st_limits st"
  by (cases oper)
    (simp_all add: state_add_source_def state_drop_source_def state_resolve_limits
      state_function_name_limits state_cache_evict_def export_manifest_def import_manifest_def
      case_prod_beta)

lemma reachable_limits: "reachable L K W st \<Longrightarrow> st_limits st = default_limits"
  by (induction rule: reachable.induct) (simp_all add: state_with_budgets_def state_step_limits)

context resident_lru
begin

lemma absent_lookup:
  assumes "resident_module L s t = None"
  shows "cache_resolve L K now t a lim s = (None, s)" "cache_function_name L K now t a s = (None, s)"
proof -
  have "\<not> is_resident L s t" using assms by (simp add: is_resident_module)
  then show "cache_resolve L K now t a lim s = (None, s)" "cache_function_name L K now t a s = (None, s)"
    using cache_resolve_cases [of s t K now a lim] cache_function_name_cases [of s t K now a]
    by (metis is_resident_iff option.simps(3))+
qed

lemma located_parsed:
  assumes "world_stable W" "locate_indexed W token (map_of (hits W K specs)) = Some loc"
    and "parse_module K (lc_data loc) (lc_name loc) lim = Inr m"
  shows "canonical_token token \<in> set (aliases (parsed_identity m))"
  using located_token [OF assms(1,2)] parse_module_identity(1) [OF assms(3)] by auto

lemma locate_answers:
  assumes "state_inv L W K st" "probes_return W K" "locate W K token (st_sources st) = (rg, x)"
  shows "x = Returned (locate_indexed W token (map_of (hits W K (local_sources (st_sources st)))))"
    "rg_sources rg = rg_sources (st_sources st)"
proof -
  have inv: "ids_ok (st_sources st)" "index_ok W K (st_sources st)"
    using assms(1) by (simp_all add: state_inv_def)
  show "x = Returned (locate_indexed W token (map_of (hits W K (local_sources (st_sources st)))))"
    "rg_sources rg = rg_sources (st_sources st)"
    using locate_ok [OF inv assms(3)] locate_returns [OF assms(2), of token "st_sources st"] assms(3)
    by simp_all
qed

text \<open>What \<open>ensure_resident\<close> does, given that the parsers do not panic on the indexed files.\<close>

lemma ensure_resident_spec:
  assumes "state_inv L W K st" "probes_return W K" "world_stable W"
    and "resident_module L (st_cache st) token = None"
    and "ensure_resident L K W now token st = (o', st')"
  shows "st_limits st' = st_limits st \<and>
    o' = Returned (case module_for L K W st token of
        None \<Rightarrow> Inr False | Some (Inl kind) \<Rightarrow> Inl kind | Some (Inr m) \<Rightarrow> Inr True) \<and>
    resident_module L (st_cache st') token =
      (case module_for L K W st token of Some (Inr m) \<Rightarrow> Some m | _ \<Rightarrow> None)"
proof -
  have inv: "cache_inv L (st_cache st)" using assms(1) by (simp add: state_inv_def)
  have absent: "\<not> is_resident L (st_cache st) token"
    using assms(4) by (simp add: is_resident_module)
  note located = locate_answers(1) [OF assms(1,2)]
  show ?thesis
  proof (cases rule: ensure_resident_cases [of L st token K W now])
    case resident
    with absent show ?thesis by simp
  next
    case known_miss
    with assms(4,5) show ?thesis by (simp add: module_for_def)
  next
    case (panicked rg)
    with located [OF panicked(3)] show ?thesis by simp
  next
    case (missing rg)
    with located [OF missing(3)] assms(4,5) show ?thesis
      by (auto simp: module_for_def located_module_def record_miss_module [OF inv])
  next
    case (malformed rg loc e)
    have "locate_indexed W token (map_of (hits W K (local_sources (st_sources st)))) = Some loc"
      using located [OF malformed(3)] by simp
    with malformed assms(4) have "module_for L K W st token = Some (Inl (se_kind e))"
      by (simp add: module_for_def located_module_def)
    with malformed assms(4,5) show ?thesis by auto
  next
    case (parsed rg loc m)
    have at: "locate_indexed W token (map_of (hits W K (local_sources (st_sources st)))) = Some loc"
      using located [OF parsed(3)] by simp
    note inserted = cache_insert_module [OF located_parsed [OF assms(3) this parsed(4)]]
    from parsed at assms(4) have "module_for L K W st token = Some (Inr m)"
      by (simp add: module_for_def located_module_def)
    with inserted parsed assms(5) show ?thesis by auto
  qed
qed

lemma state_resolve_spec:
  assumes "state_inv L W K st" "probes_return W K" "world_stable W"
  shows "fst (state_resolve L K W clock token addr st) = Returned (resolve_answer L K W st token addr) \<and>
    resident_module L (st_cache (snd (state_resolve L K W clock token addr st))) token =
      (case module_for L K W st token of Some (Inr m) \<Rightarrow> Some m | _ \<Rightarrow> None)"
proof (cases "resident_module L (st_cache st) token")
  case (Some m)
  obtain r c where c: "cache_resolve L K (clock 0) token addr (st_limits st) (st_cache st) = (r, c)"
    by (cases "cache_resolve L K (clock 0) token addr (st_limits st) (st_cache st)")
  with cache_resolve_spec [of K "clock 0" token addr "st_limits st" "st_cache st"] Some show ?thesis
    by (simp add: state_resolve_def resolve_answer_def module_for_def)
next
  case None
  note c = absent_lookup(1) [OF None, of K "clock 0" addr "st_limits st"]
  obtain o1 st1 where e: "ensure_resident L K W (clock 0) token st = (o1, st1)"
    by (cases "ensure_resident L K W (clock 0) token st")
  note spec = ensure_resident_spec [OF assms None e]
  obtain r c1 where c1: "cache_resolve L K (clock 1) token addr (st_limits st1) (st_cache st1) = (r, c1)"
    by (cases "cache_resolve L K (clock 1) token addr (st_limits st1) (st_cache st1)")
  with cache_resolve_spec [of K "clock 1" token addr "st_limits st1" "st_cache st1"]
  have r: "r = map_option (\<lambda>m. parsed_resolve K m addr (st_limits st1)) (resident_module L (st_cache st1) token)"
    "resident_module L c1 = resident_module L (st_cache st1)" by simp_all
  show ?thesis
    using spec c e c1 r
    by (auto simp: state_resolve_def resolve_answer_def split: option.splits sum.splits)
qed

lemma state_function_name_spec:
  assumes "state_inv L W K st" "probes_return W K" "world_stable W"
  shows "fst (state_function_name L K W clock token addr st) =
    Returned (function_answer L K W st token addr)"
proof (cases "resident_module L (st_cache st) token")
  case (Some m)
  obtain r c where c: "cache_function_name L K (clock 0) token addr (st_cache st) = (r, c)"
    by (cases "cache_function_name L K (clock 0) token addr (st_cache st)")
  with cache_function_name_spec [of K "clock 0" token addr "st_cache st"] Some show ?thesis
    by (simp add: state_function_name_def function_answer_def module_for_def)
next
  case None
  note c = absent_lookup(2) [OF None, of K "clock 0" addr]
  obtain o1 st1 where e: "ensure_resident L K W (clock 0) token st = (o1, st1)"
    by (cases "ensure_resident L K W (clock 0) token st")
  note spec = ensure_resident_spec [OF assms None e]
  obtain r c1 where c1: "cache_function_name L K (clock 1) token addr (st_cache st1) = (r, c1)"
    by (cases "cache_function_name L K (clock 1) token addr (st_cache st1)")
  with cache_function_name_spec [of K "clock 1" token addr "st_cache st1"]
  have "r = map_option (\<lambda>m. parsed_function_name K m addr) (resident_module L (st_cache st1) token)"
    by simp
  then show ?thesis
    using spec c e c1
    by (auto simp: state_function_name_def function_answer_def split: option.splits sum.splits)
qed

text \<open>A token that is a known miss and not resident: the state answers and stays as it is.\<close>

lemma known_miss_stays:
  assumes "resident_module L (st_cache st) token = None" "is_known_miss (st_cache st) token"
  shows "state_resolve L K W clock token addr st = (Returned [not_found_frame], st)"
    "state_function_name L K W clock token addr st = (Returned None, st)"
proof -
  have "ensure_resident L K W (clock 0) token st = (Returned (Inr False), st)"
    using assms by (simp add: ensure_resident_def is_resident_module)
  then show "state_resolve L K W clock token addr st = (Returned [not_found_frame], st)"
    "state_function_name L K W clock token addr st = (Returned None, st)"
    by (simp_all add: state_resolve_def state_function_name_def absent_lookup [OF assms(1)])
qed

lemma resident_stays:
  assumes "resident_module L (st_cache st) token = Some m"
  shows "fst (state_resolve L K W clock token addr st) = Returned (parsed_resolve K m addr (st_limits st))"
    "state_parse_count (snd (state_resolve L K W clock token addr st)) = state_parse_count st"
    "st_sources (snd (state_resolve L K W clock token addr st)) = st_sources st"
    "resident_module L (st_cache (snd (state_resolve L K W clock token addr st))) =
       resident_module L (st_cache st)"
proof -
  obtain r c where c: "cache_resolve L K (clock 0) token addr (st_limits st) (st_cache st) = (r, c)"
    by (cases "cache_resolve L K (clock 0) token addr (st_limits st) (st_cache st)")
  have spec: "r = Some (parsed_resolve K m addr (st_limits st))"
    "resident_module L c = resident_module L (st_cache st)"
    using cache_resolve_spec [of K "clock 0" token addr "st_limits st" "st_cache st"] c assms by simp_all
  have count: "sc_parse_count c = sc_parse_count (st_cache st)"
    using cache_step_parses [of K "DoResolve (clock 0) token addr (st_limits st)" "st_cache st"] c
    by (simp add: is_insert_def)
  show "fst (state_resolve L K W clock token addr st) = Returned (parsed_resolve K m addr (st_limits st))"
    "state_parse_count (snd (state_resolve L K W clock token addr st)) = state_parse_count st"
    "st_sources (snd (state_resolve L K W clock token addr st)) = st_sources st"
    "resident_module L (st_cache (snd (state_resolve L K W clock token addr st))) =
       resident_module L (st_cache st)"
    using c spec count by (simp_all add: state_resolve_def state_parse_count_def)
qed

end

end
