(* ===== verification/Columns.thy ===== *)
theory Columns
  imports Frames
begin

text \<open>
  \<^verbatim>\<open>crates/symbols-worker/src/util.rs\<close> and the reading of arguments: an Arrow input column is a
  value of the datatype \<open>column\<close>, the arguments of a call are the record of what the methods of
  the \<^verbatim>\<open>vgi\<close> crate's \<^verbatim>\<open>Arguments\<close> return.
\<close>

section \<open>Input columns\<close>

datatype column =
    Utf8 "str option list"
  | LargeUtf8 "str option list"
  | Binary "bytes option list"
  | LargeBinary "bytes option list"
  | UInt64 "u64 option list"
  | Int64 "i64 option list"
  | UInt32 "u32 option list"
  | Int32 "i32 option list"
  | OtherColumn str "bool list"  \<comment> \<open>another type by its \<^verbatim>\<open>Debug\<close> name, and which cells are null\<close>

fun data_type_name :: "column \<Rightarrow> str" where
  "data_type_name (Utf8 _) = ''Utf8''"
| "data_type_name (LargeUtf8 _) = ''LargeUtf8''"
| "data_type_name (Binary _) = ''Binary''"
| "data_type_name (LargeBinary _) = ''LargeBinary''"
| "data_type_name (UInt64 _) = ''UInt64''"
| "data_type_name (Int64 _) = ''Int64''"
| "data_type_name (UInt32 _) = ''UInt32''"
| "data_type_name (Int32 _) = ''Int32''"
| "data_type_name (OtherColumn n _) = n"

definition build_id_at :: "column \<Rightarrow> nat \<Rightarrow> str option" where
  "build_id_at col i =
     (case col of Utf8 xs \<Rightarrow> xs ! i | LargeUtf8 xs \<Rightarrow> xs ! i | _ \<Rightarrow> None)"

definition address_at :: "column \<Rightarrow> nat \<Rightarrow> u64 option" where
  "address_at col i =
     (case col of
        UInt64 xs \<Rightarrow> xs ! i
      | Int64 xs \<Rightarrow> xs ! i
      | UInt32 xs \<Rightarrow> map_option ucast (xs ! i)
      | Int32 xs \<Rightarrow> map_option scast (xs ! i)
      | _ \<Rightarrow> None)"

section \<open>Arguments and errors\<close>

record vgi_args =
  va_const_str :: "nat \<Rightarrow> str option"   \<comment> \<open>\<^verbatim>\<open>const_str(pos)\<close>\<close>
  va_named_str :: "str \<Rightarrow> str option"
  va_named_bool :: "str \<Rightarrow> bool option"
  va_arg :: "nat \<Rightarrow> column option"

datatype rpc_error = ValueError str | TypeError str | RuntimeError str

definition const_blob :: "vgi_args \<Rightarrow> nat \<Rightarrow> bytes option" where
  "const_blob args pos =
     (case va_arg args pos of
        Some (Binary (Some b # _)) \<Rightarrow> Some b
      | Some (LargeBinary (Some b # _)) \<Rightarrow> Some b
      | Some (Utf8 (Some s # _)) \<Rightarrow> Some (map of_char s)
      | Some (LargeUtf8 (Some s # _)) \<Rightarrow> Some (map of_char s)
      | _ \<Rightarrow> None)"

definition flag_arg :: "vgi_args \<Rightarrow> str \<Rightarrow> bool" where
  "flag_arg args name = (case va_named_bool args name of Some b \<Rightarrow> b | None \<Rightarrow> False)"

definition ok_option :: "'e + 'a \<Rightarrow> 'a option" where
  "ok_option r = (case r of Inr x \<Rightarrow> Some x | Inl _ \<Rightarrow> None)"

end
