(* ===== verification/Arrow_Output.thy ===== *)
theory Arrow_Output
  imports Columns
begin

text \<open>
  The Arrow values the worker builds, and \<^verbatim>\<open>crates/symbols-worker/src/schema.rs\<close>. An array is its
  data type with its cells. The Arrow crates are a parameter: \<open>arrow\<close> holds the operations that
  assemble a batch, and \<open>arrow_documented\<close> is what their documentation says of inputs that
  conform to the schema.
\<close>

section \<open>Types, cells and arrays\<close>

datatype data_type =
    DUtf8 | DInt32 | DInt64 | DUInt64 | DBoolean
  | DTimestampUs str           \<comment> \<open>microseconds, with the time zone\<close>
  | DList field
  | DStruct "field list"
and field = Field str data_type bool   \<comment> \<open>name, type, nullable\<close>

datatype cell =
    Null
  | StrCell str
  | I32Cell i32
  | I64Cell i64
  | U64Cell u64
  | BoolCell bool
  | ListCell "cell list"
  | StructCell "cell list"

type_synonym array = "data_type \<times> cell list"

definition opt_cell :: "('a \<Rightarrow> cell) \<Rightarrow> 'a option \<Rightarrow> cell" where
  "opt_cell f x = (case x of Some y \<Rightarrow> f y | None \<Rightarrow> Null)"

fun cell_fits :: "data_type \<Rightarrow> cell \<Rightarrow> bool" and cells_fit :: "field list \<Rightarrow> cell list \<Rightarrow> bool" where
  "cell_fits t Null = True"
| "cell_fits DUtf8 (StrCell s) = True"
| "cell_fits DInt32 (I32Cell i) = True"
| "cell_fits DInt64 (I64Cell i) = True"
| "cell_fits DUInt64 (U64Cell i) = True"
| "cell_fits DBoolean (BoolCell b) = True"
| "cell_fits (DTimestampUs tz) (I64Cell i) = True"
| "cell_fits (DList (Field n t nullable)) (ListCell cs) =
     list_all (\<lambda>c. cell_fits t c \<and> (nullable \<or> c \<noteq> Null)) cs"
| "cell_fits (DStruct fs) (StructCell cs) = cells_fit fs cs"
| "cell_fits t c = False"
| "cells_fit [] [] = True"
| "cells_fit (Field n t nullable # fs) (c # cs) =
     (cell_fits t c \<and> (nullable \<or> c \<noteq> Null) \<and> cells_fit fs cs)"
| "cells_fit fs cs = False"

fun column_fits :: "nat \<Rightarrow> field \<Rightarrow> array \<Rightarrow> bool" where
  "column_fits rows (Field n t nullable) (t', cs) \<longleftrightarrow> t' = t \<and> length cs = rows \<and>
     list_all (\<lambda>c. cell_fits t c \<and> (nullable \<or> c \<noteq> Null)) cs"

definition conforming :: "field list \<Rightarrow> array list \<Rightarrow> nat \<Rightarrow> bool" where
  "conforming schema cols rows \<longleftrightarrow> schema \<noteq> [] \<and> list_all2 (column_fits rows) schema cols"

section \<open>The crates\<close>

record 'b arrow =
  aw_try_new :: "field list \<Rightarrow> array list \<Rightarrow> str + 'b"   \<comment> \<open>\<^verbatim>\<open>RecordBatch::try_new\<close>\<close>
  aw_struct_from :: "(field \<times> array) list \<Rightarrow> array outcome"  \<comment> \<open>\<^verbatim>\<open>StructArray::from\<close>\<close>
  aw_columns :: "'b \<Rightarrow> array list"   \<comment> \<open>\<^verbatim>\<open>RecordBatch::columns\<close>\<close>
  aw_list_item :: "str \<times> bool"  \<comment> \<open>the item field \<^verbatim>\<open>ListBuilder::new\<close> makes\<close>

definition struct_rows :: "nat \<Rightarrow> array list \<Rightarrow> cell list" where
  "struct_rows rows cols = map (\<lambda>i. StructCell (map (\<lambda>(t, cs). cs ! i) cols)) [0..<rows]"

text \<open>
  \<^verbatim>\<open>try_new\<close> fails when the number of columns, a type or a length does not match, or when a
  column that may not be null has a null, else the batch has the columns given; \<^verbatim>\<open>StructArray::from\<close> panics in the same cases and
  else zips its columns; the item of a built list is called \<^verbatim>\<open>item\<close> and may be null.
\<close>

definition arrow_documented :: "'b arrow \<Rightarrow> bool" where
  "arrow_documented A \<longleftrightarrow>
     (\<forall>schema cols rows. conforming schema cols rows \<longrightarrow>
        (\<exists>b. aw_try_new A schema cols = Inr b \<and> aw_columns A b = cols)) \<and>
     (\<forall>pairs rows. conforming (map fst pairs) (map snd pairs) rows \<longrightarrow>
        aw_struct_from A pairs = Returned (DStruct (map fst pairs), struct_rows rows (map snd pairs))) \<and>
     aw_list_item A = (''item'', True)"

definition try_new :: "'b arrow \<Rightarrow> field list \<Rightarrow> array list \<Rightarrow> rpc_error + 'b" where
  "try_new A schema cols =
     (case aw_try_new A schema cols of Inl e \<Rightarrow> Inl (RuntimeError e) | Inr b \<Rightarrow> Inr b)"

section \<open>The shapes of \<^verbatim>\<open>schema.rs\<close>\<close>

type_synonym inline_cell = "str option \<times> str option \<times> i32 option"

definition inline_struct_fields :: "field list" where
  "inline_struct_fields =
     [Field ''function'' DUtf8 True, Field ''file'' DUtf8 True, Field ''line'' DInt32 True]"

definition inline_frames_list_type :: data_type where
  "inline_frames_list_type = DList (Field ''item'' (DStruct inline_struct_fields) True)"

definition symbolicate_struct_type :: data_type where
  "symbolicate_struct_type = DStruct
     [Field ''function'' DUtf8 True, Field ''file'' DUtf8 True, Field ''line'' DInt32 True,
      Field ''inlined'' (DList (Field ''item'' (DStruct inline_struct_fields) True)) True,
      Field ''module'' DUtf8 True, Field ''debug_id'' DUtf8 True, Field ''status'' DUtf8 False]"

definition inline_struct_cell :: "inline_cell \<Rightarrow> cell" where
  "inline_struct_cell c =
     (case c of (func, file, line) \<Rightarrow>
        StructCell [opt_cell StrCell func, opt_cell StrCell file, opt_cell I32Cell line])"

definition build_inline_list :: "'b arrow \<Rightarrow> inline_cell list list \<Rightarrow> array" where
  "build_inline_list A per_row =
     (let struct_fields = [Field ''function'' DUtf8 True, Field ''file'' DUtf8 True,
            Field ''line'' DInt32 True];
          (item, nullable) = aw_list_item A
      in (DList (Field item (DStruct struct_fields) nullable),
          map (\<lambda>chain. ListCell (map inline_struct_cell chain)) per_row))"

definition struct_array :: "'b arrow \<Rightarrow> (field \<times> array) list \<Rightarrow> array outcome" where
  "struct_array A pairs = aw_struct_from A pairs"

section \<open>Columns that fit\<close>

named_theorems arrow_simps

lemma opt_cell_fits [arrow_simps]:
  "cell_fits DUtf8 (opt_cell StrCell x)" "cell_fits DInt32 (opt_cell I32Cell i)"
  "cell_fits (DTimestampUs tz) (opt_cell I64Cell j)"
  by (simp_all add: opt_cell_def split: option.split)

lemma conforming_simps [arrow_simps]:
  "conforming (f # fs) (c # cs) rows \<longleftrightarrow>
     column_fits rows f c \<and> (fs = [] \<and> cs = [] \<or> conforming fs cs rows)"
  "\<not> conforming [] cols rows" "\<not> conforming schema [] rows"
  by (auto simp: conforming_def list_all2_Nil2)

lemma inline_struct_cell_fits [arrow_simps]:
  "cell_fits (DStruct inline_struct_fields) (inline_struct_cell c)" "inline_struct_cell c \<noteq> Null"
  by (simp_all add: inline_struct_cell_def inline_struct_fields_def opt_cell_fits split: prod.split)

lemma try_new_conforming:
  "arrow_documented A \<Longrightarrow> conforming schema cols rows \<Longrightarrow>
     \<exists>b. try_new A schema cols = Inr b \<and> aw_columns A b = cols"
  unfolding arrow_documented_def try_new_def by (metis sum.simps(6))

lemma build_inline_list_eq:
  "arrow_documented A \<Longrightarrow> build_inline_list A per_row =
     (inline_frames_list_type, map (\<lambda>chain. ListCell (map inline_struct_cell chain)) per_row)"
  by (simp add: arrow_documented_def build_inline_list_def inline_frames_list_type_def
      inline_struct_fields_def)

lemma inline_list_fits [arrow_simps]:
  "column_fits (length per_row) (Field n inline_frames_list_type nullable)
     (inline_frames_list_type, map (\<lambda>chain. ListCell (map inline_struct_cell chain)) per_row)"
  by (simp add: inline_frames_list_type_def list_all_iff inline_struct_cell_fits)

lemma struct_row_fits:
  assumes "list_all2 (column_fits rows) fs cols" "i < rows"
  shows "cells_fit fs (map (\<lambda>(t, cs). cs ! i) cols)"
  using assms
proof (induction rule: list_all2_induct)
  case (Cons f fs c cols)
  obtain n t nullable where f: "f = Field n t nullable" by (cases f)
  obtain t' cs where c: "c = (t', cs)" by (cases c)
  from Cons show ?case by (simp add: f c list_all_length)
qed simp

lemma struct_rows_fit:
  "conforming fs cols rows \<Longrightarrow>
     column_fits rows (Field n (DStruct fs) nullable) (DStruct fs, struct_rows rows cols)"
  by (auto simp: conforming_def struct_rows_def list_all_iff struct_row_fits)

lemma struct_array_fits:
  assumes "arrow_documented A" "conforming (map fst pairs) (map snd pairs) rows"
  shows "\<exists>cells. struct_array A pairs = Returned (DStruct (map fst pairs), cells) \<and>
    column_fits rows (Field n (DStruct (map fst pairs)) nullable) (DStruct (map fst pairs), cells)"
proof -
  have "struct_array A pairs = Returned (DStruct (map fst pairs), struct_rows rows (map snd pairs))"
    using assms unfolding struct_array_def arrow_documented_def by blast
  then show ?thesis using struct_rows_fit [OF assms(2)] by blast
qed

end
