(* ===== verification/Scalar_Functions.thy ===== *)
theory Scalar_Functions
  imports State_Spec Arrow_Output
begin

text \<open>
  \<^verbatim>\<open>crates/symbols-worker/src/scalar\<close>: the scalar functions. The row loop of each reads the
  cells of a row, calls the shared state and keeps what the row's output cells are made of;
  \<^verbatim>\<open>process\<close> then assembles the batch under the output schema it was bound with.
\<close>

section \<open>The shared state and the row loop\<close>

text \<open>
  \<^verbatim>\<open>with_state\<close> runs a closure on the process-global state under its lock. A panic of the
  closure unwinds through it and poisons the lock; the next call recovers the state as it
  was left, so a call is a function from state to outcome and state.
\<close>

type_synonym ('c, 'a) state_fn = "'c symbols_state \<Rightarrow> 'a outcome \<times> 'c symbols_state"

fun for_rows ::
  "(nat \<Rightarrow> 'i \<Rightarrow> ('c, 'r) state_fn) \<Rightarrow> nat \<Rightarrow> 'i list \<Rightarrow> ('c, 'r list) state_fn" where
  "for_rows f i [] st = (Returned [], st)"
| "for_rows f i (x # xs) st =
     (case f i x st of
        (Panicked, st1) \<Rightarrow> (Panicked, st1)
      | (Returned r, st1) \<Rightarrow>
          (case for_rows f (Suc i) xs st1 of
             (Panicked, st2) \<Rightarrow> (Panicked, st2)
           | (Returned rs, st2) \<Rightarrow> (Returned (r # rs), st2)))"

definition frame_cells :: "column \<Rightarrow> column \<Rightarrow> nat \<Rightarrow> (str option \<times> u64 option) list" where
  "frame_cells build addr rows = map (\<lambda>i. (build_id_at build i, address_at addr i)) [0..<rows]"

definition row_frames ::
  "'c lru \<Rightarrow> crates \<Rightarrow> world \<Rightarrow> (nat \<Rightarrow> u64) \<Rightarrow> str option \<times> u64 option
     \<Rightarrow> ('c, resolved_frame list) state_fn" where
  "row_frames L K W clock cells st =
     (case cells of
        (Some b, Some a) \<Rightarrow> state_resolve L K W clock b a st
      | _ \<Rightarrow> (Returned [not_found_frame], st))"

section \<open>The rows\<close>

record symbolicate_row =
  sy_function :: "str option"
  sy_file :: "str option"
  sy_line :: "i32 option"
  sy_inlined :: "inline_cell list"
  sy_module :: "str option"
  sy_debug_id :: "str option"
  sy_status :: str

definition inline_chain :: "resolved_frame list \<Rightarrow> inline_cell list" where
  "inline_chain frames =
     map (\<lambda>f. (rf_function f, rf_file f, rf_line f)) (take (length frames - 1) frames)"

definition symbolicate_row_of :: "resolved_frame list \<Rightarrow> symbolicate_row" where
  "symbolicate_row_of frames =
     (let physical = (if frames = [] then not_found_frame else last frames) in
      \<lparr>sy_function = rf_function physical, sy_file = rf_file physical, sy_line = rf_line physical,
       sy_inlined = inline_chain frames, sy_module = rf_module physical,
       sy_debug_id = rf_debug_id physical, sy_status = as_status (rf_status physical)\<rparr>)"

definition map_fst_outcome :: "('a \<Rightarrow> 'b) \<Rightarrow> 'a outcome \<times> 's \<Rightarrow> 'b outcome \<times> 's" where
  "map_fst_outcome g p = (obind (fst p) (\<lambda>x. Returned (g x)), snd p)"

definition symbolicate ::
  "'c lru \<Rightarrow> crates \<Rightarrow> world \<Rightarrow> (nat \<Rightarrow> nat \<Rightarrow> u64) \<Rightarrow> column \<Rightarrow> column \<Rightarrow> nat
     \<Rightarrow> ('c, symbolicate_row list) state_fn" where
  "symbolicate L K W clock build addr rows =
     for_rows (\<lambda>i cells st. map_fst_outcome symbolicate_row_of (row_frames L K W (clock i) cells st))
       0 (frame_cells build addr rows)"

definition inline_frames ::
  "'c lru \<Rightarrow> crates \<Rightarrow> world \<Rightarrow> (nat \<Rightarrow> nat \<Rightarrow> u64) \<Rightarrow> column \<Rightarrow> column \<Rightarrow> nat
     \<Rightarrow> ('c, inline_cell list list) state_fn" where
  "inline_frames L K W clock build addr rows =
     for_rows (\<lambda>i cells st. map_fst_outcome inline_chain (row_frames L K W (clock i) cells st))
       0 (frame_cells build addr rows)"

definition row_function_name ::
  "'c lru \<Rightarrow> crates \<Rightarrow> world \<Rightarrow> (nat \<Rightarrow> u64) \<Rightarrow> str option \<times> u64 option
     \<Rightarrow> ('c, str option) state_fn" where
  "row_function_name L K W clock cells st =
     (case cells of
        (Some b, Some a) \<Rightarrow> state_function_name L K W clock b a st
      | _ \<Rightarrow> (Returned None, st))"

definition function_name_column ::
  "'c lru \<Rightarrow> crates \<Rightarrow> world \<Rightarrow> (nat \<Rightarrow> nat \<Rightarrow> u64) \<Rightarrow> column \<Rightarrow> column \<Rightarrow> nat
     \<Rightarrow> ('c, str option list) state_fn" where
  "function_name_column L K W clock build addr rows =
     for_rows (\<lambda>i. row_function_name L K W (clock i)) 0 (frame_cells build addr rows)"

definition string_col :: "column \<Rightarrow> rpc_error + str option list" where
  "string_col col =
     (case col of
        Utf8 xs \<Rightarrow> Inr xs
      | other \<Rightarrow> Inl (TypeError (''demangle: mangled must be VARCHAR, got '' @ data_type_name other)))"

definition demangle_column ::
  "crates \<Rightarrow> bool \<Rightarrow> vgi_args \<Rightarrow> column \<Rightarrow> nat \<Rightarrow> rpc_error + str option list" where
  "demangle_column K with_lang args col rows =
     (let lang = (if with_lang
          then demangle_lang_parse (case va_const_str args 1 of Some s \<Rightarrow> s | None \<Rightarrow> ''auto'')
          else Inr Auto)
      in case lang of
           Inl e \<Rightarrow> Inl (ValueError e)
         | Inr lang \<Rightarrow> (case string_col col of
               Inl e \<Rightarrow> Inl e
             | Inr names \<Rightarrow>
                 Inr (map (\<lambda>i. map_option (\<lambda>s. demangle K s lang) (names ! i)) [0..<rows])))"

section \<open>The batches\<close>

definition symbolicate_array :: "'b arrow \<Rightarrow> symbolicate_row list \<Rightarrow> array outcome" where
  "symbolicate_array A rs =
     struct_array A
       [(Field ''function'' DUtf8 True, (DUtf8, map (opt_cell StrCell \<circ> sy_function) rs)),
        (Field ''file'' DUtf8 True, (DUtf8, map (opt_cell StrCell \<circ> sy_file) rs)),
        (Field ''line'' DInt32 True, (DInt32, map (opt_cell I32Cell \<circ> sy_line) rs)),
        (Field ''inlined'' inline_frames_list_type True, build_inline_list A (map sy_inlined rs)),
        (Field ''module'' DUtf8 True, (DUtf8, map (opt_cell StrCell \<circ> sy_module) rs)),
        (Field ''debug_id'' DUtf8 True, (DUtf8, map (opt_cell StrCell \<circ> sy_debug_id) rs)),
        (Field ''status'' DUtf8 False, (DUtf8, map (StrCell \<circ> sy_status) rs))]"

definition symbolicate_process ::
  "'b arrow \<Rightarrow> 'c lru \<Rightarrow> crates \<Rightarrow> world \<Rightarrow> (nat \<Rightarrow> nat \<Rightarrow> u64) \<Rightarrow> field list \<Rightarrow> column \<Rightarrow> column \<Rightarrow> nat
     \<Rightarrow> ('c, rpc_error + 'b) state_fn" where
  "symbolicate_process A L K W clock schema build addr rows st =
     (case symbolicate L K W clock build addr rows st of
        (rs, st') \<Rightarrow> (obind rs (\<lambda>rs. obind (symbolicate_array A rs) (\<lambda>sa.
            Returned (try_new A schema [sa]))), st'))"

definition inline_frames_process ::
  "'b arrow \<Rightarrow> 'c lru \<Rightarrow> crates \<Rightarrow> world \<Rightarrow> (nat \<Rightarrow> nat \<Rightarrow> u64) \<Rightarrow> field list \<Rightarrow> column \<Rightarrow> column \<Rightarrow> nat
     \<Rightarrow> ('c, rpc_error + 'b) state_fn" where
  "inline_frames_process A L K W clock schema build addr rows st =
     map_fst_outcome (\<lambda>chains. try_new A schema [build_inline_list A chains])
       (inline_frames L K W clock build addr rows st)"

definition function_name_process ::
  "'b arrow \<Rightarrow> 'c lru \<Rightarrow> crates \<Rightarrow> world \<Rightarrow> (nat \<Rightarrow> nat \<Rightarrow> u64) \<Rightarrow> field list \<Rightarrow> column \<Rightarrow> column \<Rightarrow> nat
     \<Rightarrow> ('c, rpc_error + 'b) state_fn" where
  "function_name_process A L K W clock schema build addr rows st =
     map_fst_outcome (\<lambda>names. try_new A schema [(DUtf8, map (opt_cell StrCell) names)])
       (function_name_column L K W clock build addr rows st)"

definition demangle_process ::
  "'b arrow \<Rightarrow> crates \<Rightarrow> bool \<Rightarrow> vgi_args \<Rightarrow> field list \<Rightarrow> column \<Rightarrow> nat \<Rightarrow> rpc_error + 'b" where
  "demangle_process A K with_lang args schema col rows =
     (case demangle_column K with_lang args col rows of
        Inl e \<Rightarrow> Inl e
      | Inr names \<Rightarrow> try_new A schema [(DUtf8, map (opt_cell StrCell) names)])"

text \<open>
  The type each function binds its result to; the schema the SDK makes of it has one field of
  that type.
\<close>

definition symbolicate_bind :: data_type where "symbolicate_bind = symbolicate_struct_type"
definition inline_frames_bind :: data_type where "inline_frames_bind = inline_frames_list_type"
definition function_name_bind :: data_type where "function_name_bind = DUtf8"
definition demangle_bind :: data_type where "demangle_bind = DUtf8"

section \<open>The row loop\<close>

lemma for_rows_state:
  assumes "\<And>i x st. P st \<Longrightarrow> P (snd (f i x st))" "P st"
  shows "P (snd (for_rows f i xs st))"
  using assms(2)
proof (induction xs arbitrary: i st)
  case (Cons x xs)
  from assms(1) [OF Cons.prems, of i x] Cons.IH [of "snd (f i x st)" "Suc i"] show ?case
    by (auto split: prod.splits outcome.splits)
qed simp

lemma for_rows_returns:
  assumes "\<And>i x st. P st \<Longrightarrow> \<exists>r. fst (f i x st) = Returned r \<and> Q r"
    and "\<And>i x st. P st \<Longrightarrow> P (snd (f i x st))" "P st"
  shows "\<exists>rs. fst (for_rows f i xs st) = Returned rs \<and> length rs = length xs \<and> list_all Q rs"
  using assms(3)
proof (induction xs arbitrary: i st)
  case (Cons x xs)
  obtain r st1 where r: "f i x st = (Returned r, st1)" "Q r"
    using assms(1) [OF Cons.prems, of i x] by (metis prod.collapse)
  with assms(2) [OF Cons.prems, of i x] have "P st1" by simp
  from Cons.IH [OF this, of "Suc i"] obtain rs where
    "fst (for_rows f (Suc i) xs st1) = Returned rs" "length rs = length xs" "list_all Q rs" by blast
  with r show ?case by (cases "for_rows f (Suc i) xs st1") simp
qed simp

lemma for_rows_panics:
  assumes "fst (for_rows f i xs st) = Panicked" "P st"
    and "\<And>i x st. P st \<Longrightarrow> P (snd (f i x st))"
    and "\<And>i x st. P st \<Longrightarrow> fst (f i x st) = Panicked \<Longrightarrow> Q"
  shows Q
  using assms(1,2)
proof (induction xs arbitrary: i st)
  case (Cons x xs)
  obtain r st1 where f: "f i x st = (r, st1)" by (cases "f i x st")
  show ?case
  proof (cases r)
    case Panicked
    with assms(4) [OF Cons.prems(2), of i x] f show ?thesis by simp
  next
    case (Returned y)
    with Cons.prems(1) f have "fst (for_rows f (Suc i) xs st1) = Panicked"
      by (auto split: prod.splits outcome.splits)
    with Cons.IH [of "Suc i" st1] assms(3) [OF Cons.prems(2), of i x] f show ?thesis by simp
  qed
qed simp

lemma for_rows_length:
  assumes "fst (for_rows f i xs st) = Returned rs"
  shows "length rs = length xs"
  using assms
proof (induction xs arbitrary: i st rs)
  case (Cons x xs)
  obtain r1 st1 where r1: "f i x st = (r1, st1)" by (cases "f i x st")
  obtain rs1 st2 where rs1: "for_rows f (Suc i) xs st1 = (rs1, st2)"
    by (cases "for_rows f (Suc i) xs st1")
  from Cons.prems r1 rs1 obtain qs where qs: "rs1 = Returned qs" "length rs = Suc (length qs)"
    by (auto split: outcome.splits)
  with rs1 Cons.IH [of "Suc i" st1 qs] show ?case by simp
qed simp

lemma for_rows_map:
  assumes "\<And>i x st. P st \<Longrightarrow> fst (f i x st) = Returned (g x)"
    and "\<And>i x st. P st \<Longrightarrow> P (snd (f i x st))" "P st"
  shows "fst (for_rows f i xs st) = Returned (map g xs)"
  using assms(3)
proof (induction xs arbitrary: i st)
  case (Cons x xs)
  obtain st1 where r: "f i x st = (Returned (g x), st1)"
    using assms(1) [OF Cons.prems, of i x] by (metis prod.collapse)
  with assms(2) [OF Cons.prems, of i x] have "P st1" by simp
  from Cons.IH [OF this, of "Suc i"] r show ?case by (cases "for_rows f (Suc i) xs st1") simp
qed simp

lemma for_rows_append:
  "for_rows f i (xs @ ys) st =
     (case for_rows f i xs st of
        (Panicked, st1) \<Rightarrow> (Panicked, st1)
      | (Returned rs, st1) \<Rightarrow>
          map_fst_outcome ((@) rs) (for_rows f (i + length xs) ys st1))"
proof (induction xs arbitrary: i st)
  case Nil
  then show ?case
    by (cases "for_rows f i ys st"; cases "fst (for_rows f i ys st)")
      (simp_all add: map_fst_outcome_def)
next
  case (Cons x xs)
  then show ?case
    by (auto simp: map_fst_outcome_def outcome_simps split: prod.splits outcome.splits)
qed

lemma length_frame_cells [simp]: "length (frame_cells build addr rows) = rows"
  by (simp add: frame_cells_def)

section \<open>The batches conform to their types\<close>

lemma symbolicate_array_fits:
  assumes "arrow_documented A"
  shows "\<exists>cells. symbolicate_array A rs = Returned (symbolicate_bind, cells) \<and>
    column_fits (length rs) (Field n symbolicate_bind nullable) (symbolicate_bind, cells)"
proof -
  define pairs where "pairs =
    [(Field ''function'' DUtf8 True, (DUtf8, map (opt_cell StrCell \<circ> sy_function) rs)),
     (Field ''file'' DUtf8 True, (DUtf8, map (opt_cell StrCell \<circ> sy_file) rs)),
     (Field ''line'' DInt32 True, (DInt32, map (opt_cell I32Cell \<circ> sy_line) rs)),
     (Field ''inlined'' inline_frames_list_type True, build_inline_list A (map sy_inlined rs)),
     (Field ''module'' DUtf8 True, (DUtf8, map (opt_cell StrCell \<circ> sy_module) rs)),
     (Field ''debug_id'' DUtf8 True, (DUtf8, map (opt_cell StrCell \<circ> sy_debug_id) rs)),
     (Field ''status'' DUtf8 False, (DUtf8, map (StrCell \<circ> sy_status) rs))]"
  have bind: "DStruct (map fst pairs) = symbolicate_bind"
    by (simp add: pairs_def symbolicate_bind_def symbolicate_struct_type_def inline_frames_list_type_def)
  have "conforming (map fst pairs) (map snd pairs) (length rs)"
    using inline_list_fits [of "map sy_inlined rs" "''inlined''" True]
    by (simp add: pairs_def build_inline_list_eq [OF assms] arrow_simps list_all_iff)
  from struct_array_fits [OF assms this, of n nullable, unfolded bind] show ?thesis
    unfolding pairs_def symbolicate_array_def by simp
qed

lemma process_batch:
  assumes "arrow_documented A" "column_fits rows (Field n t nullable) col"
  shows "\<exists>b. try_new A [Field n t nullable] [col] = Inr b \<and> aw_columns A b = [col]"
  using try_new_conforming [OF assms(1)] assms(2) by (simp add: arrow_simps)

context resident_lru
begin

lemma row_frames_inv: "state_inv L W K st \<Longrightarrow> state_inv L W K (snd (row_frames L K W clock cells st))"
  using state_resolve_inv by (auto simp: row_frames_def split: prod.splits option.splits)

lemma row_frames_answer:
  assumes "state_inv L W K st" "probes_return W K" "world_stable W"
  shows "\<exists>fs. fst (row_frames L K W clock cells st) = Returned fs \<and> frames_wf fs \<and> status_uniform fs"
proof -
  have "\<exists>fs. fst (state_resolve L K W clock b a st) = Returned fs \<and> frames_wf fs \<and> status_uniform fs" for b a
    using state_resolve_spec [OF assms, of clock b a] parsed_resolve_answer
    by (auto simp: resolve_answer_def split: option.splits sum.splits)
  then show ?thesis by (auto simp: row_frames_def split: prod.splits option.splits)
qed

lemma symbolicate_inv:
  "state_inv L W K st \<Longrightarrow> state_inv L W K (snd (symbolicate L K W clock build addr rows st))"
  unfolding symbolicate_def
  by (rule for_rows_state) (simp_all add: map_fst_outcome_def row_frames_inv)

lemma inline_frames_inv:
  "state_inv L W K st \<Longrightarrow> state_inv L W K (snd (inline_frames L K W clock build addr rows st))"
  unfolding inline_frames_def
  by (rule for_rows_state) (simp_all add: map_fst_outcome_def row_frames_inv)

lemma function_name_column_inv:
  "state_inv L W K st \<Longrightarrow> state_inv L W K (snd (function_name_column L K W clock build addr rows st))"
  unfolding function_name_column_def
  by (rule for_rows_state)
    (use state_function_name_inv in \<open>auto simp: row_function_name_def split: prod.splits option.splits\<close>)

end

end
