(* ===== verification/Transparency.thy ===== *)
theory Transparency
  imports Scalar_Functions
begin

text \<open>
  The cache is transparent: as long as the registered sources stay as they are and no two of
  their files claim the same token for different modules, what a query answers is a function
  of the sources alone. The specification \<open>source_answer\<close> looks the token up in the sources
  and parses the file, with neither a resident set nor a negative cache.
\<close>

section \<open>Answers from the sources\<close>

type_synonym module_table = "str \<Rightarrow> (error_kind + parsed_module) option"

definition table_answer :: "crates \<Rightarrow> limits \<Rightarrow> module_table \<Rightarrow> str \<Rightarrow> u64 \<Rightarrow> resolved_frame list" where
  "table_answer K lim T token addr =
     (case T token of
        None \<Rightarrow> [not_found_frame]
      | Some (Inl kind) \<Rightarrow> [error_frame kind None]
      | Some (Inr m) \<Rightarrow> parsed_resolve K m addr lim)"

definition table_function :: "crates \<Rightarrow> module_table \<Rightarrow> str \<Rightarrow> u64 \<Rightarrow> str option" where
  "table_function K T token addr =
     (case T token of Some (Inr m) \<Rightarrow> parsed_function_name K m addr | _ \<Rightarrow> None)"

definition source_answer :: "crates \<Rightarrow> world \<Rightarrow> 'c symbols_state \<Rightarrow> str \<Rightarrow> u64 \<Rightarrow> resolved_frame list" where
  "source_answer K W st = table_answer K (st_limits st) (located_module K W st)"

definition source_function :: "crates \<Rightarrow> world \<Rightarrow> 'c symbols_state \<Rightarrow> str \<Rightarrow> u64 \<Rightarrow> str option" where
  "source_function K W st = table_function K (located_module K W st)"

text \<open>The answers to the cells of one row.\<close>

definition cells_answer ::
  "crates \<Rightarrow> world \<Rightarrow> 'c symbols_state \<Rightarrow> str option \<times> u64 option \<Rightarrow> resolved_frame list" where
  "cells_answer K W st cells =
     (case cells of (Some b, Some a) \<Rightarrow> source_answer K W st b a | _ \<Rightarrow> [not_found_frame])"

definition cells_function ::
  "crates \<Rightarrow> world \<Rightarrow> 'c symbols_state \<Rightarrow> str option \<times> u64 option \<Rightarrow> str option" where
  "cells_function K W st cells =
     (case cells of (Some b, Some a) \<Rightarrow> source_function K W st b a | _ \<Rightarrow> None)"

text \<open>A table in which the tokens of a module all lead to that module.\<close>

definition unambiguous :: "module_table \<Rightarrow> bool" where
  "unambiguous T \<longleftrightarrow> (\<forall>t m u. T t = Some (Inr m) \<longrightarrow>
     canonical_token u \<in> set (aliases (parsed_identity m)) \<longrightarrow> T u = Some (Inr m))"

lemma located_module_canonical:
  "canonical_token t = canonical_token u \<Longrightarrow> located_module K W st t = located_module K W st u"
  by (rule tok.same_spelling [where g = "located_module K W st"])
    (simp_all only: located_module_def locate_indexed_def canonical_token_idem)

section \<open>Coherence of the cache with the sources\<close>

definition coherent :: "'c lru \<Rightarrow> module_table \<Rightarrow> 'c symbol_cache \<Rightarrow> bool" where
  "coherent L T s \<longleftrightarrow>
     (\<forall>t m. resident_module L s t = Some m \<longrightarrow> T t = Some (Inr m)) \<and>
     (\<forall>t. is_known_miss s t \<longrightarrow> T t = None) \<and>
     (\<forall>c d. sc_aliases s c = Some d \<longrightarrow> canonical_token d = c \<or>
        (\<exists>m. d = key_of m \<and> c \<in> set (aliases (parsed_identity m)) \<and> T c = Some (Inr m)))"

lemma coherent_same_index:
  assumes "coherent L T s" "same_index s s'" "resident_module L s' \<subseteq>\<^sub>m resident_module L s"
  shows "coherent L T s'"
proof -
  have "resident_module L s t = Some m" if "resident_module L s' t = Some m" for t m
    using assms(3) that by (metis domI map_le_def)
  with assms(1,2) show ?thesis
    unfolding coherent_def same_index_def is_known_miss_def by metis
qed

context resident_lru
begin

lemma coherent_new: "coherent L T (cache_new L b n)"
proof -
  have "lru_iter L (sc_resident (cache_new L b n)) = []" using new by (simp add: cache_new_def)
  then have "resident_module L (cache_new L b n) t = None" for t
    by (simp add: resident_module_def split: option.split)
  moreover have "\<not> is_known_miss (cache_new L b n) t" "sc_aliases (cache_new L b n) c = None" for t c
    by (simp_all add: is_known_miss_def cache_new_def)
  ultimately show ?thesis by (simp add: coherent_def)
qed

lemma coherent_promoted:
  assumes "coherent L T s" "same_index s s'" "resident_module L s' = resident_module L s"
  shows "coherent L T s'"
  by (rule coherent_same_index [OF assms(1,2)]) (simp add: assms(3))

lemma coherent_resolve:
  assumes "coherent L T s"
  shows "coherent L T (snd (cache_resolve L K now t a lim s))"
proof (rule coherent_promoted [OF assms _ cache_resolve_spec(2)])
  show "same_index s (snd (cache_resolve L K now t a lim s))"
    by (rule cache_resolve_cases [of s t K now a lim]) simp_all
qed

lemma coherent_function_name:
  assumes "coherent L T s"
  shows "coherent L T (snd (cache_function_name L K now t a s))"
proof (rule coherent_promoted [OF assms _ cache_function_name_spec(2)])
  show "same_index s (snd (cache_function_name L K now t a s))"
    by (rule cache_function_name_cases [of s t K now a]) simp_all
qed

lemma coherent_evict:
  assumes "coherent L T s"
  shows "coherent L T (snd (cache_evict L t s))"
proof (cases t)
  case None
  show ?thesis
    unfolding None
    by (rule coherent_same_index [OF assms cache_evict_none(2)]) (simp add: cache_evict_everything)
next
  case (Some u)
  have "same_index s (snd (cache_evict L (Some u) s))"
    by (rule cache_evict_some_cases [of s u]) simp_all
  then show ?thesis
    unfolding Some
    by (rule coherent_same_index [OF assms]) (use cache_evict_token(2) in \<open>simp add: only_loses_def\<close>)
qed

lemma coherent_export:
  assumes "coherent L T s"
  shows "coherent L T (snd (to_manifest L sources s))"
  by (rule coherent_promoted [OF assms _ export_module]) (simp add: to_manifest_def Let_def)

lemma coherent_record_miss:
  assumes "coherent L T s" "cache_inv L s" "\<And>u. canonical_token u = canonical_token t \<Longrightarrow> T u = None"
  shows "coherent L T (record_miss now t s)"
  using assms(1,3)
  unfolding coherent_def record_miss_module [OF assms(2)]
  by (auto simp: is_known_miss_def record_miss_def Let_def split: option.splits if_splits)

lemma coherent_insert:
  assumes "coherent L T s" "unambiguous T" "T t = Some (Inr m)"
    and "canonical_token t \<in> set (aliases (parsed_identity m))"
  shows "coherent L T (snd (cache_insert L now m og s))"
proof -
  let ?s1 = "snd (cache_insert L now m og s)"
  have all: "T u = Some (Inr m)" if "canonical_token u \<in> set (aliases (parsed_identity m))" for u
    using assms(2,3) that unfolding unambiguous_def by blast
  have key: "T (key_of n) = Some (Inr n)" if "T c = Some (Inr n)" for c n
    using assms(2) that aliases_debug_id unfolding unambiguous_def by blast
  have index: "sc_aliases ?s1 = sc_aliases (insert_unbounded L now m og s)"
    "sc_negative ?s1 = sc_negative s - {canonical_token (key_of m)}"
    using cache_insert_index [of now m og s] by (simp_all add: same_index_def)
  have "T u = Some (Inr n)" if n: "resident_module L ?s1 u = Some n" for u n
  proof (cases "canonical_token u \<in> set (aliases (parsed_identity m))")
    case True
    with n cache_insert_module all show ?thesis by simp
  next
    case other: False
    show ?thesis
    proof (cases "resolve_debug_id s u = Some (key_of m)")
      case True
      then have "sc_aliases s (canonical_token u) = Some (key_of m)" by (simp add: resolve_debug_id_def)
      with assms(1) have "canonical_token (key_of m) = canonical_token u \<or>
          (\<exists>m'. key_of m = key_of m' \<and> canonical_token u \<in> set (aliases (parsed_identity m')) \<and>
             T (canonical_token u) = Some (Inr m'))"
        unfolding coherent_def by blast
      then show ?thesis
      proof
        assume "canonical_token (key_of m) = canonical_token u"
        with other aliases_debug_id [of "parsed_identity m"] show ?thesis by simp
      next
        assume "\<exists>m'. key_of m = key_of m' \<and> canonical_token u \<in> set (aliases (parsed_identity m')) \<and>
          T (canonical_token u) = Some (Inr m')"
        then obtain m' where "key_of m = key_of m'" "canonical_token u \<in> set (aliases (parsed_identity m'))"
          "T (canonical_token u) = Some (Inr m')" by blast
        with key [OF this(3)] key [OF assms(3)] other show ?thesis by simp
      qed
    next
      case False
      with cache_insert_others [OF other False, of now og] n assms(1) show ?thesis
        unfolding coherent_def by auto
    qed
  qed
  moreover have "T u = None" if "is_known_miss ?s1 u" for u
    using that assms(1) index(2) unfolding coherent_def is_known_miss_def by auto
  moreover have "canonical_token d = c \<or>
      (\<exists>n. d = key_of n \<and> c \<in> set (aliases (parsed_identity n)) \<and> T c = Some (Inr n))"
    if "sc_aliases ?s1 c = Some d" for c d
  proof (cases "c \<in> set (aliases (parsed_identity m))")
    case True
    then have "canonical_token c = c" by (metis aliases_canonical)
    with True that all [of c] show ?thesis by (auto simp: index(1) fold_aliases)
  next
    case False
    with that have "sc_aliases s c = Some d" by (simp add: index(1) fold_aliases)
    with assms(1) show ?thesis unfolding coherent_def by blast
  qed
  ultimately show ?thesis unfolding coherent_def by blast
qed

end

section \<open>Queries\<close>

text \<open>
  The operations that ask and do not configure: they leave the sources as they are, and the
  cache coherent with them.
\<close>

fun is_query :: "state_op \<Rightarrow> bool" where
  "is_query (OpResolve _ _ _) = True"
| "is_query (OpFunctionName _ _ _) = True"
| "is_query (OpEvict _) = True"
| "is_query OpExport = True"
| "is_query _ = False"

definition serves :: "'c lru \<Rightarrow> crates \<Rightarrow> world \<Rightarrow> 'c symbols_state \<Rightarrow> 'c symbols_state \<Rightarrow> bool" where
  "serves L K W st0 st \<longleftrightarrow> state_inv L W K st \<and> st_limits st = st_limits st0 \<and>
     rg_sources (st_sources st) = rg_sources (st_sources st0) \<and>
     coherent L (located_module K W st0) (st_cache st)"

lemma serves_located:
  assumes "serves L K W st0 st"
  shows "located_module K W st = located_module K W st0"
proof -
  have same: "st_limits st = st_limits st0" "rg_sources (st_sources st) = rg_sources (st_sources st0)"
    using assms by (simp_all add: serves_def)
  show ?thesis unfolding located_module_def local_sources_def same ..
qed

lemma serves_module_for:
  assumes "serves L K W st0 st"
  shows "module_for L K W st token = located_module K W st0 token"
  using assms unfolding module_for_def serves_located [OF assms] serves_def coherent_def
  by (auto split: option.split)

context resident_lru
begin

lemma ensure_resident_serves:
  assumes "serves L K W st0 st" "probes_return W K" "world_stable W"
    and "unambiguous (located_module K W st0)"
    and "ensure_resident L K W now token st = (o', st')"
  shows "serves L K W st0 st'"
proof -
  have inv: "state_inv L W K st" "cache_inv L (st_cache st)"
    and coh: "coherent L (located_module K W st0) (st_cache st)"
    using assms(1) by (simp_all add: serves_def state_inv_def)
  have inv': "state_inv L W K st'" by (rule ensure_resident_inv [OF inv(1) assms(5)])
  note located = locate_answers [OF inv(1) assms(2)]
  have table: "located_module K W st0 u = (case locate_indexed W token
        (map_of (hits W K (local_sources (st_sources st)))) of
      None \<Rightarrow> None
    | Some loc \<Rightarrow> Some (case parse_module K (lc_data loc) (lc_name loc) (st_limits st) of
        Inl e \<Rightarrow> Inl (se_kind e) | Inr m \<Rightarrow> Inr m))" if "canonical_token u = canonical_token token" for u
    using located_module_canonical [OF that, of K W st] serves_located [OF assms(1)]
    by (metis located_module_def)
  show ?thesis
  proof (cases rule: ensure_resident_cases [of L st token K W now])
    case (missing rg)
    have "located_module K W st0 u = None" if "canonical_token u = canonical_token token" for u
      using table [OF that] located(1) [OF missing(3)] by simp
    from coherent_record_miss [OF coh inv(2) this] missing assms(1,5) inv' located(2) [OF missing(3)]
    show ?thesis by (auto simp: serves_def)
  next
    case (parsed rg loc m)
    have at: "locate_indexed W token (map_of (hits W K (local_sources (st_sources st)))) = Some loc"
      using located(1) [OF parsed(3)] by simp
    then have "located_module K W st0 token = Some (Inr m)"
      using table [OF refl] parsed(4) by simp
    from coherent_insert [OF coh assms(4) this located_parsed [OF assms(3) at parsed(4)]]
      parsed assms(1,5) inv' located(2) [OF parsed(3)]
    show ?thesis by (auto simp: serves_def)
  qed (use assms(1,5) inv' located(2) in \<open>auto simp: serves_def\<close>)
qed

lemma state_resolve_serves:
  assumes "serves L K W st0 st" "probes_return W K" "world_stable W"
    and "unambiguous (located_module K W st0)"
  shows "serves L K W st0 (snd (state_resolve L K W clock token addr st))"
    "fst (state_resolve L K W clock token addr st) = Returned (source_answer K W st0 token addr)"
proof -
  have inv: "state_inv L W K st" and coh: "coherent L (located_module K W st0) (st_cache st)"
    using assms(1) by (simp_all add: serves_def)
  obtain r0 c0 where c0: "cache_resolve L K (clock 0) token addr (st_limits st) (st_cache st) = (r0, c0)"
    by (cases "cache_resolve L K (clock 0) token addr (st_limits st) (st_cache st)")
  have serves0: "serves L K W st0 (st\<lparr>st_cache := c0\<rparr>)"
    using assms(1) coherent_resolve [OF coh, of K "clock 0" token addr "st_limits st"] c0
      cache_inv_resolve [of "st_cache st" K "clock 0" token addr "st_limits st"]
    by (simp add: serves_def state_inv_def)
  obtain o1 st1 where e: "ensure_resident L K W (clock 0) token (st\<lparr>st_cache := c0\<rparr>) = (o1, st1)"
    by (cases "ensure_resident L K W (clock 0) token (st\<lparr>st_cache := c0\<rparr>)")
  have serves1: "serves L K W st0 st1"
    by (rule ensure_resident_serves [OF serves0 assms(2-4) e])
  then have serves2: "serves L K W st0
      (st1\<lparr>st_cache := snd (cache_resolve L K (clock 1) token addr (st_limits st1) (st_cache st1))\<rparr>)"
    using coherent_resolve cache_inv_resolve by (simp add: serves_def state_inv_def)
  show "serves L K W st0 (snd (state_resolve L K W clock token addr st))"
    using c0 e serves0 serves1 serves2
    by (auto simp: state_resolve_def split: option.splits outcome.splits sum.splits bool.splits prod.splits)
  show "fst (state_resolve L K W clock token addr st) = Returned (source_answer K W st0 token addr)"
  proof -
    have lim: "st_limits st = st_limits st0" using assms(1) by (simp add: serves_def)
    show ?thesis
      using state_resolve_spec [OF inv assms(2,3), of clock token addr]
      unfolding resolve_answer_def serves_module_for [OF assms(1)] source_answer_def table_answer_def lim
      by simp
  qed
qed

lemma state_function_name_serves:
  assumes "serves L K W st0 st" "probes_return W K" "world_stable W"
    and "unambiguous (located_module K W st0)"
  shows "serves L K W st0 (snd (state_function_name L K W clock token addr st))"
    "fst (state_function_name L K W clock token addr st) = Returned (source_function K W st0 token addr)"
proof -
  have inv: "state_inv L W K st" and coh: "coherent L (located_module K W st0) (st_cache st)"
    using assms(1) by (simp_all add: serves_def)
  obtain r0 c0 where c0: "cache_function_name L K (clock 0) token addr (st_cache st) = (r0, c0)"
    by (cases "cache_function_name L K (clock 0) token addr (st_cache st)")
  have serves0: "serves L K W st0 (st\<lparr>st_cache := c0\<rparr>)"
    using assms(1) coherent_function_name [OF coh, of K "clock 0" token addr] c0
      cache_inv_function_name [of "st_cache st" K "clock 0" token addr]
    by (simp add: serves_def state_inv_def)
  obtain o1 st1 where e: "ensure_resident L K W (clock 0) token (st\<lparr>st_cache := c0\<rparr>) = (o1, st1)"
    by (cases "ensure_resident L K W (clock 0) token (st\<lparr>st_cache := c0\<rparr>)")
  have serves1: "serves L K W st0 st1"
    by (rule ensure_resident_serves [OF serves0 assms(2-4) e])
  then have serves2: "serves L K W st0
      (st1\<lparr>st_cache := snd (cache_function_name L K (clock 1) token addr (st_cache st1))\<rparr>)"
    using coherent_function_name cache_inv_function_name by (simp add: serves_def state_inv_def)
  show "serves L K W st0 (snd (state_function_name L K W clock token addr st))"
    using c0 e serves0 serves1 serves2
    by (auto simp: state_function_name_def split: option.splits outcome.splits sum.splits bool.splits prod.splits)
  show "fst (state_function_name L K W clock token addr st) = Returned (source_function K W st0 token addr)"
    using state_function_name_spec [OF inv assms(2,3), of clock token addr]
    unfolding function_answer_def serves_module_for [OF assms(1)] source_function_def table_function_def
    by simp
qed

lemma query_serves:
  assumes "serves L K W st0 st" "probes_return W K" "world_stable W"
    and "unambiguous (located_module K W st0)" "is_query oper"
  shows "serves L K W st0 (state_step L K W oper st)"
proof -
  have inv: "cache_inv L (st_cache st)" and coh: "coherent L (located_module K W st0) (st_cache st)"
    using assms(1) by (simp_all add: serves_def state_inv_def)
  show ?thesis
  proof (cases oper)
    case (OpEvict t)
    with assms(1) coherent_evict [OF coh, of t] cache_inv_evict [OF inv, of t] show ?thesis
      by (simp add: serves_def state_inv_def state_cache_evict_def case_prod_beta)
  next
    case OpExport
    with assms(1) coherent_export [OF coh] cache_inv_export [OF inv] show ?thesis
      by (simp add: serves_def state_inv_def export_manifest_def case_prod_beta)
  qed (use assms(5) state_resolve_serves(1) [OF assms(1-4)] state_function_name_serves(1) [OF assms(1-4)]
    in simp_all)
qed

lemma queries_serve:
  assumes "serves L K W st0 st" "probes_return W K" "world_stable W"
    and "unambiguous (located_module K W st0)" "list_all is_query ops"
  shows "serves L K W st0 (fold (state_step L K W) ops st)"
  using assms(1,5) by (induction ops arbitrary: st) (simp_all add: query_serves [OF _ assms(2-4)])

lemma serves_start:
  assumes "reachable L K W st0" "st_cache st0 = cache_new L b n"
  shows "serves L K W st0 st0"
  using reachable_state_inv [OF assms(1)] coherent_new [of "located_module K W st0" b n] assms(2)
  by (simp add: serves_def)

lemma batches_serve:
  assumes "serves L K W st0 st" "probes_return W K" "world_stable W"
    and "unambiguous (located_module K W st0)"
  shows "fst (symbolicate L K W clock build addr rows st) =
      Returned (map (symbolicate_row_of \<circ> cells_answer K W st0) (frame_cells build addr rows))"
    "fst (inline_frames L K W clock build addr rows st) =
      Returned (map (inline_chain \<circ> cells_answer K W st0) (frame_cells build addr rows))"
    "fst (function_name_column L K W clock build addr rows st) =
      Returned (map (cells_function K W st0) (frame_cells build addr rows))"
proof -
  note answers = state_resolve_serves [OF _ assms(2-4)] state_function_name_serves [OF _ assms(2-4)]
  have frames: "fst (row_frames L K W c cells s) = Returned (cells_answer K W st0 cells)"
    "serves L K W st0 (snd (row_frames L K W c cells s))" if "serves L K W st0 s" for c cells s
    using that answers(1,2) [OF that]
    by (auto simp: row_frames_def cells_answer_def split: prod.splits option.splits)
  have names: "fst (row_function_name L K W c cells s) = Returned (cells_function K W st0 cells)"
    "serves L K W st0 (snd (row_function_name L K W c cells s))" if "serves L K W st0 s" for c cells s
    using that answers(3,4) [OF that]
    by (auto simp: row_function_name_def cells_function_def split: prod.splits option.splits)
  show "fst (symbolicate L K W clock build addr rows st) =
      Returned (map (symbolicate_row_of \<circ> cells_answer K W st0) (frame_cells build addr rows))"
    "fst (inline_frames L K W clock build addr rows st) =
      Returned (map (inline_chain \<circ> cells_answer K W st0) (frame_cells build addr rows))"
    "fst (function_name_column L K W clock build addr rows st) =
      Returned (map (cells_function K W st0) (frame_cells build addr rows))"
    unfolding symbolicate_def inline_frames_def function_name_column_def
    by (rule for_rows_map [where P = "serves L K W st0"];
        simp add: map_fst_outcome_def frames names assms(1))+
qed

end

end
