(* ===== verification/Table_Functions.thy ===== *)
theory Table_Functions
  imports Symbols_State Arrow_Output
begin

text \<open>
  \<^verbatim>\<open>crates/symbols-worker/src/table\<close>: the table and configuration functions. Binding fixes the
  output schema, \<^verbatim>\<open>producer\<close> reads the arguments and calls the state, and \<^verbatim>\<open>next_batch\<close> emits the
  rows once.
\<close>

section \<open>Emitting one batch\<close>

text \<open>
  Every producer takes its rows out of an \<^verbatim>\<open>Option\<close>, assembles them under the schema and
  afterwards answers \<^verbatim>\<open>None\<close>.
\<close>

type_synonym 'b batch_result = "rpc_error + 'b option"

definition emit_batch ::
  "'b arrow \<Rightarrow> field list \<Rightarrow> ('v \<Rightarrow> array list) \<Rightarrow> 'v option \<Rightarrow> 'b batch_result \<times> 'v option" where
  "emit_batch A schema cols pending =
     (case pending of
        None \<Rightarrow> (Inr None, None)
      | Some v \<Rightarrow>
          (case try_new A schema (cols v) of
             Inl e \<Rightarrow> (Inl e, None)
           | Inr b \<Rightarrow> (Inr (Some b), None)))"

definition one_string_batch :: "'b arrow \<Rightarrow> field list \<Rightarrow> str option \<Rightarrow> 'b batch_result \<times> str option" where
  "one_string_batch A schema = emit_batch A schema (\<lambda>v. [(DUtf8, [StrCell v])])"

definition one_bool_batch :: "'b arrow \<Rightarrow> field list \<Rightarrow> bool option \<Rightarrow> 'b batch_result \<times> bool option" where
  "one_bool_batch A schema = emit_batch A schema (\<lambda>v. [(DBoolean, [BoolCell v])])"

definition one_i64_batch :: "'b arrow \<Rightarrow> field list \<Rightarrow> i64 option \<Rightarrow> 'b batch_result \<times> i64 option" where
  "one_i64_batch A schema = emit_batch A schema (\<lambda>v. [(DInt64, [I64Cell v])])"

section \<open>Sources\<close>

definition add_source_schema :: "field list" where
  "add_source_schema = [Field ''source_id'' DUtf8 False]"

definition add_source_producer ::
  "vgi_args \<Rightarrow> 'c symbols_state \<Rightarrow> (rpc_error + str) \<times> 'c symbols_state" where
  "add_source_producer args st =
     (case va_const_str args 0 of
        None \<Rightarrow> (Inl (ValueError ''add_source: kind is required''), st)
      | Some kind \<Rightarrow>
          (case state_add_source kind (va_named_str args ''path'') (va_named_str args ''url'')
                  (va_named_str args ''bucket'') (va_named_bool args ''enabled'')
                  (va_named_str args ''secret'') st of
             (Inl e, st') \<Rightarrow> (Inl (ValueError e), st')
           | (Inr source_id, st') \<Rightarrow> (Inr source_id, st')))"

definition sources_schema :: "field list" where
  "sources_schema =
     [Field ''source_id'' DUtf8 False, Field ''kind'' DUtf8 False, Field ''location'' DUtf8 False,
      Field ''enabled'' DBoolean False, Field ''egress'' DBoolean False]"

definition sources_producer :: "vgi_args \<Rightarrow> 'c symbols_state \<Rightarrow> source_spec list" where
  "sources_producer args st =
     (let specs = state_list_sources st in
      if flag_arg args ''enabled_only'' then filter ss_enabled specs else specs)"

definition sources_columns :: "source_spec list \<Rightarrow> array list" where
  "sources_columns specs =
     [(DUtf8, map (StrCell \<circ> ss_source_id) specs), (DUtf8, map (StrCell \<circ> ss_kind) specs),
      (DUtf8, map (StrCell \<circ> source_location) specs),
      (DBoolean, map (BoolCell \<circ> ss_enabled) specs), (DBoolean, map (BoolCell \<circ> ss_egress) specs)]"

definition sources_batch ::
  "'b arrow \<Rightarrow> field list \<Rightarrow> source_spec list option \<Rightarrow> 'b batch_result \<times> source_spec list option" where
  "sources_batch A schema = emit_batch A schema sources_columns"

definition drop_source_schema :: "field list" where
  "drop_source_schema = [Field ''dropped'' DBoolean False]"

definition drop_source_producer ::
  "vgi_args \<Rightarrow> 'c symbols_state \<Rightarrow> (rpc_error + bool) \<times> 'c symbols_state" where
  "drop_source_producer args st =
     (case va_const_str args 0 of
        None \<Rightarrow> (Inl (ValueError ''drop_source: source_id is required''), st)
      | Some i \<Rightarrow> (case state_drop_source i st of (dropped, st') \<Rightarrow> (Inr dropped, st')))"

section \<open>The cache\<close>

definition status_schema :: "field list" where
  "status_schema =
     [Field ''debug_id'' DUtf8 False, Field ''name'' DUtf8 False, Field ''format'' DUtf8 False,
      Field ''arch'' DUtf8 False, Field ''bytes_resident'' DInt64 False,
      Field ''rows_resolved'' DInt64 False, Field ''last_used'' (DTimestampUs ''UTC'') True,
      Field ''origin'' DUtf8 True, Field ''resident'' DBoolean False]"

definition cache_status_producer :: "'c lru \<Rightarrow> vgi_args \<Rightarrow> 'c symbols_state \<Rightarrow> status_row list" where
  "cache_status_producer L args st =
     (let rows = state_cache_status L st in
      if flag_arg args ''resident_only'' then filter sr_resident rows else rows)"

definition saturating_mul :: "i64 \<Rightarrow> i64 \<Rightarrow> i64" where
  "saturating_mul a b =
     (let p = sint a * sint b in
      if p > 2 ^ 63 - 1 then word_of_int (2 ^ 63 - 1)
      else if p < - (2 ^ 63) then word_of_int (- (2 ^ 63)) else word_of_int p)"

definition last_used_cell :: "i64 \<Rightarrow> i64 option" where
  "last_used_cell epoch =
     (if 0 < sint epoch then Some (saturating_mul epoch 1000000) else None)"

definition origin_cell :: "str \<Rightarrow> str option" where
  "origin_cell label = (if label = [] then None else Some label)"

definition status_columns :: "status_row list \<Rightarrow> array list" where
  "status_columns rows =
     [(DUtf8, map (StrCell \<circ> sr_debug_id) rows), (DUtf8, map (StrCell \<circ> sr_name) rows),
      (DUtf8, map (StrCell \<circ> sr_format) rows), (DUtf8, map (StrCell \<circ> sr_arch) rows),
      (DInt64, map (I64Cell \<circ> sr_bytes_resident) rows),
      (DInt64, map (I64Cell \<circ> sr_rows_resolved) rows),
      (DTimestampUs ''UTC'', map (opt_cell I64Cell \<circ> last_used_cell \<circ> sr_last_used_epoch) rows),
      (DUtf8, map (opt_cell StrCell \<circ> origin_cell \<circ> sr_origin) rows),
      (DBoolean, map (BoolCell \<circ> sr_resident) rows)]"

definition status_batch ::
  "'b arrow \<Rightarrow> field list \<Rightarrow> status_row list option \<Rightarrow> 'b batch_result \<times> status_row list option" where
  "status_batch A schema = emit_batch A schema status_columns"

definition evict_schema :: "field list" where
  "evict_schema = [Field ''bytes_freed'' DInt64 False]"

definition cache_evict_producer ::
  "'c lru \<Rightarrow> vgi_args \<Rightarrow> 'c symbols_state \<Rightarrow> i64 \<times> 'c symbols_state" where
  "cache_evict_producer L args st = state_cache_evict L (va_const_str args 0) st"

section \<open>Module information\<close>

definition info_schema :: "field list" where
  "info_schema =
     [Field ''format'' DUtf8 False, Field ''arch'' DUtf8 False, Field ''build_id'' DUtf8 True,
      Field ''debug_id'' DUtf8 True, Field ''code_id'' DUtf8 True,
      Field ''has_dwarf'' DBoolean False, Field ''has_pdb'' DBoolean False,
      Field ''has_line_table'' DBoolean False, Field ''symbol_count'' DInt64 False,
      Field ''file_count'' DInt64 False, Field ''byte_size'' DInt64 False,
      Field ''image_base'' DUInt64 False]"

record info_producer =
  ip_info :: "module_info option"
  ip_done :: bool

definition module_info_blob_producer ::
  "crates \<Rightarrow> vgi_args \<Rightarrow> 'c symbols_state \<Rightarrow> rpc_error + info_producer" where
  "module_info_blob_producer K args st =
     (case const_blob args 0 of
        None \<Rightarrow> Inl (ValueError ''module_info: a BLOB argument is required'')
      | Some blob \<Rightarrow>
          Inr \<lparr>ip_info = ok_option (state_module_info_blob K blob st), ip_done = False\<rparr>)"

definition module_info_path_producer ::
  "crates \<Rightarrow> world \<Rightarrow> vgi_args \<Rightarrow> 'c symbols_state \<Rightarrow> rpc_error + info_producer" where
  "module_info_path_producer K W args st =
     (case va_const_str args 0 of
        None \<Rightarrow> Inl (ValueError ''module_info: a path argument is required'')
      | Some path \<Rightarrow>
          Inr \<lparr>ip_info = ok_option (state_module_info_path K W path st), ip_done = False\<rparr>)"

text \<open>One row when there is an info, no row else.\<close>

definition info_columns :: "module_info option \<Rightarrow> array list" where
  "info_columns info =
     (let rows = (case info of Some i \<Rightarrow> [i] | None \<Rightarrow> []) in
      [(DUtf8, map (StrCell \<circ> format_as_str \<circ> mi_format) rows), (DUtf8, map (StrCell \<circ> mi_arch) rows),
       (DUtf8, map (opt_cell StrCell \<circ> mi_build_id) rows),
       (DUtf8, map (opt_cell StrCell \<circ> mi_debug_id) rows),
       (DUtf8, map (opt_cell StrCell \<circ> mi_code_id) rows),
       (DBoolean, map (BoolCell \<circ> mi_has_dwarf) rows), (DBoolean, map (BoolCell \<circ> mi_has_pdb) rows),
       (DBoolean, map (BoolCell \<circ> mi_has_line_table) rows),
       (DInt64, map (I64Cell \<circ> mi_symbol_count) rows), (DInt64, map (I64Cell \<circ> mi_file_count) rows),
       (DInt64, map (I64Cell \<circ> mi_byte_size) rows), (DUInt64, map (U64Cell \<circ> mi_image_base) rows)])"

definition info_batch ::
  "'b arrow \<Rightarrow> field list \<Rightarrow> info_producer \<Rightarrow> 'b batch_result \<times> info_producer" where
  "info_batch A schema p =
     (if ip_done p then (Inr None, p)
      else
        let p' = p\<lparr>ip_done := True\<rparr>
        in case try_new A schema (info_columns (ip_info p')) of
             Inl e \<Rightarrow> (Inl e, p')
           | Inr b \<Rightarrow> (Inr (Some b), p'))"

section \<open>The batches conform to their schemas\<close>

lemma emit_batch_once:
  assumes "arrow_documented A" "conforming schema (cols v) rows"
  shows "\<exists>b. emit_batch A schema cols (Some v) = (Inr (Some b), None) \<and> aw_columns A b = cols v"
  using try_new_conforming [OF assms] by (auto simp: emit_batch_def)

lemma sources_conform: "conforming sources_schema (sources_columns specs) (length specs)"
  by (simp add: sources_schema_def sources_columns_def arrow_simps list_all_iff)

lemma status_conform: "conforming status_schema (status_columns rows) (length rows)"
  by (simp add: status_schema_def status_columns_def arrow_simps list_all_iff)

lemma info_conform:
  "conforming info_schema (info_columns info) (case info of Some _ \<Rightarrow> 1 | None \<Rightarrow> 0)"
  by (cases info) (simp_all add: info_schema_def info_columns_def arrow_simps)

lemma info_batch_once:
  assumes "arrow_documented A"
  shows "\<exists>b. info_batch A info_schema \<lparr>ip_info = info, ip_done = False\<rparr> =
    (Inr (Some b), \<lparr>ip_info = info, ip_done = True\<rparr>) \<and> aw_columns A b = info_columns info"
  using try_new_conforming [OF assms info_conform [of info]] by (auto simp: info_batch_def)

end
