(* ===== verification/Signatures.thy ===== *)
theory Signatures
  imports Table_Functions Scalar_Functions
begin

text \<open>
  What each function of the worker declares to the SDK of its arguments (\<^verbatim>\<open>argument_specs\<close>), and
  the name of the catalog \<^verbatim>\<open>main.rs\<close> settles on.
\<close>

section \<open>Arguments\<close>

text \<open>
  One constructor per constructor of \<^verbatim>\<open>ArgSpec\<close> the code calls, with name, position, type,
  description and closed vocabulary. A constant with a negative position is passed by name.
\<close>

datatype choice = BoolChoice bool | StrChoice str

datatype arg_spec =
    ColumnArg str int str str
  | AnyColumnArg str int str
  | ConstArg str int str str "choice list"

fun arg_name :: "arg_spec \<Rightarrow> str" where
  "arg_name (ColumnArg n p t d) = n"
| "arg_name (AnyColumnArg n p d) = n"
| "arg_name (ConstArg n p t d cs) = n"

fun arg_position :: "arg_spec \<Rightarrow> int" where
  "arg_position (ColumnArg n p t d) = p"
| "arg_position (AnyColumnArg n p d) = p"
| "arg_position (ConstArg n p t d cs) = p"

fun arg_type :: "arg_spec \<Rightarrow> str" where
  "arg_type (ColumnArg n p t d) = t"
| "arg_type (AnyColumnArg n p d) = ''any''"
| "arg_type (ConstArg n p t d cs) = t"

fun arg_choices :: "arg_spec \<Rightarrow> choice list" where
  "arg_choices (ConstArg n p t d cs) = cs"
| "arg_choices _ = []"

abbreviation either_bool :: "choice list" where
  "either_bool \<equiv> [BoolChoice True, BoolChoice False]"

subsection \<open>Scalar functions\<close>

definition symbolicate_args :: "arg_spec list" where
  \<open>symbolicate_args =
     [ColumnArg ''build_id'' 0 ''varchar''
        (''The module\'s normalized debug-id, or its raw per-format build-id hex. The '' @
         ''worker normalizes either form.''),
      ColumnArg ''address'' 1 ''uint64''
        (''The MODULE-RELATIVE virtual address (before ASLR slide / load bias). The caller '' @
         ''subtracts the module base first (the address-model contract).'')]\<close>

definition function_name_args :: "arg_spec list" where
  \<open>function_name_args =
     [ColumnArg ''build_id'' 0 ''varchar''
        (''The owning module\'s normalized debug-id, or the raw per-format build-id the '' @
         ''extractor captured for it; the worker accepts and normalizes either form.''),
      ColumnArg ''address'' 1 ''uint64''
        (''The MODULE-RELATIVE virtual address (the address within the module image, before '' @
         ''ASLR slide / load bias). The caller '' @
         em_dash @
         '' or the upstream minidump/pprof/perf extractor '' @
         em_dash @
         '' subtracts the module base first.'')]\<close>

definition inline_frames_args :: "arg_spec list" where
  \<open>inline_frames_args =
     [ColumnArg ''build_id'' 0 ''varchar''
        (''The module\'s normalized debug-id, or its raw per-format build-id hex.''),
      ColumnArg ''address'' 1 ''uint64''
        (''The MODULE-RELATIVE virtual address (before ASLR slide / load bias).'')]\<close>

definition demangle_args :: "bool \<Rightarrow> arg_spec list" where
  \<open>demangle_args with_lang =
     AnyColumnArg ''mangled'' 0
        (''The raw mangled or linkage symbol name to demangle; a name that is not mangled '' @
         ''is returned unchanged.'') #
       (if with_lang
        then [ConstArg ''lang'' 1 ''varchar''
          (''Mangling scheme: \'auto\' (default '' @ em_dash @
           '' detect from the string), \'cpp\', \'rust\', \'msvc\', or \'swift\'.'')
          (map StrChoice [''auto'', ''cpp'', ''rust'', ''msvc'', ''swift''])]
        else [])\<close>

subsection \<open>Table functions\<close>

definition module_info_blob_args :: "arg_spec list" where
  \<open>module_info_blob_args =
     [ConstArg ''blob'' 0 ''blob''
        (''The debug file bytes to inspect (e.g. `read_blob(\'/path/libfoo.so.debug\')`). '' @
         ''Parsed header-only '' @
         em_dash @
         '' no resolve, no cache insertion.'') []]\<close>

definition module_info_path_args :: "arg_spec list" where
  \<open>module_info_path_args =
     [ConstArg ''path'' 0 ''varchar''
        (''Filesystem path of the debug file to inspect. Parsed header-only '' @
         em_dash @
         '' no resolve, no cache insertion.'') []]\<close>

definition cache_status_args :: "arg_spec list" where
  \<open>cache_status_args =
     [ConstArg ''resident_only'' (- 1) ''boolean''
        (''When true, return only modules currently resident in RAM and skip evicted / '' @
         ''manifest-only (and proven-missing) entries. Defaults to false (every known '' @
         ''debug-id).'') either_bool]\<close>

definition cache_evict_args :: "arg_spec list" where
  \<open>cache_evict_args =
     [ConstArg ''debug_id'' (- 1) ''varchar''
        (''The normalized debug-id (or build-id alias) to evict. Omit to clear the whole '' @
         ''resident set. The manifest entry is kept either way.'') []]\<close>

definition add_source_args :: "arg_spec list" where
  \<open>add_source_args =
     [ConstArg ''kind'' 0 ''varchar''
        (''Source kind: \'dir\' / \'glob\' (local, zero-egress) or \'debuginfod\' / \'s3\' '' @
         ''/ \'http\' (remote, opt-in egress).'') [],
      ConstArg ''path'' (- 1) ''varchar''
        (''Filesystem path (for `dir`) or recursive glob (for `glob`).'') [],
      ConstArg ''url'' (- 1) ''varchar''
        (''Base URL for a `debuginfod` or `http` source.'') [],
      ConstArg ''bucket'' (- 1) ''varchar''
        (''Bucket name for an `s3` source.'') [],
      ConstArg ''enabled'' (- 1) ''boolean''
        (''Whether the source is active. Local sources default true; remote sources default '' @
         ''false (must be explicitly enabled to allow egress).'') either_bool,
      ConstArg ''secret'' (- 1) ''varchar''
        (''Name of the SDK secret carrying credentials for a remote source (never the '' @
         ''secret value itself).'') []]\<close>

definition sources_args :: "arg_spec list" where
  \<open>sources_args =
     [ConstArg ''enabled_only'' (- 1) ''boolean''
        (''When true, return only sources that are currently enabled (active). Defaults '' @
         ''to false (every registered source, enabled or not).'') either_bool]\<close>

definition drop_source_args :: "arg_spec list" where
  \<open>drop_source_args =
     [ConstArg ''source_id'' 0 ''varchar''
        (''The `source_id` returned by `add_source` to remove.'') []]\<close>

section \<open>The catalog name\<close>

text \<open>
  The catalog name: the variable is set when it is absent and then read; a value that is not
  Unicode cannot be read as a string.
\<close>

datatype env_value = Unicode str | NotUnicode bytes

definition catalog_name :: "env_value option \<Rightarrow> str" where
  "catalog_name var =
     (case (case var of None \<Rightarrow> Unicode ''symbols'' | Some v \<Rightarrow> v) of
        Unicode s \<Rightarrow> s
      | NotUnicode _ \<Rightarrow> ''symbols'')"

section \<open>Depending on declared arguments only\<close>

text \<open>
  Two calls that agree on a declared argument: on the positional constant (as a string and as
  an array), or on what the name is bound to.
\<close>

fun same_arg :: "vgi_args \<Rightarrow> vgi_args \<Rightarrow> arg_spec \<Rightarrow> bool" where
  "same_arg a b (ConstArg n p t d cs) \<longleftrightarrow>
     (if p < 0 then va_named_str a n = va_named_str b n \<and> va_named_bool a n = va_named_bool b n
      else va_const_str a (nat p) = va_const_str b (nat p) \<and> va_arg a (nat p) = va_arg b (nat p))"
| "same_arg a b _ \<longleftrightarrow> True"

definition same_args :: "arg_spec list \<Rightarrow> vgi_args \<Rightarrow> vgi_args \<Rightarrow> bool" where
  "same_args specs a b \<longleftrightarrow> list_all (same_arg a b) specs"

named_theorems signature_defs

lemmas [signature_defs] = symbolicate_args_def function_name_args_def inline_frames_args_def
  demangle_args_def module_info_blob_args_def module_info_path_args_def cache_status_args_def
  cache_evict_args_def add_source_args_def sources_args_def drop_source_args_def same_args_def

lemma add_source_declared:
  "same_args add_source_args a b \<Longrightarrow> add_source_producer a st = add_source_producer b st"
  by (simp add: signature_defs add_source_producer_def split: option.split)

lemma sources_declared:
  "same_args sources_args a b \<Longrightarrow> sources_producer a st = sources_producer b st"
  by (simp add: signature_defs sources_producer_def flag_arg_def)

lemma drop_source_declared:
  "same_args drop_source_args a b \<Longrightarrow> drop_source_producer a st = drop_source_producer b st"
  by (simp add: signature_defs drop_source_producer_def)

lemma cache_status_declared:
  "same_args cache_status_args a b \<Longrightarrow> cache_status_producer L a st = cache_status_producer L b st"
  by (simp add: signature_defs cache_status_producer_def flag_arg_def)

lemma module_info_declared:
  "same_args module_info_blob_args a b \<Longrightarrow>
     module_info_blob_producer K a st = module_info_blob_producer K b st"
  "same_args module_info_path_args a b \<Longrightarrow>
     module_info_path_producer K W a st = module_info_path_producer K W b st"
  by (simp_all add: signature_defs module_info_blob_producer_def module_info_path_producer_def
      const_blob_def)

lemma demangle_declared:
  "same_args (demangle_args with_lang) a b \<Longrightarrow>
     demangle_column K with_lang a col rows = demangle_column K with_lang b col rows"
  by (cases with_lang) (simp_all add: signature_defs demangle_column_def)

text \<open>Within an overload the names differ and the positions count up from zero.\<close>

definition well_declared :: "arg_spec list \<Rightarrow> bool" where
  "well_declared specs \<longleftrightarrow> distinct (map arg_name specs) \<and>
     (let ps = filter (\<lambda>p. 0 \<le> p) (map arg_position specs) in ps = map int [0..<length ps])"

section \<open>The demangler's selectors\<close>

text \<open>The spellings of a selector, after trimming and in lower case.\<close>

definition lang_table :: "(str \<times> demangle_lang) list" where
  "lang_table =
     [(''auto'', Auto), (''cpp'', Cpp), (''rust'', Rust), (''msvc'', Msvc), (''swift'', Swift),
      ('''', Auto), (''c++'', Cpp), (''cxx'', Cpp)]"

definition unknown_lang :: "str \<Rightarrow> str" where
  "unknown_lang t = ''unknown demangle lang '' @ [CHR 0x27] @ t @ [CHR 0x27]
     @ '' (expected auto/cpp/rust/msvc/swift)''"

lemma demangle_lang_parse_table:
  "demangle_lang_parse s = (case map_of lang_table (lowercase (trim s)) of
     Some lang \<Rightarrow> Inr lang | None \<Rightarrow> Inl (unknown_lang (lowercase (trim s))))"
  by (simp add: demangle_lang_parse_def lang_table_def unknown_lang_def Let_def)

lemma demangle_auto: "demangle K m Auto = try_demangle K m"
  by (simp add: demangle_def try_demangle_def)

lemma demangle_lang_parse_auto: "demangle_lang_parse ''auto'' = Inr Auto"
proof -
  have "trim ''auto'' = ''auto''" by (rule trim_graphic; simp add: is_ascii_graphic_def)
  then show ?thesis
    by (simp add: demangle_lang_parse_table lang_table_def to_ascii_lowercase_def Let_def)
qed

lemma map_rows: "map (\<lambda>i. f (xs ! i)) [0..<length xs] = map f xs"
  by (rule nth_equalityI) simp_all

end
