(* ===== verification/Metadata.thy ===== *)
theory Metadata
  imports Rust_Prelude
begin

text \<open>
  \<^verbatim>\<open>crates/symbols-worker/src/meta.rs\<close>: the discovery tags of a function, whose keywords are
  encoded as a JSON array of strings.
\<close>

text \<open>The JSON array of the trimmed, non-empty terms of a comma-separated list.\<close>

definition replace_char :: "char \<Rightarrow> str \<Rightarrow> str \<Rightarrow> str" where
  "replace_char c by_text s = concat (map (\<lambda>x. if x = c then by_text else [x]) s)"

definition json_quote :: "str \<Rightarrow> str" where
  "json_quote k =
     CHR 0x22 # replace_char (CHR 0x22) [CHR 0x5C, CHR 0x22] (replace_char (CHR 0x5C) [CHR 0x5C, CHR 0x5C] k)
       @ [CHR 0x22]"

definition keywords_json :: "str \<Rightarrow> str" where
  "keywords_json keywords =
     (let items = map json_quote (filter (\<lambda>k. k \<noteq> []) (map trim (split_on (CHR '','') keywords)))
      in CHR ''['' # join_with (CHR '','') items @ [CHR '']''])"

definition object_tags :: "str \<Rightarrow> str \<Rightarrow> str \<Rightarrow> str \<Rightarrow> (str \<times> str) list" where
  "object_tags title description_llm description_md keywords =
     [(''vgi.title'', title), (''vgi.doc_llm'', description_llm), (''vgi.doc_md'', description_md),
      (''vgi.keywords'', keywords_json keywords)]"

section \<open>Reading the array back\<close>

text \<open>
  The specification: a reader for a JSON array of strings, with the two escapes that the
  writer uses and without control characters, which JSON forbids inside a string.
  \<open>json_string\<close> starts behind an opening quote and also answers with what is left.
\<close>

fun json_string :: "str \<Rightarrow> (str \<times> str) option" where
  "json_string [] = None"
| "json_string (c # cs) =
     (if c = CHR 0x22 then Some ([], cs)
      else if c = CHR 0x5C then
        (case cs of
           [] \<Rightarrow> None
         | d # ds \<Rightarrow> if d \<in> {CHR 0x22, CHR 0x5C} then map_option (map_prod ((#) d) id) (json_string ds)
             else None)
      else if (of_char c :: nat) < 32 then None
      else map_option (map_prod ((#) c) id) (json_string cs))"

lemma json_string_shorter: "json_string s = Some (k, rest) \<Longrightarrow> length rest < length s"
  by (induction s arbitrary: k rest rule: json_string.induct)
    (fastforce split: if_splits list.splits)+

function json_items :: "str \<Rightarrow> str list option" where
  "json_items s =
     (case s of
        [] \<Rightarrow> None
      | q # t \<Rightarrow>
          (if q \<noteq> CHR 0x22 then None
           else (case json_string t of
                   None \<Rightarrow> None
                 | Some (k, rest) \<Rightarrow>
                     (case rest of
                        [] \<Rightarrow> None
                      | c # r \<Rightarrow>
                          (if c = CHR '']'' then (if r = [] then Some [k] else None)
                           else if c = CHR '','' then map_option ((#) k) (json_items r)
                           else None)))))"
  by pat_completeness auto
termination
  by (relation "measure length") (auto dest: json_string_shorter)

declare json_items.simps [simp del]

definition json_string_array :: "str \<Rightarrow> str list option" where
  "json_string_array s =
     (case s of
        c # t \<Rightarrow> if c \<noteq> CHR ''['' then None else if t = '']'' then Some [] else json_items t
      | [] \<Rightarrow> None)"

definition no_controls :: "str \<Rightarrow> bool" where
  "no_controls s \<longleftrightarrow> list_all (\<lambda>c. 32 \<le> (of_char c :: nat)) s"

lemma json_quote_Cons:
  "json_quote (c # k) = CHR 0x22 #
     (if c = CHR 0x5C then [CHR 0x5C, CHR 0x5C] else if c = CHR 0x22 then [CHR 0x5C, CHR 0x22] else [c])
     @ tl (json_quote k)"
  by (simp add: json_quote_def replace_char_def)

lemma json_quote_Nil: "json_quote [] = [CHR 0x22, CHR 0x22]"
  by (simp add: json_quote_def replace_char_def)

lemma json_quote_shape: "json_quote k = CHR 0x22 # tl (json_quote k)"
  by (simp add: json_quote_def)

lemma json_string_quote_iff:
  "json_string (tl (json_quote k) @ rest) = (if no_controls k then Some (k, rest) else None)"
proof (induction k)
  case Nil
  then show ?case by (simp add: json_quote_Nil no_controls_def)
next
  case (Cons c k)
  then show ?case
    by (cases "no_controls k") (auto simp: json_quote_Cons no_controls_def)
qed

lemma json_string_quote:
  "no_controls k \<Longrightarrow> json_string (tl (json_quote k) @ rest) = Some (k, rest)"
  by (simp add: json_string_quote_iff)

lemma json_items_join_iff:
  "ks \<noteq> [] \<Longrightarrow> json_items (join_with (CHR '','') (map json_quote ks) @ '']'') =
     (if list_all no_controls ks then Some ks else None)"
proof (induction ks rule: induct_list012)
  case (2 k)
  then show ?case
    using json_string_quote_iff [of k "'']''"] json_quote_shape [of k]
    by (subst json_items.simps) (cases "json_quote k"; simp)
next
  case (3 k l ks)
  define more where "more = join_with (CHR '','') (map json_quote (l # ks)) @ '']''"
  have "json_string (tl (json_quote k) @ CHR '','' # more) =
      (if no_controls k then Some (k, CHR '','' # more) else None)"
    by (rule json_string_quote_iff)
  moreover have "json_items more = (if list_all no_controls (l # ks) then Some (l # ks) else None)"
    using 3 by (simp add: more_def)
  moreover have "join_with (CHR '','') (map json_quote (k # l # ks)) @ '']'' =
      CHR 0x22 # tl (json_quote k) @ CHR '','' # more"
    using json_quote_shape [of k] unfolding more_def
    by (metis append_Cons append_assoc join_with.simps(3) list.simps(9))
  ultimately show ?case by (simp only:) (subst json_items.simps, simp)
qed simp

lemma set_strip_prefixes: "set (strip_prefixes n ps s) \<subseteq> set s"
proof (induction n ps s rule: strip_prefixes.induct)
  case (2 n ps s)
  then show ?case by (auto split: option.split dest: in_set_dropD)
qed simp

lemma set_trim: "set (trim s) \<subseteq> set s"
proof -
  have "set (trim_start_of ps t) \<subseteq> set t" for ps t
    unfolding trim_start_of_def by (rule set_strip_prefixes)
  then show ?thesis unfolding trim_def by (metis set_rev subset_trans)
qed

lemma set_split_on: "p \<in> set (split_on d s) \<Longrightarrow> set p \<subseteq> set s"
proof (induction s arbitrary: p)
  case (Cons c s)
  obtain q qs where q: "split_on d s = q # qs" using split_on_nonempty by (meson list.exhaust)
  then have "set q \<subseteq> set s" "\<And>r. r \<in> set qs \<Longrightarrow> set r \<subseteq> set s" using Cons.IH by simp_all
  with Cons.prems q show ?case by (auto split: if_splits)
qed simp

text \<open>The keywords in the array are the trimmed, non-empty terms.\<close>

definition keyword_terms :: "str \<Rightarrow> str list" where
  "keyword_terms keywords = filter (\<lambda>k. k \<noteq> []) (map trim (split_on (CHR '','') keywords))"

lemma keyword_terms_no_controls:
  assumes "no_controls keywords"
  shows "list_all no_controls (keyword_terms keywords)"
proof -
  have "no_controls (trim p)" if "p \<in> set (split_on (CHR '','') keywords)" for p
    using assms subsetD [OF set_trim] subsetD [OF set_split_on [OF that]]
    by (auto simp: no_controls_def list_all_iff)
  then show ?thesis by (auto simp: keyword_terms_def list_all_iff)
qed

lemma keywords_json_terms:
  "keywords_json keywords =
     CHR ''['' # join_with (CHR '','') (map json_quote (keyword_terms keywords)) @ '']''"
  by (simp add: keywords_json_def keyword_terms_def)

lemma read_keywords:
  "json_string_array (keywords_json keywords) =
     (if list_all no_controls (keyword_terms keywords) then Some (keyword_terms keywords) else None)"
proof (cases "keyword_terms keywords")
  case Nil
  then show ?thesis by (simp add: json_string_array_def keywords_json_terms)
next
  case (Cons k ks)
  have "join_with (CHR '','') (map json_quote (keyword_terms keywords)) @ '']'' \<noteq> '']''"
    using json_quote_shape [of k] by (cases ks) (auto simp: Cons)
  then show ?thesis
    using json_items_join_iff [of "keyword_terms keywords"]
    by (simp add: json_string_array_def keywords_json_terms Cons [THEN ssubst, of "\<lambda>ks. ks \<noteq> []"])
qed

section \<open>Reading the other structured tags\<close>

text \<open>
  The other structured tags (documented columns, examples, categories, tasks) are JSON arrays
  of objects whose members are strings. The specification again is a reader, with blanks
  allowed between the tokens.
\<close>

definition json_blank :: "char \<Rightarrow> bool" where
  "json_blank c \<longleftrightarrow> c \<in> {CHR 0x20, CHR 0x09, CHR 0x0A, CHR 0x0D}"

definition expect :: "char \<Rightarrow> str \<Rightarrow> str option" where
  "expect c s =
     (case dropWhile json_blank s of
        [] \<Rightarrow> None
      | d # ds \<Rightarrow> if d = c then Some ds else None)"

definition quoted_string :: "str \<Rightarrow> (str \<times> str) option" where
  "quoted_string s = Option.bind (expect CHR 0x22 s) json_string"

definition json_member :: "str \<Rightarrow> ((str \<times> str) \<times> str) option" where
  "json_member s =
     Option.bind (quoted_string s) (\<lambda>(k, t).
     Option.bind (expect CHR 0x3A t) (\<lambda>t.
     map_option (\<lambda>(v, t). ((k, v), t)) (quoted_string t)))"

lemma expect_shorter: "expect c s = Some t \<Longrightarrow> length t < length s"
  using length_dropWhile_le [of json_blank s]
  by (auto simp: expect_def split: list.splits if_splits)

lemma quoted_string_shorter: "quoted_string s = Some (k, t) \<Longrightarrow> length t < length s"
  by (auto simp: quoted_string_def bind_eq_Some_conv dest!: expect_shorter json_string_shorter)

lemma json_member_shorter: "json_member s = Some (m, t) \<Longrightarrow> length t < length s"
  by (auto simp: json_member_def bind_eq_Some_conv dest!: expect_shorter quoted_string_shorter)

text \<open>The members of an object behind its brace, and the objects of an array behind its bracket.\<close>

function json_members :: "str \<Rightarrow> ((str \<times> str) list \<times> str) option" where
  "json_members s =
     (case json_member s of
        None \<Rightarrow> None
      | Some (m, t) \<Rightarrow>
          (case expect CHR 0x2C t of
             Some u \<Rightarrow> map_option (map_prod ((#) m) id) (json_members u)
           | None \<Rightarrow> map_option (\<lambda>u. ([m], u)) (expect CHR 0x7D t)))"
  by pat_completeness auto
termination
  by (relation "measure length") (auto dest!: json_member_shorter expect_shorter)

declare json_members.simps [simp del]

lemma json_members_shorter: "json_members s = Some (ms, t) \<Longrightarrow> length t < length s"
proof (induction s arbitrary: ms t rule: json_members.induct)
  case (1 s)
  from "1.prems" obtain m u where m: "json_member s = Some (m, u)"
    by (subst (asm) json_members.simps) (auto split: option.splits)
  show ?case
  proof (cases "expect CHR 0x2C u")
    case None
    with "1.prems" m show ?thesis
      by (subst (asm) json_members.simps) (auto dest!: expect_shorter json_member_shorter)
  next
    case (Some v)
    with "1.prems" m obtain ms' where "json_members v = Some (ms', t)"
      by (subst (asm) json_members.simps) auto
    from "1.IH" [OF m refl Some this] m Some show ?thesis
      by (auto dest!: expect_shorter json_member_shorter)
  qed
qed

function json_objects :: "str \<Rightarrow> ((str \<times> str) list list \<times> str) option" where
  "json_objects s =
     (case Option.bind (expect CHR 0x7B s) json_members of
        None \<Rightarrow> None
      | Some (ms, t) \<Rightarrow>
          (case expect CHR 0x2C t of
             Some u \<Rightarrow> map_option (map_prod ((#) ms) id) (json_objects u)
           | None \<Rightarrow> map_option (\<lambda>u. ([ms], u)) (expect CHR 0x5D t)))"
  by pat_completeness auto
termination
  by (relation "measure length")
    (auto simp: bind_eq_Some_conv dest!: json_members_shorter expect_shorter)

declare json_objects.simps [simp del]

definition json_table :: "str \<Rightarrow> (str \<times> str) list list option" where
  "json_table s =
     (case Option.bind (expect CHR 0x5B s) json_objects of
        Some (rows, t) \<Rightarrow> if list_all json_blank t then Some rows else None
      | None \<Rightarrow> None)"

text \<open>
  A printer with the layouts that occur in the source: what stands before an object, what
  behind a comma inside one, what behind a colon, and what before the closing bracket.
\<close>

record json_layout =
  jl_before :: str
  jl_comma :: str
  jl_colon :: str
  jl_end :: str

fun print_members :: "json_layout \<Rightarrow> (str \<times> str) list \<Rightarrow> str" where
  "print_members l [] = []"
| "print_members l [(k, v)] = json_quote k @ CHR 0x3A # jl_colon l @ json_quote v"
| "print_members l ((k, v) # m # ms) =
     json_quote k @ CHR 0x3A # jl_colon l @ json_quote v @ CHR 0x2C # jl_comma l @ print_members l (m # ms)"

definition print_object :: "json_layout \<Rightarrow> (str \<times> str) list \<Rightarrow> str" where
  "print_object l ms = jl_before l @ CHR 0x7B # print_members l ms @ [CHR 0x7D]"

fun print_objects :: "json_layout \<Rightarrow> (str \<times> str) list list \<Rightarrow> str" where
  "print_objects l [] = []"
| "print_objects l [ms] = print_object l ms"
| "print_objects l (ms # ns # rows) = print_object l ms @ CHR 0x2C # print_objects l (ns # rows)"

definition print_table :: "json_layout \<Rightarrow> (str \<times> str) list list \<Rightarrow> str" where
  "print_table l rows = CHR 0x5B # print_objects l rows @ jl_end l @ [CHR 0x5D]"

definition blank_layout :: "json_layout \<Rightarrow> bool" where
  "blank_layout l \<longleftrightarrow> list_all json_blank (jl_before l) \<and> list_all json_blank (jl_comma l) \<and>
     list_all json_blank (jl_colon l) \<and> list_all json_blank (jl_end l)"

definition printable_row :: "(str \<times> str) list \<Rightarrow> bool" where
  "printable_row ms \<longleftrightarrow> ms \<noteq> [] \<and> list_all (\<lambda>(k, v). no_controls k \<and> no_controls v) ms"

lemma expect_blanks:
  "list_all json_blank w \<Longrightarrow> expect c (w @ s) = expect c s"
  by (induction w) (simp_all add: expect_def)

lemma expect_here: "\<not> json_blank c \<Longrightarrow> expect c (d # s) = (if json_blank d then expect c s else if d = c then Some s else None)"
  by (simp add: expect_def)

lemma json_blank_tokens [simp]:
  "\<not> json_blank CHR 0x22" "\<not> json_blank CHR 0x3A" "\<not> json_blank CHR 0x2C" "\<not> json_blank CHR 0x7B"
  "\<not> json_blank CHR 0x7D" "\<not> json_blank CHR 0x5B" "\<not> json_blank CHR 0x5D"
  by (simp_all add: json_blank_def)

lemma quoted_string_quote:
  "no_controls k \<Longrightarrow> quoted_string (json_quote k @ rest) = Some (k, rest)"
  using json_string_quote [of k rest] json_quote_shape [of k]
  by (cases "json_quote k") (simp_all add: quoted_string_def expect_here)

lemma json_quote_plain:
  "list_all (\<lambda>c. c \<noteq> CHR 0x22 \<and> c \<noteq> CHR 0x5C) k \<Longrightarrow> json_quote k = CHR 0x22 # k @ [CHR 0x22]"
proof -
  have "list_all (\<lambda>c. c \<noteq> d) k \<Longrightarrow> replace_char d t k = k" for d t
    by (induction k) (simp_all add: replace_char_def)
  then show "list_all (\<lambda>c. c \<noteq> CHR 0x22 \<and> c \<noteq> CHR 0x5C) k \<Longrightarrow> json_quote k = CHR 0x22 # k @ [CHR 0x22]"
    by (simp add: json_quote_def list_all_iff)
qed

lemma json_member_print:
  assumes "no_controls k" "no_controls v" "blank_layout l"
  shows "json_member (json_quote k @ CHR 0x3A # jl_colon l @ json_quote v @ rest) = Some ((k, v), rest)"
proof -
  have "quoted_string (jl_colon l @ json_quote v @ rest) = quoted_string (json_quote v @ rest)"
    using assms(3) by (simp add: quoted_string_def expect_blanks blank_layout_def)
  with assms show ?thesis by (simp add: json_member_def quoted_string_quote expect_here)
qed

lemma json_member_blanks: "list_all json_blank w \<Longrightarrow> json_member (w @ s) = json_member s"
  by (simp add: json_member_def quoted_string_def expect_blanks)

lemma json_members_blanks: "list_all json_blank w \<Longrightarrow> json_members (w @ s) = json_members s"
  by (subst (1 2) json_members.simps) (simp add: json_member_blanks)

lemma json_members_print:
  "blank_layout l \<Longrightarrow> printable_row ms \<Longrightarrow>
     json_members (print_members l ms @ CHR 0x7D # rest) = Some (ms, rest)"
proof (induction l ms rule: print_members.induct)
  case (2 l k v)
  then show ?case
    by (subst json_members.simps) (simp add: json_member_print printable_row_def expect_here)
next
  case (3 l k v m ms)
  then have "json_members (jl_comma l @ print_members l (m # ms) @ CHR 0x7D # rest) = Some (m # ms, rest)"
    by (simp add: json_members_blanks blank_layout_def printable_row_def)
  with 3 show ?case
    by (subst json_members.simps) (simp add: json_member_print printable_row_def expect_here)
qed (simp add: printable_row_def)

lemma json_objects_print:
  "blank_layout l \<Longrightarrow> rows \<noteq> [] \<Longrightarrow> list_all printable_row rows \<Longrightarrow>
     json_objects (print_objects l rows @ jl_end l @ CHR 0x5D # rest) = Some (rows, rest)"
proof (induction l rows rule: print_objects.induct)
  case (2 l ms)
  then have "list_all json_blank (jl_before l)" "list_all json_blank (jl_end l)"
    by (simp_all add: blank_layout_def)
  with 2 show ?case
    by (subst json_objects.simps)
      (simp add: print_object_def expect_blanks expect_here json_members_print)
next
  case (3 l ms ns rows)
  then have "list_all json_blank (jl_before l)" by (simp add: blank_layout_def)
  with 3 show ?case
    by (subst json_objects.simps)
      (simp add: print_object_def expect_blanks expect_here json_members_print)
qed simp

lemma json_table_print:
  assumes "blank_layout l" "rows \<noteq> []" "list_all printable_row rows"
  shows "json_table (print_table l rows) = Some rows"
  using json_objects_print [OF assms, of "[]"]
  by (simp add: json_table_def print_table_def expect_here)

end
