(* ===== verification/Handoff.thy ===== *)
theory Handoff
  imports State_Spec
begin

text \<open>
  The hand-off of the durable state: what \<^verbatim>\<open>to_manifest\<close> writes and what \<^verbatim>\<open>rehydrate\<close> makes
  of it in a fresh cache.
\<close>

section \<open>Rehydrating a list of entries\<close>

definition entry_of :: "manifest_entry list \<Rightarrow> str \<Rightarrow> manifest_entry option" where
  "entry_of es k = map_of (map (\<lambda>e. (me_debug_id e, e)) es) k"

lemma dom_entry_of: "dom (entry_of es) = me_debug_id ` set es"
proof -
  have "entry_of es = map_of (map (\<lambda>e. (me_debug_id e, e)) es)" by (simp add: entry_of_def fun_eq_iff)
  then show ?thesis by (simp add: dom_map_of_conv_image_fst image_image)
qed

lemma rehydrate_entry_simps [simp]:
  "sc_aliases (rehydrate_entry e s) = (sc_aliases s)(canonical_token (me_debug_id e) \<mapsto> me_debug_id e)"
  "sc_entries (rehydrate_entry e s) = upsert (me_debug_id e) e (sc_entries s)"
  "sc_negative (rehydrate_entry e s) =
     (if me_miss e then insert (canonical_token (me_debug_id e)) (sc_negative s) else sc_negative s)"
  by (simp_all add: rehydrate_entry_def Let_def)

lemma rehydrate_entries:
  "distinct (map me_debug_id es) \<Longrightarrow>
     map_of (sc_entries (fold rehydrate_entry es s)) = map_of (sc_entries s) ++ entry_of es"
proof (induction es arbitrary: s)
  case Nil
  then show ?case by (simp add: entry_of_def map_add_def)
next
  case (Cons e es)
  have "me_debug_id e \<notin> dom (entry_of es)"
    using Cons.prems by (simp add: dom_entry_of)
  with Cons show ?case
    by (auto simp: fun_eq_iff map_add_def entry_of_def domIff split: option.splits)
qed

lemma rehydrate_negative:
  "sc_negative (fold rehydrate_entry es s) =
     sc_negative s \<union> (canonical_token \<circ> me_debug_id) ` {e \<in> set es. me_miss e}"
  by (induction es arbitrary: s) auto

section \<open>Exporting\<close>

lemma sort_key_distinct_less:
  "distinct (map f xs) \<Longrightarrow> sorted_wrt (<) (map f (sort_key f xs))" for f :: "'a \<Rightarrow> 'k :: linorder"
  by (simp add: strict_sorted_iff distinct_map)

lemma index_inv_key:
  assumes "index_inv s" "p \<in> set (sc_entries s)"
  shows "me_debug_id (snd p) = fst p"
proof -
  have "list_all (\<lambda>(k, e). me_debug_id e = k \<and> canonical_token k \<in> dom (sc_aliases s)) (sc_entries s)"
    using assms(1) by (simp add: index_inv_def)
  with assms(2) show ?thesis by (auto simp: list_all_iff)
qed

lemma index_inv_ids:
  assumes "index_inv s"
  shows "map me_debug_id (map snd (sc_entries s)) = map fst (sc_entries s)"
  unfolding map_map by (rule map_cong [OF refl]) (simp add: index_inv_key [OF assms])

lemma entry_of_entries:
  assumes "index_inv s" "set es = set (map snd (sc_entries s))" "distinct (map me_debug_id es)"
  shows "entry_of es = map_of (sc_entries s)"
proof
  fix k
  have e: "(k, e) \<in> set (sc_entries s) \<longleftrightarrow> e \<in> set es \<and> me_debug_id e = k" for e
  proof
    assume "(k, e) \<in> set (sc_entries s)"
    with index_inv_key [OF assms(1) this] assms(2) show "e \<in> set es \<and> me_debug_id e = k" by force
  next
    assume "e \<in> set es \<and> me_debug_id e = k"
    with assms(2) obtain p where "p \<in> set (sc_entries s)" "snd p = e" "me_debug_id e = k" by auto
    with index_inv_key [OF assms(1), of p] show "(k, e) \<in> set (sc_entries s)" by (cases p) simp
  qed
  have d: "distinct (map fst (map (\<lambda>e. (me_debug_id e, e)) es))" using assms(3) by (simp add: comp_def)
  have "entry_of es k = Some e \<longleftrightarrow> map_of (sc_entries s) k = Some e" for e
  proof -
    have "distinct (map fst (sc_entries s))" using assms(1) by (simp add: index_inv_def)
    then have "map_of (sc_entries s) k = Some e \<longleftrightarrow> (k, e) \<in> set (sc_entries s)"
      by (rule map_of_eq_Some_iff)
    with map_of_eq_Some_iff [OF d, of k e] e [of e] show ?thesis
      unfolding entry_of_def by auto
  qed
  then show "entry_of es k = map_of (sc_entries s) k" by (metis not_Some_eq)
qed

context resident_lru
begin

lemma export_entries:
  assumes "index_inv s"
  shows "sorted_wrt (<) (map me_debug_id (cm_entries (fst (to_manifest L sources s))))"
    "entry_of (cm_entries (fst (to_manifest L sources s))) =
       map_of (sc_entries (snd (to_manifest L sources s)))"
    "cm_sources (fst (to_manifest L sources s)) = sources"
proof -
  define s1 where "s1 = sync_entries L s"
  have inv: "index_inv s1"
    unfolding s1_def by (rule same_index_inv [OF sync_entries_frame(3) assms])
  have m: "to_manifest L sources s =
      (\<lparr>cm_sources = sources, cm_entries = sort_key me_debug_id (map snd (sc_entries s1))\<rparr>, s1)"
    by (simp add: to_manifest_def s1_def Let_def)
  have d: "distinct (map me_debug_id (map snd (sc_entries s1)))"
    unfolding index_inv_ids [OF inv] using inv by (simp add: index_inv_def)
  show "sorted_wrt (<) (map me_debug_id (cm_entries (fst (to_manifest L sources s))))"
    unfolding m fst_conv cache_manifest.simps by (rule sort_key_distinct_less [OF d])
  then have "distinct (map me_debug_id (sort_key me_debug_id (map snd (sc_entries s1))))"
    unfolding m fst_conv cache_manifest.simps by (simp add: strict_sorted_iff)
  then show "entry_of (cm_entries (fst (to_manifest L sources s))) =
       map_of (sc_entries (snd (to_manifest L sources s)))"
    unfolding m fst_conv snd_conv cache_manifest.simps
    by (intro entry_of_entries [OF inv]) simp_all
  show "cm_sources (fst (to_manifest L sources s)) = sources" by (simp add: m)
qed

text \<open>The statistics of the resident modules are in what is exported.\<close>

lemma fold_sync_entry:
  "distinct (map fst ps) \<Longrightarrow>
   map_of (sc_entries (fold (\<lambda>(d, r). fold_back d r) ps s)) k =
     (case map_of ps k of
        Some r \<Rightarrow> map_option (refresh_entry r) (map_of (sc_entries s) k)
      | None \<Rightarrow> map_of (sc_entries s) k)"
proof (induction ps arbitrary: s)
  case (Cons p ps)
  obtain d r where p: "p = (d, r)" by (cases p)
  with Cons.prems have "map_of ps d = None" by (simp add: map_of_eq_None_iff)
  with Cons p show ?case by (simp split: option.split)
qed simp

lemma sync_entry:
  "map_of (sc_entries (sync_entries L s)) k =
     (case map_of (items s) k of
        Some r \<Rightarrow> map_option (refresh_entry r) (map_of (sc_entries s) k)
      | None \<Rightarrow> map_of (sc_entries s) k)"
  unfolding sync_entries_def by (rule fold_sync_entry [OF items_distinct])

lemma exported:
  "set (cm_entries (fst (to_manifest L sources s))) = snd ` set (sc_entries (sync_entries L s))"
    "snd (to_manifest L sources s) = sync_entries L s"
  by (simp_all add: to_manifest_def Let_def)

lemma exported_misses:
  assumes "index_inv s"
  shows "sc_negative (rehydrate (fst (to_manifest L sources s)) (cache_new L b n)) =
    canonical_token ` {k. \<exists>e. map_of (sc_entries s) k = Some e \<and> me_miss e}"
proof -
  have inv: "index_inv (sync_entries L s)"
    by (rule same_index_inv [OF sync_entries_frame(3) assms])
  then have d: "distinct (map fst (sc_entries (sync_entries L s)))" by (simp add: index_inv_def)
  let ?es = "sc_entries (sync_entries L s)"
  have miss: "(\<exists>e. map_of ?es k = Some e \<and> me_miss e) \<longleftrightarrow> (\<exists>e. map_of (sc_entries s) k = Some e \<and> me_miss e)" for k
    by (auto simp: sync_entry split: option.splits)
  have "sc_negative (rehydrate (fst (to_manifest L sources s)) (cache_new L b n)) =
      (canonical_token \<circ> me_debug_id) ` {e \<in> snd ` set ?es. me_miss e}"
    by (simp add: rehydrate_def rehydrate_negative exported cache_new_def)
  also have "\<dots> = canonical_token ` {k. \<exists>e. (k, e) \<in> set ?es \<and> me_miss e}"
  proof -
    have "me_debug_id ` {e \<in> snd ` set ?es. me_miss e} = {k. \<exists>e. (k, e) \<in> set ?es \<and> me_miss e}"
      using index_inv_key [OF inv] by force
    then show ?thesis by (metis image_comp)
  qed
  finally show ?thesis using d miss by simp
qed

text \<open>A miss recorded for a token that has an entry already leaves no trace in the entries.\<close>

lemma record_miss_entry:
  assumes "map_of (sc_entries s) (canonical_token t) \<noteq> None"
  shows "is_known_miss (record_miss now t s) t \<and> sc_entries (record_miss now t s) = sc_entries s"
  using assms by (auto simp: is_known_miss_def record_miss_def or_insert_def Let_def)

text \<open>
  So, when the module of the token was found once and has been evicted and its source dropped since,
  the miss is known to the exporter and unknown to the importer.
\<close>

lemma lost_miss:
  assumes "index_inv s" "map_of (sc_entries s) (canonical_token t) \<noteq> None"
    and "\<And>k e. map_of (sc_entries s) k = Some e \<Longrightarrow> me_miss e \<Longrightarrow> canonical_token k \<noteq> canonical_token t"
  shows "is_known_miss (record_miss now t s) t \<and>
    \<not> is_known_miss (rehydrate (fst (to_manifest L sources (record_miss now t s))) (cache_new L b n)) t"
proof -
  note kept = record_miss_entry [OF assms(2), of now]
  have "sc_negative (rehydrate (fst (to_manifest L sources (record_miss now t s))) (cache_new L b n)) =
      canonical_token ` {k. \<exists>e. map_of (sc_entries s) k = Some e \<and> me_miss e}"
    using exported_misses [OF index_inv_record_miss [OF assms(1), of now t]] by (simp only: kept)
  moreover have "canonical_token t \<notin> canonical_token ` {k. \<exists>e. map_of (sc_entries s) k = Some e \<and> me_miss e}"
    using assms(3) by fastforce
  ultimately show ?thesis using kept by (simp add: is_known_miss_def)
qed

end

end
