(* ===== verification/Samples.thy ===== *)
theory Samples
  imports Transparency Signatures Metadata Handoff
begin

text \<open>
  Concrete instances on which the hypotheses of the properties hold: a crate record \<open>demo\<close>
  that reads a byte string \<open>7f :: build-id\<close> as an ELF image and panics on \<open>ff\<close>, a file
  system \<open>demo_world\<close> with two files, and the modules and states built from them by the
  model's own operations.
\<close>

section \<open>Crates\<close>

definition demo_object :: "bytes \<Rightarrow> object_file" where
  "demo_object data =
     \<lparr>of_architecture = X86_64, of_little_endian = True, of_relative_base = 0x400000,
      of_build_id = Returned (Inr (Some (drop 1 data))),
      of_mach_uuid = Returned (Inr None), of_pdb_info = Returned (Inr None),
      of_symbols = Returned
        [\<lparr>os_is_text = True, os_name = Some ''run'', os_address = 0x20\<rparr>,
         \<lparr>os_is_text = True, os_name = Some ''main'', os_address = 0x10\<rparr>,
         \<lparr>os_is_text = False, os_name = Some ''data'', os_address = 0x18\<rparr>],
      of_section_by_name = (\<lambda>_. None)\<rparr>"

definition demo_views :: "raw_view list" where
  "demo_views =
     [\<lparr>rv_function = Some (Some ''leaf''), rv_location = Some (Some ''leaf.c'', Some 7, Some 1)\<rparr>,
      \<lparr>rv_function = Some (Some ''outer''), rv_location = Some (Some ''outer.c'', Some 42, None)\<rparr>]"

definition demo_ctx :: dwarf_ctx where
  "demo_ctx addr =
     (if addr < 0x10 then Returned (Inl ''no unit'')
      else Returned (Inr (chain_iter (if addr < 0x20 then demo_views else []) IterEnd)))"

definition demo_debug_id :: "bytes \<Rightarrow> debug_id" where
  "demo_debug_id guid =
     \<lparr>did_breakpad = hex_encode guid @ ''0'', did_uuid_simple = hex_encode guid\<rparr>"

definition demo :: crates where
  "demo =
     \<lparr>cr_file_kind = (\<lambda>data. case data of
          [] \<Rightarrow> Returned (Inl ''empty'')
        | b # _ \<Rightarrow> if b = 0x7f then Returned (Inr Elf64)
            else if b = 0xff then Panicked else Returned (Inl ''unknown'')),
      cr_object_parse = (\<lambda>data. Returned (Inr (demo_object data))),
      cr_from_guid_age = (\<lambda>guid age. Some (demo_debug_id guid)),
      cr_from_uuid = demo_debug_id,
      cr_from_parts = (\<lambda>guid age. demo_debug_id guid),
      cr_gimli_load = (\<lambda>load. Returned (Inr \<lparr>gd_units_next = (\<lambda>n. Returned UnitsEnd)\<rparr>)),
      cr_from_dwarf = (\<lambda>d. Returned (Inr demo_ctx)),
      cr_pdb_open = (\<lambda>data. Returned (Inl ''no pdb'')),
      cr_demangle = (\<lambda>m l s. s)\<rparr>"

section \<open>Modules\<close>

definition demo_file :: bytes where
  "demo_file = [0x7f, 0xab, 0xcd]"

definition demo_identity :: identity where
  "demo_identity =
     \<lparr>id_format = Elf, id_arch = ''x86_64'',
      id_debug_id = demo_debug_id (elf_guid [0xab, 0xcd]),
      id_raw_build_id = Some ''abcd'', id_code_id = Some ''abcd'', id_image_base = 0x400000\<rparr>"

definition demo_dwarf :: dwarf_module where
  "demo_dwarf =
     \<lparr>dw_ctx = demo_ctx, dw_identity = demo_identity, dw_name = ''a.debug'',
      dw_symbols = [(0x10, ''main''), (0x20, ''run'')], dw_file_count = 0,
      dw_has_line_table = False, dw_byte_size = 3\<rparr>"

abbreviation demo_module :: parsed_module where
  "demo_module \<equiv> DwarfMod demo_dwarf"

definition demo_pdb :: pdb_module where
  "demo_pdb =
     \<lparr>pm_data = Returned (Inr \<lparr>pc_function_count = 1, pc_find_frames = (\<lambda>rva. Returned (Inr
        (if rva = 0x1000
         then Some [\<lparr>pfr_function = Some ''leaf'', pfr_file = Some ''leaf.cpp'', pfr_line = Some 7\<rparr>,
           \<lparr>pfr_function = Some ''outer'', pfr_file = None, pfr_line = None\<rparr>]
         else None)))\<rparr>),
      pm_identity = demo_identity\<lparr>id_format := Pdb\<rparr>, pm_name = ''app.pdb'',
      pm_byte_size = 4096, pm_symbol_count = 1\<rparr>"

lemma starts_with_magic: "starts_with demo_file PDB_MAGIC = False"
  by (simp add: starts_with_def demo_file_def PDB_MAGIC_def)

lemma hex_abcd: "hex_encode [0xab, 0xcd] = ''abcd''"
  by (simp add: hex_digit_def, code_simp)

lemma demo_entry_points:
  "cr_object_parse demo = (\<lambda>data. Returned (Inr (demo_object data)))"
  "cr_gimli_load demo = (\<lambda>load. Returned (Inr \<lparr>gd_units_next = (\<lambda>n. Returned UnitsEnd)\<rparr>))"
  "cr_from_dwarf demo = (\<lambda>d. Returned (Inr demo_ctx))"
  by (simp_all add: demo_def)

lemma demo_identity_of: "identity_from_object demo demo_file = Returned (Inr demo_identity)"
  by (simp add: identity_from_object_def demo_def demo_file_def object_ids_def demo_object_def
      ok_flatten_or_def debug_id_or_def Let_def hex_abcd demo_identity_def
      del: hex_encode.simps)

lemma demo_stats: "dwarf_stats \<lparr>gd_units_next = (\<lambda>n. Returned UnitsEnd)\<rparr> lim = Returned (0, False)"
  unfolding dwarf_stats_def by (subst dwarf_stats_from.simps) simp

lemma demo_symbols:
  "symbol_table demo
     [\<lparr>os_is_text = True, os_name = Some ''run'', os_address = 0x20\<rparr>,
      \<lparr>os_is_text = True, os_name = Some ''main'', os_address = 0x10\<rparr>,
      \<lparr>os_is_text = False, os_name = Some ''data'', os_address = 0x18\<rparr>] =
   [(0x10, ''main''), (0x20, ''run'')]"
  by (simp add: symbol_table_def List.map_filter_def try_demangle_def demo_def)

lemma demo_parse: "parse_module demo demo_file ''a.debug'' default_limits = Inr demo_module"
proof -
  have "dwarf_parse demo demo_file ''a.debug'' default_limits = Returned (Inr demo_dwarf)"
    unfolding dwarf_parse_def demo_identity_of
    by (simp add: demo_entry_points demo_stats demo_symbols demo_object_def demo_dwarf_def
        demo_file_def)
  then show ?thesis
    by (simp add: parse_module_def starts_with_magic Let_def default_limits_def)
       (simp add: demo_file_def)
qed

lemma demo_frames:
  "map rf_function (parsed_resolve demo demo_module 0x11 default_limits) = [Some ''leaf'', Some ''outer'']"
  by (simp add: parsed_resolve_def dwarf_resolve_def dwarf_probe_ok_def demo_dwarf_def demo_ctx_def
      demo_views_def chain_iter_def collect_frames.simps default_limits_def number_frames_def
      fill_dwarf_def raw_of_view_def try_demangle_def demo_def)

text \<open>A second module with another identity.\<close>

definition demo_dwarf2 :: dwarf_module where
  "demo_dwarf2 = demo_dwarf
     \<lparr>dw_identity := demo_identity
        \<lparr>id_debug_id := demo_debug_id (elf_guid [0x11]), id_raw_build_id := Some ''11''\<rparr>,
      dw_byte_size := 9\<rparr>"

abbreviation demo_module2 :: parsed_module where
  "demo_module2 \<equiv> DwarfMod demo_dwarf2"

lemma demo_guids:
  "hex_encode (elf_guid [0xab, 0xcd]) = ''abcd0000000000000000000000000000''"
  "hex_encode (elf_guid [0x11]) = ''11000000000000000000000000000000''"
  by (simp add: elf_guid_def hex_digit_def, code_simp)+

lemma demo_keys:
  "debug_id_str demo_identity = ''abcd00000000000000000000000000000''"
  "debug_id_str (dw_identity demo_dwarf2) = ''110000000000000000000000000000000''"
  by (simp_all add: debug_id_str_def demo_identity_def demo_debug_id_def demo_guids demo_dwarf2_def
      demo_dwarf_def) code_simp+

lemma demo_tokens:
  "canonical_token ''abcd00000000000000000000000000000'' = ''abcd00000000000000000000000000000''"
  "canonical_token ''110000000000000000000000000000000'' = ''110000000000000000000000000000000''"
  "canonical_token ''AB-CD'' = ''abcd''" "canonical_token ''abcd'' = ''abcd''"
  "canonical_token ''11'' = ''11''"
  by code_simp+

lemma demo_alias:
  "''abcd'' \<in> set (aliases demo_identity)" "''11'' \<notin> set (aliases demo_identity)"
  "''11'' \<in> set (aliases (dw_identity demo_dwarf2))"
  "''abcd'' \<notin> set (aliases (dw_identity demo_dwarf2))"
  unfolding set_aliases
  by (simp_all add: demo_keys demo_tokens)
    (simp_all add: demo_identity_def demo_dwarf2_def demo_dwarf_def demo_debug_id_def demo_guids
      demo_tokens, code_simp+)

section \<open>A file system and the states of a run\<close>

definition demo_world :: world where
  "demo_world =
     \<lparr>w_tree = (\<lambda>p. if p = ''/srv'' then Listing
          [RegularFile ''a.debug'', SubDir ''x'' (Listing []), RegularFile ''notes.txt'']
        else Unreadable False),
      w_mmap = (\<lambda>p. if p = ''/srv/a.debug'' then Some demo_file
        else if p = ''/srv/notes.txt'' then Some [0x23] else None),
      w_glob = (\<lambda>p. None), w_is_dir = (\<lambda>p. False),
      w_read = (\<lambda>p. if p = ''/srv/a.debug'' then Inr demo_file
        else if p = ''/srv/notes.txt'' then Inr [0x23] else Inl ''No such file'')\<rparr>"

definition demo_fresh :: "resident lru_list symbols_state" where
  "demo_fresh = state_with_budgets list_lru 10 2"

definition demo_state :: "resident lru_list symbols_state" where
  "demo_state =
     state_step list_lru demo demo_world (OpAddSource ''dir'' (Some ''/srv'') None None None None)
       demo_fresh"

definition demo_cache :: "resident lru_list symbol_cache" where
  "demo_cache = snd (cache_insert list_lru 7 demo_module OriginInline (cache_new list_lru 10 2))"

lemma plain_kinds:
  "trim ''dir'' = ''dir''" "trim ''inline'' = ''inline''" "trim ''HTTP'' = ''HTTP''"
  by (rule trim_graphic; simp add: is_ascii_graphic_def)+

lemma lower_kinds:
  "lowercase ''dir'' = ''dir''" "lowercase ''inline'' = ''inline''" "lowercase ''HTTP'' = ''http''"
  by code_simp+

lemma demo_sources:
  "rg_sources (st_sources demo_state) = [\<lparr>ss_source_id = ''src0'', ss_kind = ''dir'',
      ss_path = Some ''/srv'', ss_url = None, ss_bucket = None, ss_enabled = True,
      ss_egress = False, ss_secret = None\<rparr>]"
proof -
  have "show_u64 0 = ''0''" by code_simp
  moreover have "add_error ''dir'' (Some ''/srv'') None None = None" by code_simp
  ultimately show ?thesis
    by (simp only: demo_state_def demo_fresh_def state_step.simps state_add_source_def
        state_with_budgets_def registry_new_def registry_add_def plain_kinds lower_kinds Let_def) simp
qed

lemma demo_stable: "world_stable demo_world"
  by (simp add: world_stable_def demo_world_def)

lemma demo_probes: "probes_return demo_world demo"
proof -
  have "probe_identity demo demo_file = Returned (Inr demo_identity)"
    by (simp add: probe_identity_def starts_with_magic demo_identity_of)
  moreover have "probe_identity demo [0x23] =
      Returned (Inl (sym_error_new BadMagic ''file kind: unknown''))"
    by (simp add: probe_identity_def starts_with_def PDB_MAGIC_def identity_from_object_def demo_def)
  ultimately show ?thesis
    by (simp add: probes_return_def aliases_of_def demo_world_def)
qed

lemma demo_fresh_reachable: "reachable list_lru demo demo_world demo_fresh"
  unfolding demo_fresh_def by (rule reachable.start)

lemma demo_reachable: "reachable list_lru demo demo_world demo_state"
  unfolding demo_state_def
  by (rule reachable.step [OF demo_fresh_reachable])
    (simp add: demo_fresh_def state_with_budgets_def registry_new_def)

lemma list_lru_laws: "lru_laws (list_lru :: ('v lru_list, 'v) lru_api)"
  by (rule ref_lru.lru_laws_axioms)

section \<open>Running the cache\<close>

lemma demo_bytes: "parsed_resident_bytes demo_module = 3" "parsed_resident_bytes demo_module2 = 9"
  by (simp_all add: dwarf_resident_bytes_def demo_dwarf_def demo_dwarf2_def)

lemma demo_keys_differ:
  "key_of demo_module2 \<noteq> key_of demo_module" "key_of demo_module \<noteq> key_of demo_module2"
  by (simp_all add: demo_keys [unfolded] demo_dwarf_def)

lemmas insert_eval = cache_insert_def insert_unbounded_def Let_def evict_to_budget_def list_lru_def
  put_list_def

lemma demo_cache_resident:
  "sc_resident demo_cache = ll_put (ll_new 2) (key_of demo_module) (new_resident 7 demo_module)"
  "sc_resident_bytes demo_cache = 3" "sc_max_bytes demo_cache = 10"
  by (simp_all add: demo_cache_def insert_eval cache_new_def new_resident_def demo_bytes
      numeral_2_eq_2 del: parsed_resident_bytes.simps)

lemma demo_cache_items:
  "lru_iter list_lru (sc_resident demo_cache) = [(key_of demo_module, new_resident 7 demo_module)]"
  by (simp add: demo_cache_resident list_lru_def put_list_def)

lemma demo_cache_inv: "cache_inv list_lru demo_cache"
  unfolding demo_cache_def by (intro ref_cache.cache_inv_insert cache_new_inv list_lru_laws)

text \<open>A cache with room for one module only, before and after a second insertion.\<close>

definition demo_full :: "resident lru_list symbol_cache" where
  "demo_full = snd (cache_insert list_lru 7 demo_module OriginInline (cache_new list_lru 100 1))"

lemma demo_full_resident:
  "sc_resident demo_full = ll_put (ll_new 1) (key_of demo_module) (new_resident 7 demo_module)"
  "sc_resident_bytes demo_full = 3" "sc_max_bytes demo_full = 100"
  by (simp_all add: demo_full_def insert_eval cache_new_def new_resident_def demo_bytes
      del: parsed_resident_bytes.simps)

text \<open>
  A state whose parse cap admits no file, and one in which a token was looked for before any
  source was registered.
\<close>

definition demo_tight :: "resident lru_list symbols_state" where
  "demo_tight = demo_state\<lparr>st_limits := default_limits\<lparr>lim_max_parse_bytes := 0\<rparr>\<rparr>"

definition demo_missed :: "resident lru_list symbols_state" where
  "demo_missed = demo_fresh\<lparr>st_cache := record_miss 5 ''AB-CD'' (st_cache demo_fresh)\<rparr>"

section \<open>Arrow\<close>

text \<open>A batch is the schema with its columns, and is refused when they do not conform.\<close>

definition demo_rows :: "array list \<Rightarrow> nat" where
  "demo_rows cols = (case cols of [] \<Rightarrow> 0 | c # _ \<Rightarrow> length (snd c))"

definition demo_arrow :: "(field list \<times> array list) arrow" where
  "demo_arrow =
     \<lparr>aw_try_new = (\<lambda>schema cols.
        if conforming schema cols (demo_rows cols) then Inr (schema, cols) else Inl ''mismatch''),
      aw_struct_from = (\<lambda>pairs.
        Returned (DStruct (map fst pairs), struct_rows (demo_rows (map snd pairs)) (map snd pairs))),
      aw_columns = snd, aw_list_item = (''item'', True)\<rparr>"

lemma demo_arrow_documented: "arrow_documented demo_arrow"
proof -
  have "demo_rows cols = rows" if "conforming schema cols rows" for schema cols rows
  proof (cases schema)
    case Nil
    with that show ?thesis by (simp add: conforming_def)
  next
    case (Cons f fs)
    with that obtain c cs where "cols = c # cs" "column_fits rows f c"
      by (auto simp: conforming_def list_all2_Cons1)
    then show ?thesis by (cases f; cases c) (simp add: demo_rows_def)
  qed
  then show ?thesis by (auto simp: arrow_documented_def demo_arrow_def)
qed

end
