(* ===== verification/Fuzz_Targets.thy ===== *)
theory Fuzz_Targets
  imports Parsed_Module
begin

text \<open>
  \<^verbatim>\<open>crates/symbols-worker/fuzz/fuzz_targets\<close>: the three harnesses that are to run without a panic
  on arbitrary bytes. A harness is an outcome: it returns or it panics.

  \<^verbatim>\<open>cargo-fuzz\<close> installs a panic hook that aborts the process as soon as a panic starts, before an
  enclosing \<^verbatim>\<open>catch_unwind\<close> can contain it (the comment on \<^verbatim>\<open>dwarf_probe_ok\<close>). The harnesses take
  a flag \<open>hook\<close>: with it, a call of the core in which a panic starts ends the run, whether or not
  the core contains it; without it, they run as the core runs inside the worker.
\<close>

section \<open>Panics inside the containment\<close>

text \<open>Whether a panic starts under the \<^verbatim>\<open>catch_unwind\<close> of \<^verbatim>\<open>parse\<close>, \<^verbatim>\<open>resolve\<close>, \<^verbatim>\<open>function_name\<close>.\<close>

definition parse_panics :: "crates \<Rightarrow> bytes \<Rightarrow> str \<Rightarrow> limits \<Rightarrow> bool" where
  "parse_panics K data name lim \<longleftrightarrow>
     length data \<le> unat (lim_max_parse_bytes lim) \<and>
     (if starts_with data PDB_MAGIC then pdb_parse K data name lim = Panicked
      else dwarf_parse K data name lim = Panicked)"

definition resolve_panics :: "crates \<Rightarrow> parsed_module \<Rightarrow> u64 \<Rightarrow> limits \<Rightarrow> bool" where
  "resolve_panics K m addr lim \<longleftrightarrow>
     (case m of
        DwarfMod d \<Rightarrow> dwarf_resolve K d addr lim = Panicked
      | PdbMod p \<Rightarrow> pdb_resolve p addr lim = Panicked)"

definition function_name_panics :: "crates \<Rightarrow> parsed_module \<Rightarrow> u64 \<Rightarrow> bool" where
  "function_name_panics K m addr \<longleftrightarrow>
     (case m of
        DwarfMod d \<Rightarrow> dwarf_function_name K d addr = Panicked
      | PdbMod p \<Rightarrow> pdb_function_name p addr = Panicked)"

text \<open>A panic that starts does not get out: it is an error, or an answer that says so.\<close>

lemma parse_panics_contained:
  "parse_panics K data name lim \<Longrightarrow> \<exists>e. parse_module K data name lim = Inl e"
  by (auto simp: parse_panics_def parse_module_def Let_def)

section \<open>The harnesses\<close>

definition fuzz_parse_module :: "bool \<Rightarrow> crates \<Rightarrow> bytes \<Rightarrow> unit outcome" where
  "fuzz_parse_module hook K data =
     (if hook \<and> parse_panics K data ''fuzz'' default_limits then Panicked
      else case parse_module K data ''fuzz'' default_limits of
        Inr m \<Rightarrow> (let _ = parsed_info m in Returned ())
      | Inl _ \<Rightarrow> Returned ())"

fun resolve_each ::
  "bool \<Rightarrow> crates \<Rightarrow> parsed_module \<Rightarrow> limits \<Rightarrow> u64 list \<Rightarrow> unit outcome" where
  "resolve_each hook K m lim [] = Returned ()"
| "resolve_each hook K m lim (addr # addrs) =
     (if hook \<and> resolve_panics K m addr lim then Panicked
      else let frames = parsed_resolve K m addr lim
        in if frames = [] then Panicked else resolve_each hook K m lim addrs)"

definition fuzz_resolve_addr :: "bool \<Rightarrow> crates \<Rightarrow> bytes \<Rightarrow> unit outcome" where
  "fuzz_resolve_addr hook K data =
     (if hook \<and> parse_panics K data ''fuzz'' default_limits then Panicked
      else case parse_module K data ''fuzz'' default_limits of
        Inr m \<Rightarrow> obind (resolve_each hook K m default_limits [0, 0x1000, 0x100000328, - 1])
          (\<lambda>_. if hook \<and> function_name_panics K m 0x100000328 then Panicked
               else let _ = parsed_function_name K m 0x100000328 in Returned ())
      | Inl _ \<Rightarrow> Returned ())"

text \<open>Nothing is contained here, so the hook makes no difference.\<close>

definition fuzz_derive_id :: "crates \<Rightarrow> bytes \<Rightarrow> unit outcome" where
  "fuzz_derive_id K data =
     obind (identity_from_object K data) (\<lambda>_. obind (probe_identity K data) (\<lambda>_. Returned ()))"

section \<open>Deriving an identity adds no panic of its own\<close>

text \<open>
  A call of a third-party parser that the derivation of an identity makes on \<open>data\<close> panics: the
  detection of the container; in a supported container the parse of the object file and the one
  accessor its format reads; for data with the magic of a PDB its opening and its two
  information streams, the second of which is read only when the first could be.
\<close>

definition object_header_panics :: "crates \<Rightarrow> bytes \<Rightarrow> bool" where
  "object_header_panics K data \<longleftrightarrow>
     (case cr_file_kind K data of
        Panicked \<Rightarrow> True
      | Returned (Inl _) \<Rightarrow> False
      | Returned (Inr kind) \<Rightarrow> (case format_of_kind kind of
          Inl _ \<Rightarrow> False
        | Inr fmt \<Rightarrow> (case cr_object_parse K data of
            Panicked \<Rightarrow> True
          | Returned (Inl _) \<Rightarrow> False
          | Returned (Inr obj) \<Rightarrow>
              fmt = Elf \<and> of_build_id obj = Panicked \<or>
              fmt = MachO \<and> of_mach_uuid obj = Panicked \<or>
              fmt = Pe \<and> of_pdb_info obj = Panicked)))"

definition pdb_header_panics :: "crates \<Rightarrow> bytes \<Rightarrow> bool" where
  "pdb_header_panics K data \<longleftrightarrow>
     (case cr_pdb_open K data of
        Panicked \<Rightarrow> True
      | Returned (Inl _) \<Rightarrow> False
      | Returned (Inr pdb) \<Rightarrow> (case pf_information pdb of
          Panicked \<Rightarrow> True
        | Returned (Inl _) \<Rightarrow> False
        | Returned (Inr _) \<Rightarrow> pf_debug_information pdb = Panicked))"

definition header_panics :: "crates \<Rightarrow> bytes \<Rightarrow> bool" where
  "header_panics K data \<longleftrightarrow>
     object_header_panics K data \<or> starts_with data PDB_MAGIC \<and> pdb_header_panics K data"

lemma try_bind_Panicked_iff:
  "try_bind r f = Panicked \<longleftrightarrow> r = Panicked \<or> (\<exists>x. r = Returned (Inr x) \<and> f x = Panicked)"
  by (cases r) (auto simp: try_bind_def split: sum.splits)

lemma map_err_Panicked_iff: "map_err f r = Panicked \<longleftrightarrow> r = Panicked"
  by (cases r) (auto simp: map_err_def)

lemma ok_flatten_or_Panicked_iff: "ok_flatten_or e r = Panicked \<longleftrightarrow> r = Panicked"
  by (cases r) (auto simp: ok_flatten_or_def)

lemmas panicked_iffs = try_bind_Panicked_iff map_err_Panicked_iff ok_flatten_or_Panicked_iff
  obind_Panicked_iff

text \<open>The match on the format never reaches its \<^verbatim>\<open>unreachable!()\<close>.\<close>

lemma object_ids_Panicked_iff:
  assumes "format_of_kind kind = Inr fmt"
  shows "object_ids K fmt obj = Panicked \<longleftrightarrow>
    fmt = Elf \<and> of_build_id obj = Panicked \<or> fmt = MachO \<and> of_mach_uuid obj = Panicked \<or>
    fmt = Pe \<and> of_pdb_info obj = Panicked"
proof -
  have "fmt \<in> {Elf, MachO, Pe}" using assms by (cases kind) auto
  then show ?thesis
    by (auto simp: object_ids_def debug_id_or_def Let_def panicked_iffs)
qed

lemma identity_Panicked_iff: "identity_from_object K data = Panicked \<longleftrightarrow> object_header_panics K data"
proof (cases "\<exists>kind fmt. cr_file_kind K data = Returned (Inr kind) \<and> format_of_kind kind = Inr fmt")
  case True
  then obtain kind fmt where k: "cr_file_kind K data = Returned (Inr kind)"
    "format_of_kind kind = Inr fmt" by blast
  show ?thesis
    using object_ids_Panicked_iff [OF k(2)]
    by (auto simp: identity_from_object_def object_header_panics_def k panicked_iffs map_err_Inr_iff
        split: outcome.splits sum.splits)
next
  case False
  then show ?thesis
    by (auto simp: identity_from_object_def object_header_panics_def panicked_iffs map_err_Inr_iff
        split: outcome.splits sum.splits)
qed

lemma pdb_identity_Panicked_iff: "pdb_identity K data = Panicked \<longleftrightarrow> pdb_header_panics K data"
proof (cases "cr_pdb_open K data")
  case (Returned r)
  show ?thesis
  proof (cases r)
    case (Inr pdb)
    show ?thesis
      by (cases "pf_information pdb")
        (auto simp: pdb_identity_def pdb_open_def pdb_identity_of_def pdb_arch_def
          pdb_header_panics_def Returned Inr panicked_iffs split: sum.splits)
  qed (simp add: pdb_identity_def pdb_open_def pdb_header_panics_def Returned)
qed (simp add: pdb_identity_def pdb_open_def pdb_header_panics_def)

lemma probe_Panicked_iff:
  "probe_identity K data = Panicked \<longleftrightarrow>
     (if starts_with data PDB_MAGIC then pdb_header_panics K data else object_header_panics K data)"
  by (simp add: probe_identity_def identity_Panicked_iff pdb_identity_Panicked_iff)

lemma outcome_unit: "r \<noteq> Panicked \<Longrightarrow> r = Returned ()" for r :: "unit outcome"
  by (cases r) simp_all

lemma derive_id_outcome:
  "fuzz_derive_id K data = (if header_panics K data then Panicked else Returned ())"
proof -
  have "fuzz_derive_id K data = Panicked \<longleftrightarrow> header_panics K data"
    by (cases "identity_from_object K data"; cases "probe_identity K data")
      (use identity_Panicked_iff [of K data] probe_Panicked_iff [of K data] in
        \<open>auto simp: fuzz_derive_id_def header_panics_def split: if_splits\<close>)
  then show ?thesis by (auto intro: outcome_unit)
qed

section \<open>The harnesses of parsing and resolving\<close>

lemma parse_target:
  "fuzz_parse_module hook K data =
     (if hook \<and> parse_panics K data ''fuzz'' default_limits then Panicked else Returned ())"
  by (auto simp: fuzz_parse_module_def split: sum.split)

lemma resolve_each_outcome:
  "resolve_each hook K m lim addrs =
     (if hook \<and> (\<exists>addr\<in>set addrs. resolve_panics K m addr lim) then Panicked else Returned ())"
  by (induction addrs) (auto simp: Let_def)

lemma resolve_target:
  "fuzz_resolve_addr hook K data =
     (if hook \<and> (parse_panics K data ''fuzz'' default_limits \<or>
        (\<exists>m. parse_module K data ''fuzz'' default_limits = Inr m \<and>
          ((\<exists>addr\<in>{0, 0x1000, 0x100000328, - 1}. resolve_panics K m addr default_limits) \<or>
           function_name_panics K m 0x100000328)))
      then Panicked else Returned ())"
  by (auto simp: fuzz_resolve_addr_def resolve_each_outcome Let_def
      simp del: resolve_each.simps split: sum.split)

text \<open>The address that \<^verbatim>\<open>addr2line\<close> cannot be asked about starts no panic and is no error row.\<close>

lemma last_address:
  "parsed_resolve K (DwarfMod d) (- 1) lim = [no_line_frame d (- 1)]"
  "\<not> resolve_panics K (DwarfMod d) (- 1) lim" "\<not> function_name_panics K (DwarfMod d) (- 1)"
  by (simp_all add: parsed_resolve_def dwarf_resolve_def dwarf_probe_ok_def resolve_panics_def
      function_name_panics_def dwarf_function_name_def)

end
