(* ===== verification/Module_Properties.thy ===== *)
theory Module_Properties
  imports Samples Fuzz_Targets
begin

text \<open>
  The properties of identities and of parsed modules, each with its claim id and, where it has
  hypotheses, an instance on the modules of \<open>Samples\<close>.
\<close>

lemma ok_flatten_or_Inl: "ok_flatten_or e r = Returned (Inl e') \<Longrightarrow> e' = e"
proof (cases r)
  case (Returned x)
  then show "ok_flatten_or e r = Returned (Inl e') \<Longrightarrow> e' = e"
    by (cases x) (auto simp: ok_flatten_or_def split: option.splits)
qed (simp add: ok_flatten_or_def)

lemma elf_guid_take: "elf_guid b = take 16 b @ replicate (16 - length b) 0"
proof -
  have "drop n (replicate 16 0) = replicate (16 - n) (0 :: u8)" for n by (rule drop_replicate)
  then show ?thesis
    unfolding elf_guid_def Let_def by (cases "length b \<le> 16") simp_all
qed

section \<open>Answers of a module\<close>

text \<open>
  C29: in a parsed DWARF module the symbol-table fallback, a binary search on the sorted and
  deduplicated table, answers with the symbol at the address or else the nearest one below.
\<close>

theorem symbol_nearest:
  assumes "parse_module K data name lim = Inr (DwarfMod d)"
  shows "symbol_for d addr = nearest_below (dw_symbols d) addr"
  by (rule symbol_for_eq_nearest_below, rule parse_module_symbols_sorted, rule assms)

theorem symbol_nearest_witness:
  "symbol_for demo_dwarf 0x1f = Some ''main'' \<and> symbol_for demo_dwarf 0xf = None"
  using symbol_nearest [OF demo_parse, of "0x1f"] symbol_nearest [OF demo_parse, of "0xf"]
  by (simp add: nearest_below_def demo_dwarf_def)

text \<open>
  C30: what a DWARF module answers for any address, whatever the lookup does. The address
  \<^verbatim>\<open>u64::MAX\<close> is answered from the symbol table. Otherwise a lookup that fails is the single row
  \<^verbatim>\<open>corrupt-inline-tree\<close>; the frames are those the iterator gives before it stops, in order and up
  to the cap, each with its own function (demangled, and raw), file, line and column, its depth,
  and flagged inlined unless it is the last one kept. An iterator that fails before the first
  frame is the single row \<^verbatim>\<open>corrupt-inline-tree\<close>, one with no frame (or a cap of zero) falls back to
  the symbol table, and one that fails after a frame keeps what it gave, as rows of status \<^verbatim>\<open>ok\<close>
  that nothing marks. A panic of the lookup or of a call of the iterator passes through.
\<close>

theorem dwarf_resolve_chain:
  "dwarf_resolve K m addr lim =
    (if addr = - 1 then Returned [no_line_frame m addr]
     else case dw_ctx m addr of
       Panicked \<Rightarrow> Panicked
     | Returned (Inl e) \<Rightarrow> Returned [dwarf_error_frame m CorruptInlineTree]
     | Returned (Inr it) \<Rightarrow>
         let cap = lim_max_inline_depth lim; vs = frames_given it 0 cap; n = length vs;
             stop = (if n < cap then it n else Returned IterEnd)
         in if stop = Panicked then Panicked
            else if n = 0 \<and> stop = Returned IterErr
              then Returned [dwarf_error_frame m CorruptInlineTree]
            else if n = 0 then Returned [no_line_frame m addr]
            else Returned (map (\<lambda>k. case raw_of_view (vs ! k) of (func, file, line, column) \<Rightarrow>
              \<lparr>rf_inline_depth = of_nat k, rf_is_inline = k + 1 < n,
               rf_function = map_option (try_demangle K) func, rf_function_raw = func,
               rf_file = file, rf_line = line, rf_column = column,
               rf_module = Some (dw_name m), rf_debug_id = Some (debug_id_str (dw_identity m)),
               rf_status = StatusOk\<rparr>) [0..<n]))"
proof (cases "dw_ctx m addr")
  case Panicked
  then show ?thesis by (simp add: dwarf_resolve_def dwarf_probe_ok_def)
next
  case (Returned r)
  show ?thesis
  proof (cases r)
    case (Inl e)
    with Returned show ?thesis by (simp add: dwarf_resolve_def dwarf_probe_ok_def)
  next
    case (Inr it)
    define cap where "cap = lim_max_inline_depth lim"
    define vs where "vs = frames_given it 0 cap"
    have le: "length vs \<le> cap" unfolding vs_def by (rule length_frames_given)
    have collect: "collect_frames it cap [] =
      (if length vs = cap then Returned (Inr (map raw_of_view vs))
       else case it (length vs) of
         Panicked \<Rightarrow> Panicked
       | Returned r \<Rightarrow>
           if r = IterErr \<and> vs = [] then Returned (Inl CorruptInlineTree)
           else Returned (Inr (map raw_of_view vs)))"
      using collect_frames_given [of "[]" cap cap vs it]
      by (simp add: vs_def split: outcome.split)
    show ?thesis
      using le
      by (auto simp: dwarf_resolve_def dwarf_probe_ok_def Returned Inr cap_def [symmetric]
          vs_def [symmetric] collect dwarf_chain Let_def split: outcome.splits)
  qed
qed

text \<open>An iterator that fails after one frame, and a lookup that fails.\<close>

theorem dwarf_resolve_chain_witness:
  "(let m = demo_dwarf\<lparr>dw_ctx := (\<lambda>_. Returned (Inr (chain_iter ([hd demo_views]) IterErr)))\<rparr>
    in obind (dwarf_resolve demo m 0x11 default_limits)
         (\<lambda>fs. Returned (map (\<lambda>f. (rf_function f, rf_status f)) fs))) =
     Returned [(Some ''leaf'', StatusOk)] \<and>
   dwarf_resolve demo demo_dwarf 0 default_limits =
     Returned [dwarf_error_frame demo_dwarf CorruptInlineTree]"
proof (intro conjI)
  have given: "frames_given (chain_iter ([hd demo_views]) IterErr) 0 256 = [hd demo_views]"
    by (simp add: frames_given_chain_iter)
  show "(let m = demo_dwarf\<lparr>dw_ctx := (\<lambda>_. Returned (Inr (chain_iter ([hd demo_views]) IterErr)))\<rparr>
    in obind (dwarf_resolve demo m 0x11 default_limits)
         (\<lambda>fs. Returned (map (\<lambda>f. (rf_function f, rf_status f)) fs))) =
     Returned [(Some ''leaf'', StatusOk)]"
    unfolding Let_def dwarf_resolve_chain
    by (simp add: given default_limits_def Let_def chain_iter_def)
      (simp add: demo_views_def raw_of_view_def try_demangle_def demo_def)
  show "dwarf_resolve demo demo_dwarf 0 default_limits =
     Returned [dwarf_error_frame demo_dwarf CorruptInlineTree]"
    unfolding dwarf_resolve_chain by (simp add: demo_dwarf_def demo_ctx_def)
qed

text \<open>
  C31: what a PDB module answers for any address, whatever the lookup does. A context that cannot
  be made is the single row \<^verbatim>\<open>corrupt-line-program\<close>, an address beyond 32 bits is \<^verbatim>\<open>no_line\<close>, a
  failing lookup of the 32-bit RVA is the single row \<^verbatim>\<open>corrupt-inline-tree\<close>, and no frames (none
  found, an empty list, or a cap of zero) is \<^verbatim>\<open>no_line\<close>. Otherwise the rows are the frames found, in
  order and up to the cap: each carries its own function, file and line, its depth, and is flagged
  inlined unless it is the last one kept. The fast path is the function of the first frame found,
  whatever the cap, and nothing in every other case; a panic passes through.
\<close>

theorem pdb_resolve_chain:
  "pdb_resolve m addr lim =
    (case pm_data m of
       Panicked \<Rightarrow> Panicked
     | Returned (Inl e) \<Rightarrow> Returned [pdb_error_frame m CorruptLineProgram]
     | Returned (Inr ctx) \<Rightarrow>
         if 2 ^ 32 \<le> unat addr then Returned [blank_frame (pm_name m) (pm_identity m) NoLine]
         else case pc_find_frames ctx (ucast addr) of
           Panicked \<Rightarrow> Panicked
         | Returned (Inl e) \<Rightarrow> Returned [pdb_error_frame m CorruptInlineTree]
         | Returned (Inr found) \<Rightarrow>
             let frames = (case found of None \<Rightarrow> [] | Some fs \<Rightarrow> fs);
                 n = min (length frames) (lim_max_inline_depth lim)
             in if n = 0 then Returned [blank_frame (pm_name m) (pm_identity m) NoLine]
                else Returned (map (\<lambda>k. \<lparr>rf_inline_depth = of_nat k, rf_is_inline = k + 1 < n,
                  rf_function = pfr_function (frames ! k), rf_function_raw = pfr_function (frames ! k),
                  rf_file = pfr_file (frames ! k), rf_line = pfr_line (frames ! k), rf_column = None,
                  rf_module = Some (pm_name m), rf_debug_id = Some (debug_id_str (pm_identity m)),
                  rf_status = StatusOk\<rparr>) [0..<n])) \<and>
   pdb_function_name m addr =
    (if 2 ^ 32 \<le> unat addr then Returned None
     else case pm_data m of
       Panicked \<Rightarrow> Panicked
     | Returned (Inl e) \<Rightarrow> Returned None
     | Returned (Inr ctx) \<Rightarrow>
         (case pc_find_frames ctx (ucast addr) of
            Panicked \<Rightarrow> Panicked
          | Returned (Inr (Some (f # fs))) \<Rightarrow> Returned (pfr_function f)
          | Returned _ \<Rightarrow> Returned None))"
proof -
  have rva: "u32_try_from addr = (if 2 ^ 32 \<le> unat addr then None else Some (ucast addr))"
    by (simp add: u32_try_from_def)
  have none: "min (length fs) cap = 0 \<longleftrightarrow> fs = [] \<or> cap = 0" for fs :: "pdb_frame list" and cap
    by (auto simp: min_def)
  show ?thesis
    unfolding pdb_resolve_def pdb_function_name_def rva
    by (auto simp: Let_def pdb_chain none split: outcome.splits sum.splits option.splits list.splits)
qed

theorem pdb_resolve_chain_witness:
  "obind (pdb_resolve demo_pdb 0x1000 default_limits)
     (\<lambda>fs. Returned (map (\<lambda>f. (rf_function f, rf_is_inline f)) fs)) =
   Returned [(Some ''leaf'', True), (Some ''outer'', False)] \<and>
   pdb_resolve demo_pdb 0x7 default_limits =
     Returned [blank_frame ''app.pdb'' (demo_identity\<lparr>id_format := Pdb\<rparr>) NoLine] \<and>
   pdb_resolve demo_pdb 0x100001000 default_limits =
     Returned [blank_frame ''app.pdb'' (demo_identity\<lparr>id_format := Pdb\<rparr>) NoLine] \<and>
   pdb_function_name demo_pdb 0x1000 = Returned (Some ''leaf'')"
  unfolding pdb_resolve_chain [THEN conjunct1] pdb_resolve_chain [THEN conjunct2]
  by (simp add: demo_pdb_def default_limits_def Let_def upt_rec)

section \<open>Parsing\<close>

text \<open>
  C32: the identity that indexing derives from the header of a file is the identity of the
  module that parsing the file gives, so a file is found under exactly the tokens its module
  registers; the module keeps the given name and accounts for the bytes of the file.
\<close>

theorem probe_matches_parse:
  assumes "parse_module K data name lim = Inr m"
  shows "probe_identity K data = Returned (Inr (parsed_identity m)) \<and> parsed_name m = name \<and>
    parsed_resident_bytes m = of_nat (length data)"
  using parse_module_identity [OF assms] by blast

theorem probe_matches_parse_witness:
  "probe_identity demo demo_file = Returned (Inr demo_identity) \<and>
   parsed_resident_bytes demo_module = 3"
  using probe_matches_parse [OF demo_parse] by (simp add: demo_dwarf_def demo_file_def)

text \<open>
  C34: parsing contains every failure: a file over the cap is \<^verbatim>\<open>alloc-cap\<close> and never reaches a
  parser, a parser that panics gives \<^verbatim>\<open>corrupt-line-program\<close>, and no other kind of error comes
  out than the five a parser reports; a module is only returned for a file within the cap.
\<close>

theorem parse_contained:
  "case parse_module K data name lim of
     Inr m \<Rightarrow> length data \<le> unat (lim_max_parse_bytes lim)
   | Inl e \<Rightarrow>
       if length data > unat (lim_max_parse_bytes lim) then se_kind e = AllocCap
       else if (if starts_with data PDB_MAGIC then pdb_parse K data name lim = Panicked
                else dwarf_parse K data name lim = Panicked)
       then se_kind e = CorruptLineProgram
       else se_kind e \<in> {Truncated, BadMagic, BadBuildId, CorruptLineProgram, UnsupportedFormat}"
proof -
  have ids: "se_kind e = BadBuildId" if "object_ids K fmt obj = Returned (Inl e)" for fmt obj e
    using that
    by (cases fmt) (auto simp: object_ids_def outcome_simps debug_id_or_def Let_def
        split: option.splits prod.splits dest: ok_flatten_or_Inl)
  have kind: "se_kind e = UnsupportedFormat" if "format_of_kind k = Inl e" for k e
    using that by (cases k) auto
  have identity: "se_kind e \<in> {Truncated, BadMagic, BadBuildId, UnsupportedFormat}"
    if "identity_from_object K data = Returned (Inl e)" for e
    using that
    by (auto simp: identity_from_object_def outcome_simps split: prod.splits dest: ids kind)
  have dwarf: "se_kind e \<in> {Truncated, BadMagic, BadBuildId, CorruptLineProgram, UnsupportedFormat}"
    if "dwarf_parse K data name lim = Returned (Inl e)" for e
    using that by (auto simp: dwarf_parse_def outcome_simps split: prod.splits dest: identity)
  have pdb: "se_kind e \<in> {Truncated, BadMagic, BadBuildId, CorruptLineProgram, UnsupportedFormat}"
    if "pdb_parse K data name lim = Returned (Inl e)" for e
    using that
    by (auto simp: pdb_parse_def pdb_open_def pdb_identity_of_def outcome_simps
        split: prod.splits sum.splits option.splits)
  show ?thesis
    using dwarf pdb
    by (auto simp: parse_module_def Let_def outcome_simps split: sum.splits option.splits if_splits)
qed

section \<open>Identities\<close>

text \<open>
  The tokens a module answers to are, without repetition and in order, the canonical
  spellings of its debug-id, of its bare UUID and of its raw build-id when it has one.
\<close>

lemma aliases_spec:
  "sorted_wrt (<) (aliases i) \<and> list_all (\<lambda>t. canonical_token t = t) (aliases i) \<and>
   set (aliases i) =
     insert (canonical_token (debug_id_str i))
       (insert (canonical_token (did_uuid_simple (id_debug_id i)))
         (canonical_token ` set_option (id_raw_build_id i)))"
proof (intro conjI)
  show "sorted_wrt (<) (aliases i)"
    unfolding strict_sorted_iff by (rule aliases_sorted_distinct)
  show "list_all (\<lambda>t. canonical_token t = t) (aliases i)"
    unfolding list_all_iff by (rule ballI) (rule aliases_canonical)
qed (rule set_aliases)

text \<open>
  C35: the identity of an ELF image is that of its GNU build-id note: the debug-id of the
  first sixteen bytes, padded with zeros, and the whole id in hexadecimal as build-id and
  code-id. Without a readable note, or when the sixteen bytes give no debug-id, the error is
  \<^verbatim>\<open>bad-build-id\<close>; a panic of the accessor passes through.
\<close>

theorem elf_identity:
  assumes "cr_file_kind K data = Returned (Inr kind)" "kind \<in> {Elf32, Elf64}"
    and "cr_object_parse K data = Returned (Inr obj)"
  shows "identity_from_object K data =
    (case of_build_id obj of
       Panicked \<Rightarrow> Panicked
     | Returned (Inr (Some build)) \<Rightarrow>
         (case cr_from_guid_age K (take 16 build @ replicate (16 - length build) 0) 0 of
            Some d \<Rightarrow> Returned (Inr
              \<lparr>id_format = Elf, id_arch = arch_name (of_architecture obj), id_debug_id = d,
               id_raw_build_id = Some (hex_encode build), id_code_id = Some (hex_encode build),
               id_image_base = of_relative_base obj\<rparr>)
          | None \<Rightarrow> Returned (Inl (sym_error_new BadBuildId ''bad build-id guid'')))
     | _ \<Rightarrow> Returned (Inl (sym_error_new BadBuildId ''no GNU build-id note'')))"
proof -
  have fmt: "format_of_kind kind = Inr Elf" using assms(2) by auto
  have id: "identity_from_object K data = try_bind (object_ids K Elf obj)
      (\<lambda>(d, raw, code). Returned (Inr
         \<lparr>id_format = Elf, id_arch = arch_name (of_architecture obj), id_debug_id = d,
          id_raw_build_id = raw, id_code_id = code, id_image_base = of_relative_base obj\<rparr>))"
    by (simp add: identity_from_object_def assms(1,3) fmt)
  show ?thesis
  proof (cases "of_build_id obj")
    case Panicked
    then show ?thesis by (simp add: id object_ids_def ok_flatten_or_def)
  next
    case (Returned r)
    show ?thesis
    proof (cases r)
      case (Inl e)
      with Returned show ?thesis by (simp add: id object_ids_def ok_flatten_or_def)
    next
      case (Inr b)
      show ?thesis
      proof (cases b)
        case None
        with Returned Inr show ?thesis by (simp add: id object_ids_def ok_flatten_or_def)
      next
        case (Some build)
        with Returned Inr show ?thesis
          by (cases "cr_from_guid_age K (elf_guid build) 0")
            (simp_all add: id object_ids_def ok_flatten_or_def debug_id_or_def Let_def
              elf_guid_take)
      qed
    qed
  qed
qed

theorem elf_identity_witness:
  "identity_from_object demo demo_file = Returned (Inr demo_identity)"
proof -
  have k: "cr_file_kind demo demo_file = Returned (Inr Elf64)"
    by (simp add: demo_def demo_file_def)
  have o': "cr_object_parse demo demo_file = Returned (Inr (demo_object demo_file))"
    by (simp add: demo_entry_points)
  show ?thesis
    using elf_identity [OF k _ o']
    by (simp add: demo_object_def demo_file_def demo_def demo_identity_def elf_guid_def hex_abcd
        del: hex_encode.simps)
qed

section \<open>Fuzz targets\<close>

text \<open>
  C33: the zero-panic gates, exactly. As the core runs in the worker, parsing arbitrary bytes and
  resolving addresses in whatever module comes out never panics, and no address is left without a
  row, whatever the third-party readers do: a panic of theirs is contained. Under the abort-on-panic
  hook of \<^verbatim>\<open>cargo-fuzz\<close> the same harnesses fail exactly when a panic starts in a reader (while
  parsing, at one of the four addresses, or in the name lookup), contained or not. The last address
  of the address space, for which \<^verbatim>\<open>addr2line\<close> overflows, starts no panic in a DWARF module and is
  answered from the symbol table. Deriving an identity is not contained: it panics exactly when a
  parser call it makes on the header panics, so the code adds no panic of its own and its
  \<^verbatim>\<open>unreachable!()\<close> is not reached.
\<close>

theorem zero_panic_gates:
  "fuzz_parse_module False K data = Returned () \<and> fuzz_resolve_addr False K data = Returned () \<and>
   (fuzz_parse_module True K data = Panicked \<longleftrightarrow> parse_panics K data ''fuzz'' default_limits) \<and>
   (fuzz_resolve_addr True K data = Panicked \<longleftrightarrow>
      parse_panics K data ''fuzz'' default_limits \<or>
      (\<exists>m. parse_module K data ''fuzz'' default_limits = Inr m \<and>
        ((\<exists>addr\<in>{0, 0x1000, 0x100000328, - 1}. resolve_panics K m addr default_limits) \<or>
         function_name_panics K m 0x100000328))) \<and>
   parsed_resolve K (DwarfMod d) (- 1) lim = [no_line_frame d (- 1)] \<and>
   \<not> resolve_panics K (DwarfMod d) (- 1) lim \<and> \<not> function_name_panics K (DwarfMod d) (- 1) \<and>
   fuzz_derive_id K data = (if header_panics K data then Panicked else Returned ())"
  by (simp only: parse_target resolve_target derive_id_outcome last_address) simp

text \<open>
  A reader that panics while parsing: contained in the worker, the end of the run under the hook.
\<close>

theorem zero_panic_gates_witness:
  "fuzz_derive_id demo demo_file = Returned () \<and> fuzz_derive_id demo [0xff] = Panicked \<and>
   fuzz_resolve_addr False demo [0xff] = Returned () \<and>
   fuzz_resolve_addr True demo [0xff] = Panicked \<and>
   fuzz_parse_module True demo demo_file = Returned ()"
proof (intro conjI)
  have "parse_panics demo demo_file ''a.debug'' default_limits \<Longrightarrow> False"
    using parse_panics_contained demo_parse by fastforce
  then have no: "\<not> parse_panics demo demo_file ''fuzz'' default_limits"
    by (auto simp: parse_panics_def starts_with_magic dwarf_parse_def panicked_iffs)
  have "\<not> header_panics demo demo_file"
    using demo_identity_of identity_Panicked_iff [of demo demo_file]
    by (simp add: header_panics_def starts_with_magic)
  then show "fuzz_derive_id demo demo_file = Returned ()" using zero_panic_gates by simp
  have kind: "cr_file_kind demo [0xff] = Panicked" by (simp add: demo_def)
  then have "header_panics demo [0xff]" by (simp add: header_panics_def object_header_panics_def)
  then show "fuzz_derive_id demo [0xff] = Panicked" using zero_panic_gates by simp
  show "fuzz_resolve_addr False demo [0xff] = Returned ()" using zero_panic_gates by blast
  have "parse_panics demo [0xff] ''fuzz'' default_limits"
    using kind
    by (simp add: parse_panics_def dwarf_parse_def identity_from_object_def starts_with_def
        PDB_MAGIC_def default_limits_def)
  then show "fuzz_resolve_addr True demo [0xff] = Panicked" using zero_panic_gates by blast
  show "fuzz_parse_module True demo demo_file = Returned ()"
    using zero_panic_gates no by (blast intro: outcome_unit)
qed

end
