(* ===== verification/Cache_Properties.thy ===== *)
theory Cache_Properties
  imports Samples
begin

text \<open>
  The properties of the cache. The LRU is any that keeps the laws of \<open>lru_laws\<close>; the instances
  run on the reference LRU with the modules of \<open>Samples\<close>.
\<close>

section \<open>Runs of operations\<close>

text \<open>
  C17: every run of cache operations, in any order and with any arguments, keeps the
  invariant of the cache (one entry per debug-id, every alias leads to an entry and is
  canonical, every known miss is a known token, every resident module is filed under its own
  debug-id with its own size, has an entry and all its aliases), and no run forgets a token or
  a manifest entry or changes the byte budget.
\<close>

theorem cache_runs:
  assumes "lru_laws L" "cache_inv L s"
  shows "cache_inv L (fold (cache_step L K) ops s) \<and> knows_more s (fold (cache_step L K) ops s)"
  using resident_lru.cache_run_inv [OF resident_lru.intro [OF assms(1)] assms(2)]
    resident_lru.cache_run_knows [OF resident_lru.intro [OF assms(1)] assms(2)]
  by blast

theorem cache_runs_witness:
  "cache_inv list_lru
     (fold (cache_step list_lru demo) [DoResolve 8 ''abcd'' 0x11 default_limits, DoEvict None,
        DoRecordMiss 9 ''11'', DoInsert 10 demo_module2 OriginInline] demo_cache)"
  using cache_runs [OF list_lru_laws demo_cache_inv] by blast

section \<open>Insertion\<close>

text \<open>
  Right after its insertion a module answers under every spelling of every one of its
  tokens, even when it alone exceeds the byte budget, and its debug-id is no longer a known miss.
\<close>

lemma insert_answers:
  assumes "lru_laws L" "canonical_token t \<in> set (aliases (parsed_identity m))"
  shows "resident_module L (snd (cache_insert L now m og s)) t = Some m \<and>
    \<not> is_known_miss (snd (cache_insert L now m og s)) (key_of m)"
  using resident_lru.cache_insert_module [OF resident_lru.intro [OF assms(1)] assms(2)]
    resident_lru.cache_insert_index [OF resident_lru.intro [OF assms(1)], of now m og s]
  by (simp add: is_known_miss_def same_index_def)

text \<open>
  C18: after an insertion the counter is within the byte budget or the module just inserted
  is the only one left, and the number of modules is within the count budget.
\<close>

theorem insert_budget:
  assumes "lru_laws L"
  shows "(sc_resident_bytes (snd (cache_insert L now m og s)) \<le> sc_max_bytes s \<or>
      lru_iter L (sc_resident (snd (cache_insert L now m og s))) = [(key_of m, new_resident now m)]) \<and>
    length (lru_iter L (sc_resident (snd (cache_insert L now m og s)))) \<le> lru_cap L (sc_resident (snd (cache_insert L now m og s)))"
proof -
  note R = resident_lru.intro [OF assms(1)]
  obtain rest where "lru_iter L (sc_resident (snd (cache_insert L now m og s))) = (key_of m, new_resident now m) # rest"
    using resident_lru.cache_insert_items [OF R] by blast
  with resident_lru.evict_to_budget_done [OF R, of "insert_unbounded L now m og s"]
  have "sc_resident_bytes (snd (cache_insert L now m og s)) \<le> sc_max_bytes s \<or>
      lru_iter L (sc_resident (snd (cache_insert L now m og s))) = [(key_of m, new_resident now m)]"
    by (auto simp: cache_insert_def)
  then show ?thesis by (rule conjI) (rule lru_laws.iter_cap [OF assms(1)])
qed

theorem insert_budget_witness:
  "sc_resident_bytes (snd (cache_insert list_lru 9 demo_module2 OriginInline demo_cache)) \<le> 10 \<or>
   lru_iter list_lru (sc_resident (snd (cache_insert list_lru 9 demo_module2 OriginInline demo_cache)))
     = [(key_of demo_module2, new_resident 9 demo_module2)]"
  using insert_budget [OF list_lru_laws, of 9 demo_module2 OriginInline demo_cache]
  by (simp only: demo_cache_resident)

section \<open>Eviction\<close>

text \<open>
  C20: automatic eviction removes whole modules from the least recently used end and stops as
  soon as the budget is met: what stays is a non-empty initial part of the recency order, and
  keeping any longer part would leave the counter over the budget.
\<close>

theorem eviction_least:
  assumes "lru_laws L" "lru_iter L (sc_resident s) \<noteq> []"
  shows "kept_least L s (evict_to_budget L s)"
  by (rule resident_lru.evict_to_budget_least [OF resident_lru.intro [OF assms(1)] assms(2)])

theorem eviction_least_witness: "kept_least list_lru demo_cache (evict_to_budget list_lru demo_cache)"
  by (rule eviction_least [OF list_lru_laws]) (simp add: demo_cache_items)

text \<open>
  C19: the byte counter after an insertion. It overstates the resident bytes by what it
  overstated before, plus the bytes of the module that \<^verbatim>\<open>put\<close> drops on its own when the cache
  is at its module count: with the count never reached the counter is exact, and every
  insertion at the count adds the dropped module's size to the drift for good.
\<close>

theorem insert_accounting:
  assumes "lru_laws L" "drift L s d"
    and "unat (sc_resident_bytes s) + unat (parsed_resident_bytes m) < 2 ^ 64"
  shows "drift L (snd (cache_insert L now m og s)) (d + displaced_bytes L s m)"
  by (rule resident_lru.cache_insert_drift [OF resident_lru.intro [OF assms(1)] assms(2,3)])

theorem insert_accounting_witness:
  "drift list_lru (snd (cache_insert list_lru 9 demo_module2 OriginInline demo_full)) 3"
proof -
  have d: "drift list_lru demo_full 0"
    by (simp add: drift_def demo_full_resident list_lru_def put_list_def new_resident_def demo_bytes
        del: parsed_resident_bytes.simps)
  have fits: "unat (sc_resident_bytes demo_full) + unat (parsed_resident_bytes demo_module2) < 2 ^ 64"
    by (simp add: demo_full_resident demo_bytes del: parsed_resident_bytes.simps)
  have "displaced_bytes list_lru demo_full demo_module2 = 3"
    by (simp add: displaced_bytes_def demo_full_resident list_lru_def put_list_def new_resident_def
        demo_bytes demo_keys_differ del: parsed_resident_bytes.simps parsed_identity.simps)
  with insert_accounting [OF list_lru_laws d fits] show ?thesis by simp
qed

text \<open>
  C21: evicting one token removes the module it stands for and no other token gains one; the
  durable index keeps everything but the refreshed statistics; the answer is the size of the
  module, or 0 when none was resident.
\<close>

theorem evict_one:
  assumes "lru_laws L"
  shows "resident_module L (snd (cache_evict L (Some t) s)) t = None \<and> only_loses L s (snd (cache_evict L (Some t) s)) \<and> same_index s (snd (cache_evict L (Some t) s)) \<and>
    fst (cache_evict L (Some t) s) =
      (case resolve_debug_id s t of
         None \<Rightarrow> 0
       | Some d \<Rightarrow> (case map_of (lru_iter L (sc_resident s)) d of None \<Rightarrow> 0 | Some r \<Rightarrow> rs_bytes r))"
proof -
  note R = resident_lru.intro [OF assms(1)]
  have "same_index s (snd (cache_evict L (Some t) s)) \<and> fst (cache_evict L (Some t) s) =
      (case resolve_debug_id s t of
         None \<Rightarrow> 0
       | Some d \<Rightarrow> (case map_of (lru_iter L (sc_resident s)) d of None \<Rightarrow> 0 | Some r \<Rightarrow> rs_bytes r))"
    by (rule resident_lru.cache_evict_some_cases [OF R, where s = s and t = t])
      (auto simp: resident_lru.is_resident_iff [OF R] split: option.splits)
  with resident_lru.cache_evict_token [OF R, where s = s and t = t] show ?thesis by simp
qed

theorem evict_one_witness:
  "fst (cache_evict list_lru (Some ''AB-CD'') demo_cache) = 3 \<and>
   resident_module list_lru (snd (cache_evict list_lru (Some ''AB-CD'') demo_cache)) ''abcd'' = None"
proof -
  have r: "resolve_debug_id demo_cache ''AB-CD'' = Some (key_of demo_module)"
    unfolding demo_cache_def
    by (simp add: same_index_resolve [OF ref_cache.cache_insert_index] resolve_debug_id_insert
        demo_tokens demo_alias demo_dwarf_def)
  note e = evict_one [OF list_lru_laws, of "''AB-CD''" demo_cache]
  have "canonical_token ''AB-CD'' = canonical_token ''abcd''" by (simp add: demo_tokens)
  then have "resident_module list_lru s ''AB-CD'' = resident_module list_lru s ''abcd''" for s :: "resident lru_list symbol_cache"
    by (metis resident_module_canonical)
  with e r show ?thesis
    by (simp add: demo_cache_items new_resident_def demo_bytes del: parsed_resident_bytes.simps)
qed

section \<open>Lookups\<close>

text \<open>
  C22: resolving through the cache is looking the token up in the abstract map and asking the
  module found, for frames and for the function name alike; neither changes the map, the
  durable index or the parse counter.
\<close>

theorem lookup_refines:
  assumes "lru_laws L"
  shows "fst (cache_resolve L K now t a lim s) =
      map_option (\<lambda>m. parsed_resolve K m a lim) (resident_module L s t) \<and>
    fst (cache_function_name L K now t a s) =
      map_option (\<lambda>m. parsed_function_name K m a) (resident_module L s t) \<and>
    resident_module L (snd (cache_resolve L K now t a lim s)) = resident_module L s \<and>
    resident_module L (snd (cache_function_name L K now t a s)) = resident_module L s \<and>
    same_index s (snd (cache_resolve L K now t a lim s)) \<and>
    same_index s (snd (cache_function_name L K now t a s))"
proof (intro conjI)
  note R = resident_lru.intro [OF assms]
  show "same_index s (snd (cache_resolve L K now t a lim s))"
    by (rule resident_lru.cache_resolve_cases [OF R, where s = s and t = t and K = K and now = now and a = a and lim = lim]) simp_all
  show "same_index s (snd (cache_function_name L K now t a s))"
    by (rule resident_lru.cache_function_name_cases [OF R, where s = s and t = t and K = K and now = now and a = a]) simp_all
qed (simp_all add: resident_lru.cache_resolve_spec [OF resident_lru.intro [OF assms]]
    resident_lru.cache_function_name_spec [OF resident_lru.intro [OF assms]])

theorem lookup_refines_witness:
  "fst (cache_function_name list_lru demo 8 ''11'' 0x11 demo_cache) = None"
proof -
  have "sc_aliases demo_cache ''11'' = None"
    using ref_cache.cache_insert_index [of 7 demo_module OriginInline "cache_new list_lru 10 2"]
    by (simp add: same_index_def demo_cache_def fold_aliases cache_new_def demo_alias demo_dwarf_def)
  then have "resident_module list_lru demo_cache ''11'' = None"
    by (simp add: resident_module_def resolve_debug_id_def demo_tokens)
  with lookup_refines [OF list_lru_laws, where t = "''11''" and s = demo_cache] show ?thesis by simp
qed

section \<open>The status table\<close>

lemma distinct_singleton: "distinct xs \<Longrightarrow> set xs = {x} \<Longrightarrow> xs = [x]"
  by (cases xs; cases "tl xs") auto

lemma status_keys:
  "map sr_debug_id (cache_status L s) = map fst (lru_iter L (sc_resident s)) @
     map fst (filter (\<lambda>(dbg, e). \<not> lru_contains L (sc_resident s) dbg) (sc_entries s))"
  by (simp add: cache_status_def resident_row_def entry_row_def comp_def case_prod_beta)

text \<open>
  C23: \<^verbatim>\<open>cache_status\<close> has one row for every debug-id of the durable index and no other, with
  no debug-id twice, and a row says \<^verbatim>\<open>resident\<close> exactly when the module is in the LRU.
\<close>

theorem status_complete:
  assumes "lru_laws L" "cache_inv L s"
  shows "distinct (map sr_debug_id (cache_status L s)) \<and>
    set (map sr_debug_id (cache_status L s)) = fst ` set (sc_entries s) \<and>
    list_all (\<lambda>r. sr_resident r = lru_contains L (sc_resident s) (sr_debug_id r)) (cache_status L s)"
proof (intro conjI)
  let ?items = "lru_iter L (sc_resident s)"
  have contains: "lru_contains L (sc_resident s) d \<longleftrightarrow> d \<in> fst ` set ?items" for d
    by (rule lru_laws.contains [OF assms(1)])
  have entries: "distinct (map fst (sc_entries s))"
    using assms(2) by (simp add: cache_inv_def index_inv_def)
  show "distinct (map sr_debug_id (cache_status L s))"
    unfolding status_keys distinct_append
    using lru_laws.iter_distinct [OF assms(1), of "sc_resident s"] entries
    by (force simp: contains distinct_map_filter)
  have known: "fst ` set ?items \<subseteq> fst ` set (sc_entries s)"
  proof
    fix d assume "d \<in> fst ` set ?items"
    then obtain p where "p \<in> set ?items" "d = fst p" by blast
    with assms(2) have "resident_ok s p" by (simp add: cache_inv_def list_all_iff)
    then show "d \<in> fst ` set (sc_entries s)"
      unfolding resident_ok_def \<open>d = fst p\<close> by (elim conjE)
  qed
  have "set (map sr_debug_id (cache_status L s)) =
      fst ` set ?items \<union> {d \<in> fst ` set (sc_entries s). d \<notin> fst ` set ?items}"
    unfolding status_keys by (force simp: contains)
  with known show "set (map sr_debug_id (cache_status L s)) = fst ` set (sc_entries s)" by blast
  show "list_all (\<lambda>r. sr_resident r = lru_contains L (sc_resident s) (sr_debug_id r)) (cache_status L s)"
    by (auto simp: cache_status_def list_all_iff resident_row_def entry_row_def contains
        intro: rev_image_eqI)
qed

theorem status_complete_witness:
  "map sr_debug_id (cache_status list_lru demo_cache) = [key_of demo_module]"
proof -
  have e: "map fst (sc_entries demo_cache) = [key_of demo_module]"
    using same_index_keys [OF ref_cache.cache_insert_index [of 7 demo_module OriginInline "cache_new list_lru 10 2"]]
    by (simp add: demo_cache_def cache_new_def)
  with status_complete [OF list_lru_laws demo_cache_inv]
  have "distinct (map sr_debug_id (cache_status list_lru demo_cache))"
    "set (map sr_debug_id (cache_status list_lru demo_cache)) = {key_of demo_module}"
    by (simp_all flip: set_map)
  then show ?thesis by (rule distinct_singleton)
qed

section \<open>The negative cache\<close>

text \<open>
  C24: inserting a module withdraws the known miss of its debug-id, and of nothing else: after it,
  the known misses are those before it but for the debug-id of the module. So a token that was
  recorded as missing before, and is merely another alias of the module, stays a known miss: once
  the module is evicted, the token counts as proven missing although a source has it.
\<close>

theorem stale_miss:
  assumes "lru_laws L"
  shows "(is_known_miss (snd (cache_insert L now m og s)) t \<longleftrightarrow>
      is_known_miss s t \<and> canonical_token t \<noteq> canonical_token (key_of m)) \<and>
    (is_known_miss s t \<and> canonical_token t \<noteq> canonical_token (key_of m) \<longrightarrow>
      is_known_miss (snd (cache_evict L (Some t) (snd (cache_insert L now m og s)))) t \<and>
      \<not> is_resident L (snd (cache_evict L (Some t) (snd (cache_insert L now m og s)))) t)"
proof -
  note R = resident_lru.intro [OF assms]
  let ?s1 = "snd (cache_insert L now m og s)"
  have "sc_negative ?s1 = sc_negative s - {canonical_token (key_of m)}"
    using resident_lru.cache_insert_index [OF R, of now m og s] by (simp add: same_index_def)
  moreover have "same_index ?s1 (snd (cache_evict L (Some t) ?s1))"
    by (rule resident_lru.cache_evict_some_cases [OF R, where s = "?s1" and t = t]) simp_all
  ultimately show ?thesis
    using resident_lru.cache_evict_token(1) [OF R, where s = "?s1" and t = t]
    by (auto simp: is_known_miss_def same_index_def resident_lru.is_resident_module [OF R])
qed

theorem stale_miss_witness:
  "is_known_miss (snd (cache_evict list_lru (Some ''abcd'')
     (snd (cache_insert list_lru 9 demo_module OriginInline
        (record_miss 8 ''abcd'' (cache_new list_lru 10 2)))))) ''abcd'' \<and>
   \<not> is_known_miss (snd (cache_insert list_lru 9 demo_module OriginInline
        (record_miss 8 (key_of demo_module) (cache_new list_lru 10 2)))) (key_of demo_module)"
proof
  have "is_known_miss (record_miss 8 ''abcd'' (cache_new list_lru 10 2)) ''abcd''"
    by (simp add: is_known_miss_def)
  moreover have "canonical_token ''abcd'' \<noteq> canonical_token (key_of demo_module)"
    by (simp add: demo_tokens demo_keys demo_dwarf_def)
  ultimately show "is_known_miss (snd (cache_evict list_lru (Some ''abcd'')
     (snd (cache_insert list_lru 9 demo_module OriginInline
        (record_miss 8 ''abcd'' (cache_new list_lru 10 2)))))) ''abcd''"
    using stale_miss [OF list_lru_laws] by blast
  show "\<not> is_known_miss (snd (cache_insert list_lru 9 demo_module OriginInline
        (record_miss 8 (key_of demo_module) (cache_new list_lru 10 2)))) (key_of demo_module)"
    using stale_miss [OF list_lru_laws] by blast
qed

end
