(* ===== verification/Source_Properties.thy ===== *)
theory Source_Properties
  imports Samples
begin

text \<open>
  The properties of the source registry and of local indexing, with instances on the file
  system \<open>demo_world\<close>.
\<close>

section \<open>The instances\<close>

lemma demo_probe_file:
  "aliases_of demo_world demo ''/srv/a.debug'' =
     Returned (Some \<lparr>ix_aliases = aliases demo_identity, ix_path = ''/srv/a.debug''\<rparr>)"
  "aliases_of demo_world demo ''/srv/notes.txt'' = Returned None"
  by (simp_all add: aliases_of_def demo_world_def probe_identity_def starts_with_magic
      demo_identity_of)
    (simp add: starts_with_def PDB_MAGIC_def identity_from_object_def demo_def)

lemma demo_tree: "w_tree demo_world ''/srv'' =
    Listing [RegularFile ''a.debug'', SubDir ''x'' (Listing []), RegularFile ''notes.txt'']"
  by (simp add: demo_world_def)

lemma demo_index:
  "index_dir demo_world demo ''/srv'' n =
     Returned (if n = 0 then [] else [\<lparr>ix_aliases = aliases demo_identity, ix_path = ''/srv/a.debug''\<rparr>])"
  by (simp add: index_dir_def demo_tree path_join_def demo_probe_file push_some_def)

lemma map_of_same: "map_of (map (\<lambda>t. (t, v)) ts) t = (if t \<in> set ts then Some v else None)"
  by (induction ts) auto

lemma demo_hits: "map_of (hits demo_world demo (local_sources (st_sources demo_state))) t =
    (if t \<in> set (aliases demo_identity) then Some (''/srv/a.debug'', False) else None)"
proof -
  have "local_sources (st_sources demo_state) = rg_sources (st_sources demo_state)"
    by (simp add: local_sources_def demo_sources is_local_def)
  then show ?thesis
    by (simp add: demo_sources hits_def source_hits_def source_entries_def demo_index
        MAX_INDEX_FILES_def entry_hits_def map_of_same)
qed

lemma demo_names:
  "file_name ''/srv/a.debug'' = Some ''a.debug''" "utf8_lossy ''a.debug'' = ''a.debug''"
  "utf8_lossy ''/srv/a.debug'' = ''/srv/a.debug''"
  by code_simp+

lemma demo_located_all:
  "locate_indexed demo_world t
     (map_of (hits demo_world demo (local_sources (st_sources demo_state)))) =
   (if canonical_token t \<in> set (aliases demo_identity)
    then Some \<lparr>lc_data = demo_file, lc_name = ''a.debug'', lc_origin = OriginDir ''/srv/a.debug''\<rparr>
    else None)"
proof -
  have "w_read demo_world ''/srv/a.debug'' = Inr demo_file" by (simp add: demo_world_def)
  then show ?thesis
    by (simp add: locate_indexed_def demo_hits Let_def demo_names del: utf8_lossy.simps)
qed

lemma demo_located:
  "locate_indexed demo_world ''AB-CD''
     (map_of (hits demo_world demo (local_sources (st_sources demo_state)))) = Some
     \<lparr>lc_data = demo_file, lc_name = ''a.debug'', lc_origin = OriginDir ''/srv/a.debug''\<rparr>"
  by (simp add: demo_located_all demo_tokens demo_alias)

section \<open>Locating\<close>

text \<open>
  C25: a token is located in the first source, in the order of registration, whose files
  include one with that token among its identities, within a source the first file in walking
  order; the answer is the same whether the index was built before, in part, or not at all.
\<close>

theorem locate_first_match:
  assumes "ids_ok r" "index_ok W K r" "probes_return W K"
  shows "snd (locate W K token r) =
    Returned (locate_indexed W token (map_of (hits W K (local_sources r))))"
proof -
  obtain r' o' where l: "locate W K token r = (r', o')" by (cases "locate W K token r")
  from locate_ok [OF assms(1,2) l] locate_returns [OF assms(3), of token r] l show ?thesis by simp
qed

theorem locate_first_match_witness:
  "snd (locate demo_world demo ''AB-CD'' (st_sources demo_state)) = Returned (Some
     \<lparr>lc_data = demo_file, lc_name = ''a.debug'', lc_origin = OriginDir ''/srv/a.debug''\<rparr>)"
proof -
  have "state_inv list_lru demo_world demo demo_state"
    by (rule ref_cache.reachable_state_inv [OF demo_reachable])
  then have ok: "ids_ok (st_sources demo_state)" "index_ok demo_world demo (st_sources demo_state)"
    by (simp_all add: state_inv_def)
  with locate_first_match [OF ok demo_probes] demo_located show ?thesis by simp
qed

text \<open>
  C26: with no enabled \<^verbatim>\<open>dir\<close> or \<^verbatim>\<open>glob\<close> source, enabled remote sources included, locating
  finds nothing and does nothing: the answer and the registry are the same for every file
  system and whatever the parsers do, so no source is read.
\<close>

theorem remote_never_read:
  assumes "index_ok W K r" "local_sources r = []"
  shows "locate W' K' token r = (r, Returned None)"
proof -
  have "rg_index r = Map.empty" using assms by (auto simp: index_ok_def hits_def)
  moreover have "pending_sources r = []"
    using assms(2) by (simp add: pending_sources_def local_sources_def)
  ultimately show ?thesis
    by (simp add: locate_def ensure_indexed_def locate_indexed_def Let_def)
qed

theorem remote_never_read_witness:
  "snd (locate demo_world demo ''abcd''
     (snd (registry_add ''HTTP'' None (Some ''https://x'') None (Some True) None registry_new)))
   = Returned None"
proof -
  let ?r = "snd (registry_add ''HTTP'' None (Some ''https://x'') None (Some True) None registry_new)"
  have "index_ok demo_world demo ?r"
    by (intro registry_add_index_ok registry_new_ok)
  moreover have "local_sources ?r = []"
  proof -
    have "add_error ''http'' None (Some ''https://x'') None = None" by code_simp
    then show ?thesis
      by (simp only: local_sources_def registry_add_def plain_kinds lower_kinds Let_def
          registry_new_def) (simp add: is_local_def)
  qed
  ultimately show ?thesis by (simp only: remote_never_read snd_conv)
qed

section \<open>The source list\<close>

text \<open>
  \<^verbatim>\<open>add_source\<close> accepts exactly the known kinds (trimmed, in any case) that come with a
  non-empty locator of their kind. Accepted, the source goes to the end of the list with the
  normalised kind, is marked as egress exactly for the remote kinds, and is enabled as asked or
  else exactly when it is local; refused, nothing changes.
\<close>

lemma add_source_validates:
  "let k = lowercase (trim kind);
       remote = k \<in> {''debuginfod'', ''s3'', ''http''};
       present = (\<lambda>x. \<exists>s. x = Some s \<and> s \<noteq> ([] :: str));
       (res, r') = registry_add kind path url bucket enabled secret r
   in if k \<in> {''dir'', ''glob''} \<and> present path \<or> k \<in> {''debuginfod'', ''http''} \<and> present url \<or>
         k = ''s3'' \<and> present bucket \<or> k = ''inline''
      then \<exists>s. res = Inr (ss_source_id s) \<and> rg_sources r' = rg_sources r @ [s] \<and> ss_kind s = k \<and>
             ss_egress s = remote \<and>
             ss_enabled s = (case enabled of Some b \<Rightarrow> b | None \<Rightarrow> \<not> remote)
      else isl res \<and> r' = r"
proof -
  have present: "(\<exists>s. x = Some s \<and> s \<noteq> ([] :: str)) \<longleftrightarrow> \<not> is_missing x" for x
    by (auto simp: is_missing_def split: option.splits)
  define k where "k = lowercase (trim kind)"
  have valid: "add_error k path url bucket = None \<longleftrightarrow>
      k \<in> {''dir'', ''glob''} \<and> \<not> is_missing path \<or> k \<in> {''debuginfod'', ''http''} \<and> \<not> is_missing url \<or>
      k = ''s3'' \<and> \<not> is_missing bucket \<or> k = ''inline''"
    by (auto simp: add_error_def)
  show ?thesis
    unfolding present Let_def registry_add_def k_def [symmetric] valid [symmetric]
    by (cases "add_error k path url bucket") simp_all
qed

lemma registry_add_id:
  "add_error (lowercase (trim kind)) path url bucket = None \<Longrightarrow>
     fst (registry_add kind path url bucket enabled secret r) = Inr (''src'' @ show_u64 (rg_next_id r))"
  by (simp add: registry_add_def Let_def)

text \<open>
  A source id is never given twice: the id of a new source is not among those of the
  list, and the next one will not be either, as long as the 64-bit counter has not reached its
  end. This covers lists restored at a cold start.
\<close>

lemma add_source_fresh:
  assumes "ids_ok r" "rg_next_id r \<noteq> - 1"
    and "registry_add kind path url bucket enabled secret r = (Inr i, r')"
  shows "i \<notin> ss_source_id ` set (rg_sources r) \<and> ids_ok r'"
  using registry_add_ok [OF assms] by blast

text \<open>
  Dropping a source answers whether it was there, removes exactly it, and afterwards a
  token is located in the remaining sources only: nothing that was indexed from the dropped
  one is found any more.
\<close>

lemma drop_source_forgets:
  assumes "ids_ok r" "index_ok W K r" "probes_return W K"
  shows "fst (registry_drop i r) = (i \<in> ss_source_id ` set (rg_sources r)) \<and>
    rg_sources (snd (registry_drop i r)) = filter (\<lambda>s. ss_source_id s \<noteq> i) (rg_sources r) \<and>
    snd (locate W K token (snd (registry_drop i r))) = Returned (locate_indexed W token
      (map_of (hits W K (filter is_local (filter (\<lambda>s. ss_source_id s \<noteq> i) (rg_sources r))))))"
proof -
  obtain b r' where d: "registry_drop i r = (b, r')" by (cases "registry_drop i r")
  note ok = registry_drop_ok [OF assms(1,2) d]
  obtain r2 o2 where l: "locate W K token r' = (r2, o2)" by (cases "locate W K token r'")
  have "o2 \<noteq> Panicked" using locate_returns [OF assms(3), of token r'] l by simp
  with locate_ok [of r' W K, OF _ _ l] ok have
    "o2 = Returned (locate_indexed W token (map_of (hits W K (local_sources r'))))" by blast
  with ok d l show ?thesis by (simp add: local_sources_def)
qed

section \<open>Indexing\<close>

text \<open>
  C27: indexing a directory tree probes its regular files, those of a directory before those
  of its subdirectories, and indexing a glob the matches of its expanded patterns that are no
  directories, pattern by pattern; both keep the files that have an identity, look at no more
  than \<^verbatim>\<open>max_files\<close> of them, and at all of them when there are no more.
\<close>

theorem index_files:
  assumes "probes_return W K" "dirs_stay (w_tree W root)"
  shows "index_dir W K root max_files = Returned
      (List.map_filter (probe_file W K) (take max_files (tree_files root (w_tree W root)))) \<and>
    index_glob W K pattern max_files = Returned
      (List.map_filter (probe_file W K) (take max_files (glob_files W (expand_braces pattern))))"
proof
  show "index_dir W K root max_files = Returned
      (List.map_filter (probe_file W K) (take max_files (tree_files root (w_tree W root))))"
    unfolding index_dir_def
    using index_walk_eq [OF assms(1), of 0 max_files "[(root, w_tree W root)]" "[]"] assms(2)
    by (simp del: index_walk.simps)
  show "index_glob W K pattern max_files = Returned
      (List.map_filter (probe_file W K) (take max_files (glob_files W (expand_braces pattern))))"
    unfolding index_glob_def using index_patterns_eq [OF assms(1), of 0 max_files _ "[]"] by simp
qed

theorem index_files_witness:
  "index_dir demo_world demo ''/srv'' 1 = Returned
     (List.map_filter (probe_file demo_world demo) [''/srv/a.debug''])"
  using index_files [OF demo_probes, of "''/srv''" 1] by (simp add: demo_tree path_join_def)

text \<open>
  C28: a brace group without nesting expands to one pattern per alternative, in order, each
  followed by every expansion of the rest of the pattern; a pattern without braces is itself.
\<close>

theorem expand_braces_group:
  assumes "CHR 0x7B \<notin> set pre" "alts \<noteq> []"
    and "\<forall>a \<in> set alts. CHR 0x7B \<notin> set a \<and> CHR 0x7D \<notin> set a \<and> CHR '','' \<notin> set a"
  shows "expand_braces (pre @ CHR 0x7B # join_with (CHR '','') alts @ CHR 0x7D # post) =
    concat (map (\<lambda>a. map (\<lambda>e. pre @ a @ e) (expand_braces post)) alts)"
proof -
  have g: "take_group 1 (join_with (CHR '','') alts @ CHR 0x7D # post) = (join_with (CHR '','') alts, post)"
    using assms(3) by (intro take_group_flat braces_join) auto
  have s: "split_on (CHR '','') (join_with (CHR '','') alts) = alts"
    using assms(2,3) by (intro split_on_join_with) auto
  have "expand_braces (pre @ CHR 0x7B # join_with (CHR '','') alts @ CHR 0x7D # post) =
      expand_from (map (\<lambda>alt. pre @ alt) alts) post"
    using g by (simp add: expand_braces_def expand_from_literal [OF assms(1)] s)
  also have "\<dots> = concat (map (\<lambda>a. map (\<lambda>e. pre @ a @ e) (expand_braces post)) alts)"
  proof -
    have "(@) (pre @ a) = (\<lambda>e. pre @ a @ e)" for a by auto
    then show ?thesis by (subst expand_from_append) (simp add: expand_braces_def comp_def)
  qed
  finally show ?thesis .
qed

theorem expand_braces_group_witness:
  "expand_braces ''/b/*.{debug,pdb}'' = [''/b/*.debug'', ''/b/*.pdb'']"
  using expand_braces_group [of "''/b/*.''" "[''debug'', ''pdb'']" "[]"]
  by (simp add: expand_braces_def)

end
