(* ===== verification/Worker_Properties.thy ===== *)
theory Worker_Properties
  imports Samples
begin

text \<open>
  The properties of what the worker declares: the selectors of the demangler, the arguments and the
  keywords.
\<close>

section \<open>Demangling\<close>

text \<open>
  C36: \<^verbatim>\<open>demangle\<close> maps over its column, \<^verbatim>\<open>NULL\<close> to \<^verbatim>\<open>NULL\<close>: without a language it detects the
  scheme; with one it takes the selector the trimmed, lower-case text stands for, and a text that
  is no selector is an error that names it. The five choices declared for \<^verbatim>\<open>lang\<close> are selectors,
  one for each scheme.
\<close>

theorem demangle_answers:
  "demangle_column K with_lang args (Utf8 xs) (length xs) =
     (case (if with_lang then va_const_str args 1 else None) of
        None \<Rightarrow> Inr (map (map_option (try_demangle K)) xs)
      | Some s \<Rightarrow> (case map_of lang_table (lowercase (trim s)) of
            None \<Rightarrow> Inl (ValueError (unknown_lang (lowercase (trim s))))
          | Some lang \<Rightarrow> Inr (map (map_option (\<lambda>m. demangle K m lang)) xs))) \<and>
   map (map_of lang_table) (concat (map (\<lambda>c. case c of StrChoice s \<Rightarrow> [s] | _ \<Rightarrow> [])
       (concat (map arg_choices (demangle_args True))))) =
     map Some [Auto, Cpp, Rust, Msvc, Swift]"
proof
  have rows: "map (\<lambda>i. map_option f (xs ! i)) [0..<length xs] = map (map_option f) xs" for f
    by (rule map_rows)
  show "demangle_column K with_lang args (Utf8 xs) (length xs) =
     (case (if with_lang then va_const_str args 1 else None) of
        None \<Rightarrow> Inr (map (map_option (try_demangle K)) xs)
      | Some s \<Rightarrow> (case map_of lang_table (lowercase (trim s)) of
            None \<Rightarrow> Inl (ValueError (unknown_lang (lowercase (trim s))))
          | Some lang \<Rightarrow> Inr (map (map_option (\<lambda>m. demangle K m lang)) xs)))"
  proof (cases "if with_lang then va_const_str args 1 else None")
    case None
    then have "with_lang \<Longrightarrow> va_const_str args 1 = None" by simp
    with None show ?thesis
      by (cases with_lang)
        (simp_all add: demangle_column_def string_col_def rows demangle_auto demangle_lang_parse_auto)
  next
    case (Some s)
    then have "with_lang" "va_const_str args 1 = Some s" by (simp_all split: if_splits)
    then show ?thesis
      by (simp add: demangle_column_def string_col_def rows demangle_lang_parse_table split: option.split)
  qed
qed (simp add: demangle_args_def lang_table_def)

section \<open>Arguments\<close>

text \<open>
  C37: which constant and named arguments a function depends on. The functions other than
  \<^verbatim>\<open>cache_evict\<close> that read any depend on none but the ones they declare to the SDK, each read at
  its declared position or by its declared name: two calls that agree on those give the same
  result. \<^verbatim>\<open>cache_evict\<close> does not keep to what it declares: it declares one named argument and no
  positional one, reads no named argument at all, and depends on the positional constant 0 only,
  which is the token it evicts. So the declared argument makes no difference, and whatever it is, a
  call without a positional constant clears the whole resident set.
\<close>

theorem declared_arguments:
  "(same_args add_source_args a b \<longrightarrow> add_source_producer a st = add_source_producer b st) \<and>
   (same_args sources_args a b \<longrightarrow> sources_producer a st = sources_producer b st) \<and>
   (same_args drop_source_args a b \<longrightarrow> drop_source_producer a st = drop_source_producer b st) \<and>
   (same_args cache_status_args a b \<longrightarrow> cache_status_producer L a st = cache_status_producer L b st) \<and>
   (same_args module_info_blob_args a b \<longrightarrow>
      module_info_blob_producer K a st = module_info_blob_producer K b st) \<and>
   (same_args module_info_path_args a b \<longrightarrow>
      module_info_path_producer K W a st = module_info_path_producer K W b st) \<and>
   (same_args (demangle_args with_lang) a b \<longrightarrow>
      demangle_column K with_lang a col rows = demangle_column K with_lang b col rows) \<and>
   list_all (\<lambda>s. arg_position s < 0) cache_evict_args \<and>
   cache_evict_producer L (a\<lparr>va_named_str := f, va_named_bool := g\<rparr>) st = cache_evict_producer L a st \<and>
   (va_const_str a 0 = va_const_str b 0 \<longrightarrow>
      cache_evict_producer L a st = cache_evict_producer L b st) \<and>
   cache_evict_producer L (a\<lparr>va_const_str := (va_const_str a)(0 := t)\<rparr>) st =
      (case cache_evict L t (st_cache st) of (freed, c) \<Rightarrow> (freed, st\<lparr>st_cache := c\<rparr>)) \<and>
   (va_const_str a 0 = None \<longrightarrow> lru_laws L \<longrightarrow>
      lru_iter L (sc_resident (st_cache (snd (cache_evict_producer L a st)))) = [])"
proof (intro conjI impI add_source_declared sources_declared drop_source_declared
    cache_status_declared module_info_declared demangle_declared)
  assume "va_const_str a 0 = None" "lru_laws L"
  then show "lru_iter L (sc_resident (st_cache (snd (cache_evict_producer L a st)))) = []"
    using resident_lru.cache_evict_none(1) [OF resident_lru.intro, of L "st_cache st"]
    by (simp add: cache_evict_producer_def state_cache_evict_def case_prod_beta)
qed (simp_all add: cache_evict_args_def cache_evict_producer_def state_cache_evict_def)

text \<open>
  The second argument of a call by position makes no difference to \<^verbatim>\<open>add_source\<close>. Two calls of
  \<^verbatim>\<open>cache_evict\<close> that agree on everything it declares differ: the one that names the token by
  the declared name clears everything, the one with an unknown token in position 0 frees nothing.
\<close>

theorem declared_arguments_witness:
  "add_source_producer \<lparr>va_const_str = [0 \<mapsto> ''dir'', 1 \<mapsto> ''/elsewhere''],
       va_named_str = [''path'' \<mapsto> ''/srv''], va_named_bool = [''egress'' \<mapsto> True],
       va_arg = Map.empty\<rparr> demo_state =
   add_source_producer \<lparr>va_const_str = [0 \<mapsto> ''dir''], va_named_str = [''path'' \<mapsto> ''/srv''],
       va_named_bool = Map.empty, va_arg = Map.empty\<rparr> demo_state \<and>
   (let st = demo_state\<lparr>st_cache := demo_cache\<rparr>;
        named = \<lparr>va_const_str = Map.empty, va_named_str = [''debug_id'' \<mapsto> ''11''],
          va_named_bool = Map.empty, va_arg = Map.empty\<rparr>;
        positional = named\<lparr>va_const_str := (va_const_str named)(0 := Some ''11'')\<rparr>
    in same_args cache_evict_args named positional \<and>
       lru_iter list_lru (sc_resident (st_cache (snd (cache_evict_producer list_lru named st)))) = [] \<and>
       lru_iter list_lru (sc_resident (st_cache (snd (cache_evict_producer list_lru positional st)))) =
         [(key_of demo_module, new_resident 7 demo_module)])"
proof
  let ?a = "\<lparr>va_const_str = [0 \<mapsto> ''dir'', 1 \<mapsto> ''/elsewhere''],
       va_named_str = [''path'' \<mapsto> ''/srv''], va_named_bool = [''egress'' \<mapsto> True], va_arg = Map.empty\<rparr>"
  let ?b = "\<lparr>va_const_str = [0 \<mapsto> ''dir''], va_named_str = [''path'' \<mapsto> ''/srv''],
       va_named_bool = Map.empty, va_arg = Map.empty\<rparr>"
  have "same_args add_source_args ?a ?b" by (simp add: same_args_def add_source_args_def)
  with declared_arguments [of ?a ?b demo_state]
  show "add_source_producer ?a demo_state = add_source_producer ?b demo_state" by blast
  let ?st = "demo_state\<lparr>st_cache := demo_cache\<rparr>"
  let ?n = "\<lparr>va_const_str = Map.empty, va_named_str = [''debug_id'' \<mapsto> ''11''],
          va_named_bool = Map.empty, va_arg = Map.empty\<rparr>"
  have "resolve_debug_id demo_cache ''11'' = None"
    unfolding demo_cache_def
    by (simp add: same_index_resolve [OF ref_cache.cache_insert_index] resolve_debug_id_insert
        demo_tokens demo_alias demo_dwarf_def)
      (simp add: resolve_debug_id_def cache_new_def)
  then have absent: "cache_evict list_lru (Some ''11'') demo_cache = (0, demo_cache)"
    by (simp add: cache_evict_def)
  show "let st = ?st; named = ?n;
        positional = named\<lparr>va_const_str := (va_const_str named)(0 := Some ''11'')\<rparr>
    in same_args cache_evict_args named positional \<and>
       lru_iter list_lru (sc_resident (st_cache (snd (cache_evict_producer list_lru named st)))) = [] \<and>
       lru_iter list_lru (sc_resident (st_cache (snd (cache_evict_producer list_lru positional st)))) =
         [(key_of demo_module, new_resident 7 demo_module)]"
    unfolding Let_def
  proof (intro conjI)
    show "same_args cache_evict_args ?n (?n\<lparr>va_const_str := (va_const_str ?n)(0 := Some ''11'')\<rparr>)"
      by (simp add: same_args_def cache_evict_args_def)
    show "lru_iter list_lru (sc_resident (st_cache (snd (cache_evict_producer list_lru ?n ?st)))) = []"
      using declared_arguments [where a = ?n and L = list_lru and st = ?st] list_lru_laws by fastforce
    show "lru_iter list_lru (sc_resident (st_cache (snd (cache_evict_producer list_lru
          (?n\<lparr>va_const_str := (va_const_str ?n)(0 := Some ''11'')\<rparr>) ?st)))) =
         [(key_of demo_module, new_resident 7 demo_module)]"
      using declared_arguments [where a = ?n and L = list_lru and st = ?st and t = "Some ''11''"] absent
      by (simp add: demo_cache_items)
  qed
qed

section \<open>Metadata\<close>

text \<open>
  C38: when the keywords tag is a JSON array of strings, and what it reads back to. The writer
  escapes quotes and backslashes and nothing else, so reading the tag back gives the trimmed,
  non-empty terms of the comma-separated list, in order, exactly when none of these terms has a
  control character inside; with one, the tag is not JSON and does not read back at all. A list
  without control characters always reads back; those at the ends of a term are trimmed off.
\<close>

theorem keywords_round_trip:
  "json_string_array (keywords_json keywords) =
     (if list_all no_controls (keyword_terms keywords) then Some (keyword_terms keywords) else None) \<and>
   (no_controls keywords \<longrightarrow> list_all no_controls (keyword_terms keywords))"
  using read_keywords keyword_terms_no_controls by blast

theorem keywords_round_trip_witness:
  "json_string_array (keywords_json ''dwarf,,pdb'') = Some [''dwarf'', ''pdb''] \<and>
   json_string_array (keywords_json [CHR ''a'', CHR 0x09, CHR ''b'']) = None"
proof
  have "no_controls ''dwarf,,pdb''" by (simp add: no_controls_def)
  then have "list_all no_controls (keyword_terms ''dwarf,,pdb'')" using keywords_round_trip by blast
  moreover have "trim ''dwarf'' = ''dwarf''" "trim ''pdb'' = ''pdb''"
    by (rule trim_graphic; simp add: is_ascii_graphic_def)+
  moreover have "trim [] = []" by (simp add: trim_def trim_start_of_def)
  ultimately show "json_string_array (keywords_json ''dwarf,,pdb'') = Some [''dwarf'', ''pdb'']"
    using keywords_round_trip [of "''dwarf,,pdb''"] by (simp add: keyword_terms_def)
  have "trim [CHR ''a'', CHR 0x09, CHR ''b''] = [CHR ''a'', CHR 0x09, CHR ''b'']" by code_simp
  then have "\<not> list_all no_controls (keyword_terms [CHR ''a'', CHR 0x09, CHR ''b''])"
    by (simp add: keyword_terms_def no_controls_def)
  then show "json_string_array (keywords_json [CHR ''a'', CHR 0x09, CHR ''b'']) = None"
    using keywords_round_trip by simp
qed

end
