(* ===== verification/Descriptions.thy ===== *)
theory Descriptions
  imports Table_Functions Metadata
begin

text \<open>
  The \<^verbatim>\<open>metadata\<close> of every function: the prose and the tags it publishes to the catalog, text for
  text as in the source (strings are the bytes of their UTF-8 encoding), with the columns
  documented for each table function read back and compared to the schema it binds.
\<close>

record function_metadata =
  fm_description :: str
  fm_return_type :: "data_type option"
  fm_examples :: "str list"
  fm_tags :: "(str \<times> str) list"

text \<open>What every \<^verbatim>\<open>metadata\<close> method builds: the object tags, a category, and further tags.\<close>

definition described ::
  "str \<Rightarrow> data_type option \<Rightarrow> (str \<times> str) list \<Rightarrow> function_metadata" where
  "described description return_type tags =
     \<lparr>fm_description = description, fm_return_type = return_type, fm_examples = [], fm_tags = tags\<rparr>"

section \<open>Scalar functions\<close>

definition symbolicate_examples :: str where
  \<open>symbolicate_examples =
     ''[{"description":"Symbolicate one module-relative frame (build-id \'e4c1f2b9\', '' @
     ''address 303600) and read the resolved function name and status off the returned '' @
     ''struct; status is \'not_found\' until a matching symbol source is registered with '' @
     ''add_source.","sql":"SELECT (symbols.main.symbolicate(\'e4c1f2b9\', 303600)).function '' @
     ''AS function, (symbols.main.symbolicate(\'e4c1f2b9\', 303600)).status AS status"}]''\<close>

definition symbolicate_metadata :: function_metadata where
  \<open>symbolicate_metadata =
     described
       (''Resolve one (build_id, address) frame to a STRUCT with the inline chain collapsed '' @
        ''into a list'')
       None
       (object_tags
          (''Symbolicate Frame (scalar)'')
          (''Resolve a single `(build_id, address)` stack frame to a `STRUCT` with the '' @
           ''physical frame\'s `function` / `file` / `line`, the inlined call chain collapsed '' @
           ''into an `inlined` `LIST(STRUCT(function, file, line))` (innermost-first), '' @
           ''and the `module`, `debug_id`, and `status` that answered. One row out '' @
           em_dash @
           '' the convenience for resolving one frame in a scalar context; map it over '' @
           ''a frame column to symbolicate in bulk, and `UNNEST` the `inlined` list for '' @
           ''inline-expanded rows. `build_id` is the normalized debug-id or raw build-id '' @
           ''hex; `address` is the MODULE-RELATIVE virtual address (caller subtracts the '' @
           ''load base). `status` is \'ok\', \'not_found\' (no module), \'no_line\' (no '' @
           ''line info), or \'error:<kind>\'. Backed by the persistent build-id-keyed '' @
           ''cache.'')
          (''Resolve one `(build_id, address)` to a `STRUCT(function, file, line, inlined, '' @
           ''module, debug_id, status)`; `inlined` is the innermost-first inline chain. '' @
           ''`address` is module-relative. Map it over a frame column to symbolicate in '' @
           ''bulk; `UNNEST` the `inlined` list for inline-expanded rows.'')
          (''symbolicate, resolve, stack frame, function, file, line, inline, addr2line, '' @
           ''dwarf, pdb, build_id, address, crash, profiling'') @
        [(''vgi.category'', ''Resolution''),
         (''vgi.example_queries'', symbolicate_examples)])\<close>

definition function_name_examples :: str where
  \<open>function_name_examples =
     ''[{"description":"Resolve a frame (build-id \'e4c1f2b9\', module-relative address '' @
     ''303600) to just its innermost function name; returns NULL until a symbol source '' @
     ''for that build-id is registered with add_source.","sql":"SELECT symbols.main.function_name(\'e4c1f2b9\', '' @
     ''303600) AS function"}]''\<close>

definition function_name_metadata :: function_metadata where
  \<open>function_name_metadata =
     described
       (''Resolve a (build_id, address) frame to the innermost function name only'')
       (Some DUtf8)
       (object_tags
          (''Resolve Function Name'')
          (''Resolve a `(build_id, address)` frame to just the innermost function name '' @
           ''(demangled), or NULL if no symbols are found. The cheap path that skips file/line '' @
           ''and inline-chain materialization '' @
           em_dash @
           '' ideal as a flamegraph leaf label or a GROUP BY key for crash-bucketing across '' @
           ''a fleet. `build_id` is the module\'s normalized debug-id or its raw per-format '' @
           ''build-id hex (the worker normalizes); `address` is the **module-relative** '' @
           ''virtual address (the caller subtracts the load base '' @
           em_dash @
           '' see the address-model contract). Backed by the persistent build-id-keyed '' @
           ''debug-info cache, so a column of millions of addresses parses each module '' @
           ''once.'')
          (''Resolve `(build_id, address)` to the innermost demangled function name (NULL '' @
           ''if not found). `address` is module-relative (caller subtracts the load base). '' @
           ''Cheaper than `symbolicate` '' @
           em_dash @
           '' no file/line/inline.'')
          (''function name, symbolicate, resolve, addr2line, flamegraph leaf, group by, '' @
           ''crash bucket, build_id, address'') @
        [(''vgi.category'', ''Resolution''),
         (''vgi.example_queries'', function_name_examples)])\<close>

definition inline_frames_examples :: str where
  \<open>inline_frames_examples =
     ''[{"description":"Get the length of the inlined call chain (innermost-first, physical '' @
     ''frame excluded) at module-relative address 303600 in build-id \'e4c1f2b9\'; 0 until '' @
     ''the address has both symbols and inlining.","sql":"SELECT length(symbols.main.inline_frames(\'e4c1f2b9\', '' @
     ''303600)) AS inline_depth"}]''\<close>

definition inline_frames_metadata :: function_metadata where
  \<open>inline_frames_metadata =
     described
       (''Resolve a (build_id, address) frame to its inline chain only (a list of STRUCT(function, '' @
        ''file, line))'')
       (Some inline_frames_list_type)
       (object_tags
          (''Inlined Call Chain at an Address'')
          (''Resolve a `(build_id, address)` frame to just its inlined call chain '' @
           em_dash @
           '' a `LIST(STRUCT(function, file, line))` ordered innermost-first, **excluding** '' @
           ''the physical frame. Empty list when the address has no inlining (or no symbols). '' @
           ''Useful to reconstruct a logically-deeper stack than the captured frame count. '' @
           ''`build_id` is the normalized debug-id or raw build-id hex; `address` is the '' @
           ''MODULE-RELATIVE virtual address (caller subtracts the load base). Backed '' @
           ''by the persistent build-id-keyed cache.'')
          (''Resolve `(build_id, address)` to its inline chain only: `LIST(STRUCT(function, '' @
           ''file, line))`, innermost-first, without the physical frame. `address` is '' @
           ''module-relative.'')
          (''inline frames, inlining, inline chain, symbolicate, dwarf, pdb, stack, build_id, '' @
           ''address'') @
        [(''vgi.category'', ''Resolution''),
         (''vgi.example_queries'', inline_frames_examples)])\<close>

definition demangle_examples :: str where
  \<open>demangle_examples =
     ''[{"description":"Demangle an Itanium C++ linkage name into its readable form (\'foo::bar\').","sql":"SELECT '' @
     ''symbols.main.demangle(\'_ZN3foo3barEv\') AS name"}]''\<close>

definition demangle_metadata :: "bool \<Rightarrow> function_metadata" where
  \<open>demangle_metadata with_lang =
     described
       (if with_lang then ''Demangle a raw linkage/symbol name into a readable function name using the '' @
          ''given mangling scheme (auto/cpp/rust/msvc/swift)''
        else ''Demangle a raw linkage/symbol name into a readable function name (scheme auto-detected)'')
       (Some DUtf8)
       (object_tags
          (if with_lang then ''Demangle Symbol (with language)'' else ''Demangle Symbol'')
          (''Turn a mangled linkage name into a human-readable function name. Supports '' @
           ''Itanium C++ (`_Z...`), Rust legacy (`_ZN...`) and v0 (`_R...`), Microsoft '' @
           ''Visual C++ (`?...`), and Swift mangling. The optional second argument `lang` '' @
           ''selects the scheme '' @
           em_dash @
           '' \'auto\' (the default, detect from the string), \'cpp\', \'rust\', \'msvc\', '' @
           ''or \'swift\'. Pure and total: an unmangled or unrecognized name is returned '' @
           ''unchanged, never an error. Use it when you already have raw names from another '' @
           ''tool and want them readable in SQL.'')
          (''Demangle a mangled symbol, e.g. `demangle(\'_ZN3foo3barEv\')` -> \'foo::bar\'. '' @
           ''Optional positional `lang`: auto (default) / cpp / rust / msvc / swift. Returns '' @
           ''the input unchanged if it is not mangled.'')
          (''demangle, mangled, symbol, linkage name, c++, itanium, rust, msvc, swift, '' @
           ''function name'') @
        [(''vgi.category'', ''Demangling''), (''vgi.example_queries'', demangle_examples)])\<close>

section \<open>Table functions\<close>

definition ROW_TAIL :: str where
  \<open>ROW_TAIL =
     ''returns one row describing the container `format` (\'ELF\' / \'MachO\' / \'PE\' '' @
     ''/ \'PDB\' / \'dSYM\' / \'Breakpad\'), the CPU `arch`, the raw per-format `build_id` '' @
     ''hex and the normalized `debug_id` cache key (so you can check whether this file '' @
     ''matches the frames you have), the `code_id`, the `has_dwarf` / `has_pdb` / `has_line_table` '' @
     ''capability flags, the `symbol_count` / `file_count` / `byte_size`, and the image\'s '' @
     ''preferred `image_base`. It is the triage tool '' @
     em_dash @
     '' \'does this file actually have line info, and does its debug-id match?\' '' @
     em_dash @
     '' answered header-only, without paying the parse-into-cache cost. Zero rows if the '' @
     ''input is not a recognizable debug file.''\<close>

definition docs :: "bool \<Rightarrow> str \<times> str \<times> str" where
  \<open>docs blob =
     (let (llm, md) =
        (if blob then
          (''Inspect a debug file whose bytes you pass inline as a single BLOB argument '' @
         ''(e.g. `read_blob(\'/path/libfoo.so.debug\')`) without resolving any frames: '' @ ROW_TAIL,
           ''Inspect debug-file bytes given inline as a BLOB (no resolve): one row with '' @
           ''format, arch, build_id, debug_id, code_id, has_dwarf/has_pdb/has_line_table, '' @
           ''symbol_count, file_count, byte_size, image_base '' @
           em_dash @
           '' or zero rows if the bytes are not a debug file.'')
         else
          (''Inspect a debug file named by a single filesystem `path` argument without resolving '' @
         ''any frames: '' @ ROW_TAIL,
           ''Inspect a debug file by filesystem path (no resolve): one row with format, '' @
           ''arch, build_id, debug_id, code_id, has_dwarf/has_pdb/has_line_table, symbol_count, '' @
           ''file_count, byte_size, image_base '' @
           em_dash @
           '' or zero rows if the path is missing or not a debug file.''))
      in (llm, md,
         ''module_info, inspect, triage, debug file, ELF, MachO, PE, PDB, dSYM, build_id, '' @
         ''debug_id, has line table, symbol count''))\<close>

definition RESULT_COLUMNS_SCHEMA :: str where
  \<open>RESULT_COLUMNS_SCHEMA =
     ''['' @
     newline @
     ''  {"name": "format", "type": "VARCHAR", "description": "Container format: ELF / '' @
     ''MachO / PE / PDB / dSYM / Breakpad."},'' @
     newline @
     ''  {"name": "arch", "type": "VARCHAR", "description": "CPU architecture, e.g. x86_64 '' @
     ''/ aarch64."},'' @
     newline @
     ''  {"name": "build_id", "type": "VARCHAR", "description": "Raw per-format build '' @
     ''identifier (hex), or NULL."},'' @
     newline @
     ''  {"name": "debug_id", "type": "VARCHAR", "description": "Normalized debug-id cache '' @
     ''key, or NULL."},'' @
     newline @
     ''  {"name": "code_id", "type": "VARCHAR", "description": "Code-file identifier, '' @
     ''or NULL."},'' @
     newline @
     ''  {"name": "has_dwarf", "type": "BOOLEAN", "description": "True if the file carries '' @
     ''DWARF debug info."},'' @
     newline @
     ''  {"name": "has_pdb", "type": "BOOLEAN", "description": "True if the file is / '' @
     ''carries a Windows PDB."},'' @
     newline @
     ''  {"name": "has_line_table", "type": "BOOLEAN", "description": "True if line-number '' @
     ''info is present."},'' @
     newline @
     ''  {"name": "symbol_count", "type": "BIGINT", "description": "Number of symbols '' @
     ''discovered."},'' @
     newline @
     ''  {"name": "file_count", "type": "BIGINT", "description": "Number of source files '' @
     ''referenced."},'' @
     newline @
     ''  {"name": "byte_size", "type": "BIGINT", "description": "Size of the debug file '' @
     ''in bytes."},'' @
     newline @
     ''  {"name": "image_base", "type": "UBIGINT", "description": "The image\'s preferred '' @
     ''load base."}'' @
     newline @
     '']''\<close>

definition module_info_blob_examples :: str where
  \<open>module_info_blob_examples =
     ''[{"description":"Triage debug-file bytes passed inline as a BLOB (returns one row '' @
     ''with format / debug_id / has_line_table, or zero rows if the bytes are not a recognizable '' @
     ''debug file). In practice read a real file: `module_info(read_blob(\'/srv/debug/libssl.so.debug\'))`.","sql":"SELECT '' @
     ''* FROM symbols.main.module_info('' @
     [CHR 0x27] @
     backslash @
     backslash @
     ''x7fELF\'::BLOB)"}]''\<close>

definition module_info_blob_metadata :: function_metadata where
  \<open>module_info_blob_metadata =
     (let (llm, md, kw) = docs True in
      described
        (''Inspect a debug file given inline as a BLOB (format, debug-id, line info) without '' @
         ''resolving'')
        None
        (object_tags ''Module Info (BLOB)'' llm md kw @
         [(''vgi.category'', ''Modules''), (''vgi.result_columns_schema'', RESULT_COLUMNS_SCHEMA),
          (''vgi.executable_examples'', module_info_blob_examples)]))\<close>

definition module_info_path_examples :: str where
  \<open>module_info_path_examples =
     ''[{"description":"Triage a debug file by filesystem path (one row with format / '' @
     ''debug_id / has_line_table, or zero rows if the path is missing or not a debug file). '' @
     ''Point it at a real symbol file on the worker host, e.g. \'/srv/debug/libssl.so.debug\'.","sql":"SELECT '' @
     ''* FROM symbols.main.module_info(\'/srv/debug/libssl.so.debug\')"}]''\<close>

definition module_info_path_metadata :: function_metadata where
  \<open>module_info_path_metadata =
     (let (llm, md, kw) = docs False in
      described
        (''Inspect a debug file by path (format, debug-id, line info) without resolving'')
        None
        (object_tags ''Module Info (path)'' llm md kw @
         [(''vgi.category'', ''Modules''), (''vgi.result_columns_schema'', RESULT_COLUMNS_SCHEMA),
          (''vgi.executable_examples'', module_info_path_examples)]))\<close>

definition cache_status_columns_text :: str where
  \<open>cache_status_columns_text =
     ''['' @
     newline @
     ''  {"name": "debug_id", "type": "VARCHAR", "description": "Normalized debug-id cache '' @
     ''key."},'' @
     newline @
     ''  {"name": "name", "type": "VARCHAR", "description": "Debug file name."},'' @
     newline @
     ''  {"name": "format", "type": "VARCHAR", "description": "Container format (ELF / '' @
     ''MachO / PE / PDB / '' @
     ellipsis @
     '')."},'' @
     newline @
     ''  {"name": "arch", "type": "VARCHAR", "description": "CPU architecture."},'' @
     newline @
     ''  {"name": "bytes_resident", "type": "BIGINT", "description": "Resident footprint '' @
     ''in bytes (0 if evicted / manifest-only)."},'' @
     newline @
     ''  {"name": "rows_resolved", "type": "BIGINT", "description": "Cumulative addresses '' @
     ''resolved against this module."},'' @
     newline @
     ''  {"name": "last_used", "type": "TIMESTAMPTZ", "description": "Timestamp of last '' @
     ''use, or NULL if never used."},'' @
     newline @
     ''  {"name": "origin", "type": "VARCHAR", "description": "Provenance the module is '' @
     ''(re)parsed from (dir / glob / '' @
     ellipsis @
     ''), or NULL."},'' @
     newline @
     ''  {"name": "resident", "type": "BOOLEAN", "description": "True if the parsed module '' @
     ''is currently resident in RAM."}'' @
     newline @
     '']''\<close>

definition cache_status_examples :: str where
  \<open>cache_status_examples =
     ''[{"description":"List the debug modules the worker has parsed and the manifest '' @
     ''knows about, hottest first. Returns no rows on a cold worker (nothing parsed yet); '' @
     ''pass resident_only => true to skip evicted/manifest-only entries.","sql":"SELECT '' @
     ''debug_id, name, bytes_resident, rows_resolved FROM symbols.main.cache_status() '' @
     ''ORDER BY bytes_resident DESC"}]''\<close>

definition cache_status_metadata :: function_metadata where
  \<open>cache_status_metadata =
     described
       (''Report the parsed/resident debug modules (the build-id-keyed cache state)'')
       None
       (object_tags
          (''Cache Status'')
          (''Report what debug modules are parsed and resident right now (the stateful '' @
           ''heart of this worker): one row per known debug-id '' @
           em_dash @
           '' both modules resident in RAM and manifest-only entries (evicted or proven-missing). '' @
           ''Columns: `debug_id`, `name` (debug file), `format`, `arch`, `bytes_resident` '' @
           ''(0 if not resident), `rows_resolved` (cumulative addresses resolved against '' @
           ''it), `last_used`, `origin` (where it came from), and `resident`. Order by '' @
           ''`bytes_resident DESC` to see the hot modules. Use it to watch the parse-once '' @
           ''/ LRU behavior of the cache.'')
          (''List the resident + known debug modules: debug_id, name, format, arch, bytes_resident, '' @
           ''rows_resolved, last_used, origin, resident. The cache-observability surface.'')
          (''cache_status, cache, resident, parsed modules, observability, bytes_resident, '' @
           ''rows_resolved, debug_id, LRU'') @
        [(''vgi.category'', ''Cache''),
         (''vgi.result_columns_schema'', cache_status_columns_text),
         (''vgi.executable_examples'', cache_status_examples)])\<close>

definition cache_evict_columns_text :: str where
  \<open>cache_evict_columns_text =
     ''['' @
     newline @
     ''  {"name": "bytes_freed", "type": "BIGINT", "description": "Resident bytes reclaimed '' @
     ''by the eviction (0 if the module was not resident, or the cache was already empty)."}'' @
     newline @
     '']''\<close>

definition cache_evict_examples :: str where
  \<open>cache_evict_examples =
     ''[{"description":"Clear the entire resident cache (keeping the manifest) and report '' @
     ''the bytes reclaimed; 0 on a cold worker with nothing resident.","sql":"SELECT bytes_freed '' @
     ''FROM symbols.main.cache_evict()"}]''\<close>

definition cache_evict_metadata :: function_metadata where
  \<open>cache_evict_metadata =
     described
       (''Force-evict one module (or the whole resident set) from the cache; returns bytes '' @
        ''freed'')
       None
       (object_tags
          (''Cache Evict'')
          (''Force whole-module eviction from the resident debug-info cache, returning '' @
           ''the number of bytes freed. With `debug_id =>` set, evict just that module '' @
           ''(e.g. after its symbol file was updated on disk); with no argument, clear '' @
           ''the entire resident set. Either way the manifest entry is kept, so a later '' @
           ''address re-parses the module from its origin rather than re-discovering it. '' @
           ''Use it to reclaim RAM or to pick up an updated symbol file.'')
          (''Evict from the resident cache and return bytes freed: `cache_evict(debug_id '' @
           ''=> '' @
           [CHR 0x27] @
           ellipsis @
           ''\')` evicts one module, `cache_evict()` clears the resident set (manifest '' @
           ''kept).'')
          (''cache_evict, evict, LRU, reclaim, resident, debug_id, refresh symbols'') @
        [(''vgi.category'', ''Cache''),
         (''vgi.result_columns_schema'', cache_evict_columns_text),
         (''vgi.example_queries'', cache_evict_examples)])\<close>

definition add_source_columns_text :: str where
  \<open>add_source_columns_text =
     ''['' @
     newline @
     ''  {"name": "source_id", "type": "VARCHAR", "description": "The id assigned to the '' @
     ''new source (e.g. src0). Pass it to drop_source to remove it."}'' @
     newline @
     '']''\<close>

definition add_source_examples :: str where
  \<open>add_source_examples =
     ''[{"description":"Register a local, zero-egress directory of symbol files and capture '' @
     ''its assigned source_id (use `add_source(\'glob\', path => \'/builds/**/*.{debug,pdb}\')` '' @
     ''for a recursive glob, or a remote kind like \'debuginfod\'/\'s3\'/\'http\' with '' @
     ''`enabled => true`).","sql":"SELECT source_id FROM symbols.main.add_source(\'dir\', '' @
     ''path => \'/srv/debug\')"}]''\<close>

definition add_source_metadata :: function_metadata where
  \<open>add_source_metadata =
     described
       (''Register a symbol source (dir/glob/debuginfod/s3/http); returns its source_id'')
       None
       (object_tags
          (''Add Symbol Source'')
          (''Register where debug files live so `symbolicate` can find them, returning '' @
           ''the assigned `source_id`. Sources are tried in the order added; the first '' @
           ''debug-id match wins. Local, zero-egress kinds: `dir` (`path =>` a directory '' @
           ''of symbol files) and `glob` (`path =>` a recursive glob like \'/builds/**/*.{debug,pdb,dSYM}\'). '' @
           ''Remote, egress kinds (opt-in, default disabled): `debuginfod` (`url =>`), '' @
           ''`http` (`url =>`), and `s3` (`bucket =>`) '' @
           em_dash @
           '' pass `enabled => true` to turn one on; credentials come from the SDK secret '' @
           ''provider via `secret =>`, never inline. The default posture is air-gap-safe: '' @
           ''with no remote source enabled there is zero network egress.'')
          (''Register a symbol source and get its source_id. `add_source(\'dir\', path '' @
           ''=> \'/srv/debug\')` or `add_source(\'glob\', path => \'/b/**/*.debug\')`; '' @
           ''remote kinds (debuginfod/s3/http) are opt-in (`enabled => true`) with secrets '' @
           ''via `secret =>`.'')
          (''add_source, symbol source, dir, glob, debuginfod, s3, http, debug files, '' @
           ''egress, secret, data residency'') @
        [(''vgi.category'', ''Sources''),
         (''vgi.result_columns_schema'', add_source_columns_text),
         (''vgi.executable_examples'', add_source_examples)])\<close>

definition sources_columns_text :: str where
  \<open>sources_columns_text =
     ''['' @
     newline @
     ''  {"name": "source_id", "type": "VARCHAR", "description": "Opaque id from add_source."},'' @
     newline @
     ''  {"name": "kind", "type": "VARCHAR", "description": "Source kind: dir / glob / '' @
     ''debuginfod / s3 / http."},'' @
     newline @
     ''  {"name": "location", "type": "VARCHAR", "description": "The source\'s locator: '' @
     ''path / url / bucket."},'' @
     newline @
     ''  {"name": "enabled", "type": "BOOLEAN", "description": "True if the source is '' @
     ''active."},'' @
     newline @
     ''  {"name": "egress", "type": "BOOLEAN", "description": "True if using the source '' @
     ''crosses the trust boundary (remote)."}'' @
     newline @
     '']''\<close>

definition sources_examples :: str where
  \<open>sources_examples =
     ''[{"description":"Audit the registered symbol sources in resolve order, including '' @
     ''whether each is enabled and whether using it crosses the trust boundary (egress). '' @
     ''Returns no rows until a source is registered with add_source; pass enabled_only '' @
     ''=> true to list only active sources.","sql":"SELECT source_id, kind, location, '' @
     ''enabled, egress FROM symbols.main.sources()"}]''\<close>

definition sources_metadata :: function_metadata where
  \<open>sources_metadata =
     described
       (''List the registered symbol sources (source_id, kind, location, enabled, egress)'')
       None
       (object_tags
          (''Symbol Sources'')
          (''List the registered symbol sources in resolve order: `source_id`, `kind`, '' @
           ''`location` (the path / url / bucket), `enabled`, and `egress` (whether using '' @
           ''the source crosses the trust boundary). Use it to audit data residency '' @
           em_dash @
           '' which sources are local (`egress=false`) versus remote, and which are enabled.'')
          (''List registered symbol sources: source_id, kind, location, enabled, egress '' @
           ''(in resolve order).'')
          (''sources, list sources, audit, data residency, egress, enabled'') @
        [(''vgi.category'', ''Sources''),
         (''vgi.result_columns_schema'', sources_columns_text),
         (''vgi.executable_examples'', sources_examples)])\<close>

definition drop_source_columns_text :: str where
  \<open>drop_source_columns_text =
     ''['' @
     newline @
     ''  {"name": "dropped", "type": "BOOLEAN", "description": "True if a source with '' @
     ''that source_id existed and was removed; false if no such source was registered."}'' @
     newline @
     '']''\<close>

definition drop_source_examples :: str where
  \<open>drop_source_examples =
     ''[{"description":"Deregister the symbol source with id \'src0\'; dropped is false '' @
     ''if no such source was registered.","sql":"SELECT dropped FROM symbols.main.drop_source(\'src0\')"}]''\<close>

definition drop_source_metadata :: function_metadata where
  \<open>drop_source_metadata =
     described
       (''Remove a registered symbol source by id; returns whether one was removed'')
       None
       (object_tags
          (''Drop Symbol Source'')
          (''Remove a previously-registered symbol source by its `source_id`, returning '' @
           ''whether a source was actually removed. The local file index is rebuilt lazily '' @
           ''on the next resolve.'')
          (''Drop a symbol source by id: `drop_source(\'src0\')`. Returns `dropped` (whether '' @
           ''one was removed).'')
          (''drop_source, remove source, source_id, deregister'') @
        [(''vgi.category'', ''Sources''),
         (''vgi.result_columns_schema'', drop_source_columns_text),
         (''vgi.example_queries'', drop_source_examples)])\<close>

section \<open>The documented columns\<close>

text \<open>The layout of the documented columns, and the names DuckDB has for the column types.\<close>

definition columns_layout :: json_layout where
  "columns_layout = \<lparr>jl_before = newline @ ''  '', jl_comma = '' '', jl_colon = '' '', jl_end = newline\<rparr>"

fun sql_type :: "data_type \<Rightarrow> str" where
  "sql_type DUtf8 = ''VARCHAR''"
| "sql_type DInt32 = ''INTEGER''"
| "sql_type DInt64 = ''BIGINT''"
| "sql_type DUInt64 = ''UBIGINT''"
| "sql_type DBoolean = ''BOOLEAN''"
| "sql_type (DTimestampUs tz) = ''TIMESTAMPTZ''"
| "sql_type (DList (Field n t nullable)) = sql_type t @ ''[]''"
| "sql_type (DStruct fs) = ''STRUCT''"

text \<open>
  The tag with the documented columns reads as JSON rows that name exactly the columns of the
  schema, in order and with their types.
\<close>

definition documents :: "function_metadata \<Rightarrow> field list \<Rightarrow> bool" where
  "documents fm schema \<longleftrightarrow>
     (\<exists>rows. Option.bind (map_of (fm_tags fm) ''vgi.result_columns_schema'') json_table = Some rows \<and>
       map (\<lambda>row. (map_of row ''name'', map_of row ''type'')) rows =
       map (\<lambda>f. case f of Field n t nullable \<Rightarrow> (Some n, Some (sql_type t))) schema)"

lemma columns_layout_blank: "blank_layout columns_layout"
  by (simp add: blank_layout_def columns_layout_def special_chars json_blank_def)

lemmas print_text = print_table_def print_object_def columns_layout_def special_chars json_quote_plain

lemma documentsI:
  assumes "map_of (fm_tags fm) ''vgi.result_columns_schema'' = Some text"
    and "text = print_table columns_layout rows" "rows \<noteq> []" "list_all printable_row rows"
    and "map (\<lambda>row. (map_of row ''name'', map_of row ''type'')) rows =
       map (\<lambda>f. case f of Field n t nullable \<Rightarrow> (Some n, Some (sql_type t))) schema"
  shows "documents fm schema"
  unfolding documents_def using assms json_table_print [OF columns_layout_blank assms(3,4)] by simp

lemma info_rows:
  \<open>\<exists>rows. RESULT_COLUMNS_SCHEMA = print_table columns_layout rows \<and> rows \<noteq> [] \<and> list_all printable_row rows \<and>
     map (\<lambda>row. (map_of row ''name'', map_of row ''type'')) rows =
     map (\<lambda>f. case f of Field n t nullable \<Rightarrow> (Some n, Some (sql_type t))) info_schema\<close>
  by (rule exI [where x =
    \<open>[[(''name'', ''format''),
       (''type'', ''VARCHAR''),
       (''description'', ''Container format: ELF / MachO / PE / PDB / dSYM / Breakpad.'')],
      [(''name'', ''arch''),
       (''type'', ''VARCHAR''),
       (''description'', ''CPU architecture, e.g. x86_64 / aarch64.'')],
      [(''name'', ''build_id''),
       (''type'', ''VARCHAR''),
       (''description'', ''Raw per-format build identifier (hex), or NULL.'')],
      [(''name'', ''debug_id''),
       (''type'', ''VARCHAR''),
       (''description'', ''Normalized debug-id cache key, or NULL.'')],
      [(''name'', ''code_id''),
       (''type'', ''VARCHAR''),
       (''description'', ''Code-file identifier, or NULL.'')],
      [(''name'', ''has_dwarf''),
       (''type'', ''BOOLEAN''),
       (''description'', ''True if the file carries DWARF debug info.'')],
      [(''name'', ''has_pdb''),
       (''type'', ''BOOLEAN''),
       (''description'', ''True if the file is / carries a Windows PDB.'')],
      [(''name'', ''has_line_table''),
       (''type'', ''BOOLEAN''),
       (''description'', ''True if line-number info is present.'')],
      [(''name'', ''symbol_count''),
       (''type'', ''BIGINT''),
       (''description'', ''Number of symbols discovered.'')],
      [(''name'', ''file_count''),
       (''type'', ''BIGINT''),
       (''description'', ''Number of source files referenced.'')],
      [(''name'', ''byte_size''),
       (''type'', ''BIGINT''),
       (''description'', ''Size of the debug file in bytes.'')],
      [(''name'', ''image_base''),
       (''type'', ''UBIGINT''),
       (''description'', ''The image\'s preferred load base.'')]]\<close>])
    (simp add: RESULT_COLUMNS_SCHEMA_def info_schema_def print_text printable_row_def no_controls_def)

lemma status_rows:
  \<open>\<exists>rows. cache_status_columns_text = print_table columns_layout rows \<and> rows \<noteq> [] \<and> list_all printable_row rows \<and>
     map (\<lambda>row. (map_of row ''name'', map_of row ''type'')) rows =
     map (\<lambda>f. case f of Field n t nullable \<Rightarrow> (Some n, Some (sql_type t))) status_schema\<close>
  by (rule exI [where x =
    \<open>[[(''name'', ''debug_id''),
       (''type'', ''VARCHAR''),
       (''description'', ''Normalized debug-id cache key.'')],
      [(''name'', ''name''),
       (''type'', ''VARCHAR''),
       (''description'', ''Debug file name.'')],
      [(''name'', ''format''),
       (''type'', ''VARCHAR''),
       (''description'', ''Container format (ELF / MachO / PE / PDB / '' @
         ellipsis @
         '').'')],
      [(''name'', ''arch''),
       (''type'', ''VARCHAR''),
       (''description'', ''CPU architecture.'')],
      [(''name'', ''bytes_resident''),
       (''type'', ''BIGINT''),
       (''description'', ''Resident footprint in bytes (0 if evicted / manifest-only).'')],
      [(''name'', ''rows_resolved''),
       (''type'', ''BIGINT''),
       (''description'', ''Cumulative addresses resolved against this module.'')],
      [(''name'', ''last_used''),
       (''type'', ''TIMESTAMPTZ''),
       (''description'', ''Timestamp of last use, or NULL if never used.'')],
      [(''name'', ''origin''),
       (''type'', ''VARCHAR''),
       (''description'', ''Provenance the module is (re)parsed from (dir / glob / '' @
         ellipsis @
         ''), or NULL.'')],
      [(''name'', ''resident''),
       (''type'', ''BOOLEAN''),
       (''description'', ''True if the parsed module is currently resident in RAM.'')]]\<close>])
    (simp add: cache_status_columns_text_def status_schema_def print_text printable_row_def no_controls_def)

lemma evict_rows:
  \<open>\<exists>rows. cache_evict_columns_text = print_table columns_layout rows \<and> rows \<noteq> [] \<and> list_all printable_row rows \<and>
     map (\<lambda>row. (map_of row ''name'', map_of row ''type'')) rows =
     map (\<lambda>f. case f of Field n t nullable \<Rightarrow> (Some n, Some (sql_type t))) evict_schema\<close>
  by (rule exI [where x =
    \<open>[[(''name'', ''bytes_freed''),
       (''type'', ''BIGINT''),
       (''description'', ''Resident bytes reclaimed by the eviction (0 if the module was not resident, '' @
         ''or the cache was already empty).'')]]\<close>])
    (simp add: cache_evict_columns_text_def evict_schema_def print_text printable_row_def no_controls_def)

lemma add_source_rows:
  \<open>\<exists>rows. add_source_columns_text = print_table columns_layout rows \<and> rows \<noteq> [] \<and> list_all printable_row rows \<and>
     map (\<lambda>row. (map_of row ''name'', map_of row ''type'')) rows =
     map (\<lambda>f. case f of Field n t nullable \<Rightarrow> (Some n, Some (sql_type t))) add_source_schema\<close>
  by (rule exI [where x =
    \<open>[[(''name'', ''source_id''),
       (''type'', ''VARCHAR''),
       (''description'', ''The id assigned to the new source (e.g. src0). Pass it to drop_source to remove '' @
         ''it.'')]]\<close>])
    (simp add: add_source_columns_text_def add_source_schema_def print_text printable_row_def no_controls_def)

lemma sources_rows:
  \<open>\<exists>rows. sources_columns_text = print_table columns_layout rows \<and> rows \<noteq> [] \<and> list_all printable_row rows \<and>
     map (\<lambda>row. (map_of row ''name'', map_of row ''type'')) rows =
     map (\<lambda>f. case f of Field n t nullable \<Rightarrow> (Some n, Some (sql_type t))) sources_schema\<close>
  by (rule exI [where x =
    \<open>[[(''name'', ''source_id''),
       (''type'', ''VARCHAR''),
       (''description'', ''Opaque id from add_source.'')],
      [(''name'', ''kind''),
       (''type'', ''VARCHAR''),
       (''description'', ''Source kind: dir / glob / debuginfod / s3 / http.'')],
      [(''name'', ''location''),
       (''type'', ''VARCHAR''),
       (''description'', ''The source\'s locator: path / url / bucket.'')],
      [(''name'', ''enabled''),
       (''type'', ''BOOLEAN''),
       (''description'', ''True if the source is active.'')],
      [(''name'', ''egress''),
       (''type'', ''BOOLEAN''),
       (''description'', ''True if using the source crosses the trust boundary (remote).'')]]\<close>])
    (simp add: sources_columns_text_def sources_schema_def print_text printable_row_def no_controls_def)

lemma drop_source_rows:
  \<open>\<exists>rows. drop_source_columns_text = print_table columns_layout rows \<and> rows \<noteq> [] \<and> list_all printable_row rows \<and>
     map (\<lambda>row. (map_of row ''name'', map_of row ''type'')) rows =
     map (\<lambda>f. case f of Field n t nullable \<Rightarrow> (Some n, Some (sql_type t))) drop_source_schema\<close>
  by (rule exI [where x =
    \<open>[[(''name'', ''dropped''),
       (''type'', ''BOOLEAN''),
       (''description'', ''True if a source with that source_id existed and was removed; false if no such '' @
         ''source was registered.'')]]\<close>])
    (simp add: drop_source_columns_text_def drop_source_schema_def print_text printable_row_def no_controls_def)

text \<open>The tag is found behind the four object tags.\<close>

lemma described_tag:
  assumes "key \<notin> {''vgi.title'', ''vgi.doc_llm'', ''vgi.doc_md'', ''vgi.keywords''}"
  shows "map_of (fm_tags (described d r (object_tags a b c k @ rest))) key = map_of rest key"
  using assms by (simp add: described_def object_tags_def)

lemma documents_described:
  assumes "\<exists>rows. text = print_table columns_layout rows \<and> rows \<noteq> [] \<and> list_all printable_row rows \<and>
     map (\<lambda>row. (map_of row ''name'', map_of row ''type'')) rows =
     map (\<lambda>f. case f of Field n t nullable \<Rightarrow> (Some n, Some (sql_type t))) schema"
    and "map_of rest ''vgi.result_columns_schema'' = Some text"
  shows "documents (described d r (object_tags a b c k @ rest)) schema"
proof -
  from assms(1) obtain rows where rows: "text = print_table columns_layout rows" "rows \<noteq> []"
    "list_all printable_row rows" "map (\<lambda>row. (map_of row ''name'', map_of row ''type'')) rows =
     map (\<lambda>f. case f of Field n t nullable \<Rightarrow> (Some n, Some (sql_type t))) schema"
    by blast
  show ?thesis
    by (rule documentsI [OF _ rows]) (simp add: described_tag assms(2))
qed


end
