(* ===== verification/Catalog.thy ===== *)
theory Catalog
  imports Descriptions Signatures
begin

text \<open>
  \<^verbatim>\<open>crates/symbols-worker/src/catalog.rs\<close>: the catalog model the worker publishes, text for
  text. The comments of the source are left out, and so are the fields that stay empty
  (macros, tables and what \<^verbatim>\<open>Default\<close> fills in). The crate version is an argument: the build
  supplies it.
\<close>

record cat_view =
  vw_name :: str
  vw_definition :: str
  vw_comment :: "str option"
  vw_tags :: "(str \<times> str) list"
  vw_column_comments :: "(str \<times> str) list"

record cat_schema =
  sc_name :: str
  sc_path :: "str list"
  sc_comment :: "str option"
  sc_tags :: "(str \<times> str) list"
  sc_views :: "cat_view list"

record catalog_model =
  cg_name :: str
  cg_comment :: "str option"
  cg_tags :: "(str \<times> str) list"
  cg_source_url :: "str option"
  cg_implementation_version :: "str option"
  cg_schemas :: "cat_schema list"

definition REPO :: str where
  "REPO = ''https://github.com/Query-farm/vgi-symbols''"

definition agent_test_tasks :: str where
  \<open>agent_test_tasks =
     ''['' @
     newline @
     ''  {"name":"demangle_cpp_symbol","prompt":"Using the worker\'s demangle function, '' @
     ''turn the mangled Itanium C++ linkage name \'_ZN3foo3barEv\' into its readable name '' @
     ''(it should read \'foo::bar\'). Return only the single demangled string."},'' @
     newline @
     ''  {"name":"demangle_passthrough","prompt":"The demangle function returns any name '' @
     ''that is not actually mangled unchanged. Show what it returns for the plain name '' @
     ''\'main\'."},'' @
     newline @
     ''  {"name":"symbolicate_cold_status","prompt":"This worker has no symbol sources '' @
     ''registered yet, so nothing can be resolved. Symbolicate the frame with build_id '' @
     ''\'deadbeef\' and module-relative address 4096 and report just the resolution status '' @
     ''of the result (it will be \'not_found\' because no matching debug file is available)."},'' @
     newline @
     ''  {"name":"function_name_cold","prompt":"With no symbol sources registered, resolving '' @
     ''any address yields no name. Resolve the innermost function name for build_id \'deadbeef\' '' @
     ''at module-relative address 4096 '' @
     em_dash @
     '' the result should be NULL."},'' @
     newline @
     ''  {"name":"inline_frames_empty_cold","prompt":"The inline_frames function returns '' @
     ''just the inlined call chain (a list) at a frame. With no symbol sources registered, '' @
     ''the chain for build_id \'deadbeef\' at module-relative address 4096 is empty. Report '' @
     ''the length of that list (it should be 0)."},'' @
     newline @
     ''  {"name":"module_info_missing_path","prompt":"Use the module_info table function '' @
     ''to inspect the debug file at the path \'/no/such/file.debug\'. Because that path '' @
     ''does not exist, module_info returns no rows. Report how many rows it returns (it '' @
     ''should be 0)."},'' @
     newline @
     ''  {"name":"local_source_kinds","prompt":"The worker exposes a browsable reference '' @
     ''table of the symbol-source kinds add_source accepts. Using it, count how many source '' @
     ''kinds are local (they do not cross the trust boundary, i.e. egress is false). Return '' @
     ''the count."},'' @
     newline @
     ''  {"name":"sources_empty_cold","prompt":"How many symbol sources are currently '' @
     ''registered on this freshly attached worker? List them with the sources function '' @
     ''and return the count (it should be 0 until add_source is called)."},'' @
     newline @
     ''  {"name":"cache_status_queryable","prompt":"This worker keeps a persistent, build-id-keyed '' @
     ''debug-info cache. Using the cache_status table function, confirm the cache is queryable '' @
     ''and report how many debug modules are currently cached (it may well be zero on '' @
     ''a freshly attached worker)."},'' @
     newline @
     ''  {"name":"cache_evict_cold","prompt":"Clear the worker\'s entire resident debug-info '' @
     ''cache using cache_evict (with no argument) and report how many bytes were freed. '' @
     ''On a cold worker with nothing resident this is 0."},'' @
     newline @
     ''  {"name":"drop_absent_source","prompt":"Try to drop a symbol source whose id is '' @
     ''\'no_such_source\'. Since no source with that id was registered, report whether '' @
     ''one was actually removed (it should be false)."},'' @
     newline @
     ''  {"name":"register_dir_source","prompt":"Register a local, zero-egress directory '' @
     ''symbol source pointing at the directory \'/srv/debug\' so the worker can find debug '' @
     ''files there. Use the add_source function with the appropriate kind and locator '' @
     ''argument, then confirm a source is now registered."}'' @
     newline @
     '']''\<close>

definition categories_text :: str where
  \<open>categories_text =
     ''['' @
     newline @
     ''  {"name":"Resolution","description":"Turn module-relative (build_id, address) '' @
     ''frames into functions, source locations, and inline call chains '' @
     em_dash @
     '' one at a time or in bulk."},'' @
     newline @
     ''  {"name":"Demangling","description":"Turn raw mangled linkage names into readable '' @
     ''function names, independent of any module."},'' @
     newline @
     ''  {"name":"Modules","description":"Inspect a candidate debug file\'s identity and '' @
     ''capabilities without resolving or caching it."},'' @
     newline @
     ''  {"name":"Cache","description":"Observe and control the persistent, build-id-keyed '' @
     ''debug-info cache."},'' @
     newline @
     ''  {"name":"Sources","description":"Register, audit, and remove the symbol sources '' @
     ''debug files are drawn from."}'' @
     newline @
     '']''\<close>

definition schema_example_queries :: str where
  \<open>schema_example_queries =
     ''['' @
     newline @
     ''  {"description":"Register a local, zero-egress directory of debug files and capture '' @
     ''its source_id.","sql":"SELECT source_id FROM symbols.main.add_source(\'dir\', path '' @
     ''=> \'/srv/debug\')"},'' @
     newline @
     ''  {"description":"Symbolicate one module-relative frame to its function name and '' @
     ''resolution status.","sql":"SELECT (symbols.main.symbolicate(\'e4c1f2b9\', 303600)).function '' @
     ''AS function, (symbols.main.symbolicate(\'e4c1f2b9\', 303600)).status AS status"},'' @
     newline @
     ''  {"description":"Bulk-symbolicate a frame column: resolve each (build_id, address) '' @
     ''to its innermost function name for a flamegraph or GROUP BY key.","sql":"SELECT '' @
     ''f.build_id, f.address, symbols.main.function_name(f.build_id, f.address) AS function '' @
     ''FROM stack_frames f"},'' @
     newline @
     ''  {"description":"Demangle a raw Itanium C++ linkage name to its readable form.","sql":"SELECT '' @
     ''symbols.main.demangle(\'_ZN3foo3barEv\') AS name"},'' @
     newline @
     ''  {"description":"Triage a debug file by path, reading just its format and debug-id '' @
     ''(zero rows if the path is missing).","sql":"SELECT format, debug_id FROM symbols.main.module_info(\'/srv/debug/libssl.so.debug\')"},'' @
     newline @
     ''  {"description":"Watch the build-id-keyed cache: the hottest resident debug modules '' @
     ''first.","sql":"SELECT debug_id, name, bytes_resident FROM symbols.main.cache_status() '' @
     ''ORDER BY bytes_resident DESC"}'' @
     newline @
     '']''\<close>

definition source_kinds_sql :: str where
  \<open>source_kinds_sql =
     ''SELECT * FROM (VALUES (\'dir\', \'local\', false, \'path\', \'A local directory '' @
     ''of debug files, scanned for matching build-ids; zero egress.\'), (\'glob\', \'local\', '' @
     ''false, \'path\', \'A recursive filesystem glob of debug files, e.g. /builds/**/*.{debug,pdb,dSYM}; '' @
     ''zero egress.\'), (\'debuginfod\', \'remote\', true, \'url\', \'An elfutils debuginfod '' @
     ''server, queried by build-id; opt-in and disabled by default.\'), (\'s3\', \'remote\', '' @
     ''true, \'bucket\', \'An S3 bucket of debug files; opt-in, disabled by default, credentials '' @
     ''via a named secret.\'), (\'http\', \'remote\', true, \'url\', \'An HTTP(S) base '' @
     ''URL of debug files addressed by build-id; opt-in and disabled by default.\') ) '' @
     ''AS t(kind, locality, egress, locator_arg, description)''\<close>

definition view_example_queries :: str where
  \<open>view_example_queries =
     ''[{"description":"List the local, zero-egress source kinds and the add_source argument '' @
     ''that locates each.","sql":"SELECT kind, locator_arg FROM symbols.main.source_kinds '' @
     ''WHERE egress = false ORDER BY kind"},{"description":"Show every source kind with '' @
     ''whether registering it crosses the trust boundary.","sql":"SELECT kind, locality, '' @
     ''egress FROM symbols.main.source_kinds ORDER BY egress, kind"}]''\<close>

definition source_kinds_view :: cat_view where
  \<open>source_kinds_view =
     \<lparr>vw_name = ''source_kinds'',
      vw_definition = source_kinds_sql,
      vw_comment = Some
        (''Reference registry of the five symbol-source kinds add_source accepts, with '' @
         ''each kind\'s locality, egress posture, and locator argument.''),
      vw_tags =
       [(''vgi.title'', (''Symbol Source Kinds'')),
        (''vgi.category'', (''Sources'')),
        (''domain'', (''observability'')),
        (''vgi.keywords'', keywords_json (''source kinds, add_source, dir, glob, debuginfod, s3, http, egress, data residency, '' @
           ''locator, reference, vocabulary'')),
        (''vgi.doc_llm'', (''A static lookup table of the five symbol-source kinds the `add_source` function '' @
           ''accepts, so an agent can discover valid inputs before registering a source. '' @
           ''One row per kind with: `kind` (dir / glob / debuginfod / s3 / http), `locality` '' @
           ''(\'local\' for zero-egress filesystem sources, \'remote\' for opt-in network '' @
           ''sources), `egress` (true when using the kind crosses the trust boundary), '' @
           ''`locator_arg` (which `add_source` named argument locates it '' @
           em_dash @
           '' `path`, `url`, or `bucket`), and a one-line `description`. Filter `egress '' @
           ''= false` for the air-gap-safe local kinds, or read `locator_arg` to learn '' @
           ''which argument a given kind needs.'')),
        (''vgi.doc_md'', (''## `source_kinds`'' @
           newline @
           newline @
           ''A browsable, credential-free registry of the five symbol-source kinds `add_source` '' @
           ''accepts '' @
           em_dash @
           '' read it to discover valid inputs before registering a source.'' @
           newline @
           newline @
           ''Each row is one kind:'' @
           newline @
           newline @
           ''- **kind** '' @
           em_dash @
           '' `dir`, `glob`, `debuginfod`, `s3`, or `http`.'' @
           newline @
           ''- **locality** '' @
           em_dash @
           '' `local` (zero-egress filesystem) or `remote` (opt-in network).'' @
           newline @
           ''- **egress** '' @
           em_dash @
           '' true when using the kind crosses the trust boundary.'' @
           newline @
           ''- **locator_arg** '' @
           em_dash @
           '' the `add_source` named argument that locates it (`path` / `url` / `bucket`).'' @
           newline @
           ''- **description** '' @
           em_dash @
           '' a one-line explanation.'' @
           newline @
           newline @
           ''Filter `egress = false` for the local kinds, or read `locator_arg` to learn '' @
           ''which argument a kind needs.'')),
        (''vgi.example_queries'', view_example_queries)],
      vw_column_comments =
       [(''kind'', (''The source kind token passed as add_source\'s first argument: dir / glob '' @
           ''/ debuginfod / s3 / http.'')),
        (''locality'', (''\'local\' for zero-egress filesystem sources, \'remote\' for opt-in network '' @
           ''sources.'')),
        (''egress'', (''True when using the kind crosses the trust boundary (a remote source).'')),
        (''locator_arg'', (''The add_source named argument that locates the source: path, url, or bucket.'')),
        (''description'', (''A one-line explanation of the source kind.''))]\<rparr>\<close>

definition main_schema :: cat_schema where
  \<open>main_schema =
     \<lparr>sc_name = ''main'', sc_path = [],
      sc_comment = Some
        (''Symbolication functions: symbolicate frames, demangle names, inspect modules, '' @
         ''manage the debug-info cache and symbol sources.''),
      sc_tags =
       [(''vgi.title'', (''Symbols '' @
           em_dash @
           '' main'')),
        (''vgi.keywords'', keywords_json (''symbolicate, function_name, inline_frames, demangle, module_info, cache_status, '' @
           ''cache_evict, add_source, sources, drop_source, DWARF, PDB, build-id'')),
        (''domain'', (''observability'')),
        (''category'', (''symbolication'')),
        (''topic'', (''native-debug-info'')),
        (''vgi.categories'', categories_text),
        (''vgi.doc_llm'', (''The single schema for the `symbols` worker; the catalog name matches the '' @
           ''ATTACH name, so qualify calls as `symbols.main.<function>(...)`. It groups '' @
           ''the symbolication surface '' @
           em_dash @
           '' turning module-relative `(build_id, address)` frames into functions, source '' @
           ''locations, and inline call chains '' @
           em_dash @
           '' together with the persistent debug-info cache that backs it and the registry '' @
           ''of symbol sources it draws debug files from.'')),
        (''vgi.doc_md'', (''## `symbols.main`'' @
           newline @
           newline @
           ''Native symbolication as a SQL surface: turn module-relative `(build_id, address)` '' @
           ''frames into function names, source locations, and inlined call chains by '' @
           ''parsing DWARF and PDB debug info '' @
           em_dash @
           '' the way `addr2line` and `llvm-symbolizer` do, but as a JOIN.'' @
           newline @
           newline @
           ''Qualify calls as `symbols.main.<function>(...)` '' @
           em_dash @
           '' the catalog name matches the ATTACH name. Resolution is backed by a persistent, '' @
           ''build-id-keyed debug-info cache, so each module is parsed once and reused '' @
           ''across queries.'' @
           newline @
           newline @
           ''Debug files are drawn from registered **symbol sources**: local directories '' @
           ''are zero-egress, while remote sources are opt-in.'')),
        (''vgi.example_queries'', schema_example_queries)],
      sc_views = [source_kinds_view]\<rparr>\<close>

definition catalog_metadata :: "str \<Rightarrow> str \<Rightarrow> catalog_model" where
  \<open>catalog_metadata version name =
     \<lparr>cg_name = name,
      cg_comment = Some
        (''Native (DWARF/PDB) symbolication as a bulk SQL JOIN over (build_id, address) '' @
         ''frames, backed by a persistent build-id-keyed debug-info cache.''),
      cg_tags =
       [(''vgi.title'', (''Native Symbolication (DWARF / PDB)'')),
        (''vgi.keywords'', keywords_json (''symbolication, symbolicate, addr2line, llvm-symbolizer, DWARF, PDB, debug '' @
           ''info, build-id, debug-id, stack frame, inline frames, demangle, minidump, '' @
           ''pprof, perf, profiling, crash, DFIR, function name, source line, debuginfod, '' @
           ''symbol cache'')),
        (''vgi.doc_llm'', (''Resolve raw instruction addresses (return addresses captured in stack frames) '' @
           ''into function name + source file + line plus the inlined call chain, by parsing '' @
           ''native debug info (DWARF for ELF/Mach-O/dSYM, Windows PDB) '' @
           em_dash @
           '' exactly as addr2line / llvm-symbolizer do, but exposed as a bulk SQL JOIN '' @
           ''over a column of (build_id, address) frames and backed by a persistent, build-id-keyed '' @
           ''debug-info cache so each debug module is parsed once even across millions '' @
           ''of frames. Reach for it to turn stack traces, CPU/heap profiles, and crash '' @
           ''dumps (minidump / pprof / perf) into human-readable functions and source '' @
           ''locations in-engine, without shelling out to addr2line per frame. Key concepts: '' @
           ''addresses are MODULE-RELATIVE (the caller subtracts the load base before '' @
           ''querying); a debug module is keyed by its normalized build-id / debug-id, '' @
           ''so the same symbols serve every frame from that module; local symbol sources '' @
           ''are zero-egress while remote ones (debuginfod / s3 / http) are opt-in and '' @
           ''disabled by default; and resolution is total '' @
           em_dash @
           '' an unresolved address or a malformed, untrusted debug file yields a per-row '' @
           ''status, never a panic or a dropped row.'')),
        (''vgi.doc_md'', (''# symbols'' @
           newline @
           newline @
           ''Native **symbolication** as a SQL JOIN: turn a column of `(build_id, address)` '' @
           ''stack frames into `function` + `file` + `line` plus the **inlined call chain**, '' @
           ''by parsing DWARF (ELF / Mach-O / dSYM) and Windows PDB '' @
           em_dash @
           '' the same resolution as `addr2line` / `llvm-symbolizer`, but over millions '' @
           ''of frames in-engine and backed by a **persistent, build-id-keyed debug-info '' @
           ''cache** so each debug module is parsed exactly once.'' @
           newline @
           newline @
           ''Reach for it to make stack traces, CPU/heap profiles, and crash dumps readable '' @
           ''directly in SQL. Addresses are **module-relative** (the caller subtracts '' @
           ''the load base); local symbol sources are zero-egress while remote ones (`debuginfod` '' @
           ''/ `s3` / `http`) are opt-in and off by default; and resolution is total '' @
           em_dash @
           '' a missing or malformed module yields a per-row status, never a dropped row. '' @
           ''The upstream feeders are `vgi-minidump`, `vgi-pprof`, and `vgi-perf`.'')),
        (''vgi.agent_test_tasks'', agent_test_tasks),
        (''vgi.author'', (''Query.Farm'')),
        (''vgi.copyright'', (''Copyright 2026 Query Farm LLC - https://query.farm'')),
        (''vgi.license'', (''MIT'')),
        (''vgi.support_contact'', REPO @ ''/issues''),
        (''vgi.support_policy_url'', REPO @ ''/blob/main/README.md'')],
      cg_source_url = Some REPO,
      cg_implementation_version = Some version,
      cg_schemas = [main_schema]\<rparr>\<close>

section \<open>Categories\<close>

definition categories_layout :: json_layout where
  "categories_layout = \<lparr>jl_before = newline @ ''  '', jl_comma = [], jl_colon = [], jl_end = newline\<rparr>"

lemma categories_layout_blank: "blank_layout categories_layout"
  by (simp add: blank_layout_def categories_layout_def special_chars json_blank_def)

lemma categories_rows:
  \<open>\<exists>rows. categories_text = print_table categories_layout rows \<and> rows \<noteq> [] \<and> list_all printable_row rows \<and>
     map (\<lambda>row. map_of row ''name'') rows =
       map Some [''Resolution'', ''Demangling'', ''Modules'', ''Cache'', ''Sources'']\<close>
  by (rule exI [where x =
    \<open>[[(''name'', ''Resolution''),
       (''description'', ''Turn module-relative (build_id, address) frames into functions, source locations, '' @
         ''and inline call chains '' @
         em_dash @
         '' one at a time or in bulk.'')],
      [(''name'', ''Demangling''),
       (''description'', ''Turn raw mangled linkage names into readable function names, independent of '' @
         ''any module.'')],
      [(''name'', ''Modules''),
       (''description'', ''Inspect a candidate debug file\'s identity and capabilities without resolving '' @
         ''or caching it.'')],
      [(''name'', ''Cache''),
       (''description'', ''Observe and control the persistent, build-id-keyed debug-info cache.'')],
      [(''name'', ''Sources''),
       (''description'', ''Register, audit, and remove the symbol sources debug files are drawn from.'')]]\<close>])
    (simp add: categories_text_def print_text categories_layout_def printable_row_def no_controls_def)

section \<open>The view of source kinds\<close>

text \<open>
  The rows of the literal \<^verbatim>\<open>VALUES\<close> list: kind, locality, whether it crosses the trust boundary,
  the argument that locates it, and a description; and the text of the query made of them.
\<close>

type_synonym kind_row = "str \<times> str \<times> bool \<times> str \<times> str"

definition source_kinds :: "kind_row list" where
  \<open>source_kinds =
     [(''dir'', ''local'', False, ''path'',
        ''A local directory of debug files, scanned for matching build-ids; zero egress.''),
      (''glob'', ''local'', False, ''path'',
        ''A recursive filesystem glob of debug files, e.g. /builds/**/*.{debug,pdb,dSYM}; '' @
        ''zero egress.''),
      (''debuginfod'', ''remote'', True, ''url'',
        ''An elfutils debuginfod server, queried by build-id; opt-in and disabled by default.''),
      (''s3'', ''remote'', True, ''bucket'',
        ''An S3 bucket of debug files; opt-in, disabled by default, credentials via a '' @
        ''named secret.''),
      (''http'', ''remote'', True, ''url'',
        ''An HTTP(S) base URL of debug files addressed by build-id; opt-in and disabled '' @
        ''by default.'')]\<close>

definition sql_string :: "str \<Rightarrow> str" where
  "sql_string s = CHR 0x27 # s @ [CHR 0x27]"

definition sql_row :: "kind_row \<Rightarrow> str" where
  "sql_row row =
     (case row of (kind, locality, egress, locator, description) \<Rightarrow>
        ''('' @ sql_string kind @ '', '' @ sql_string locality @ '', '' @
        (if egress then ''true'' else ''false'') @ '', '' @ sql_string locator @ '', '' @
        sql_string description @ '')'')"

fun sql_rows :: "kind_row list \<Rightarrow> str" where
  "sql_rows [] = []"
| "sql_rows [row] = sql_row row"
| "sql_rows (row # next_row # rows) = sql_row row @ '', '' @ sql_rows (next_row # rows)"

lemma source_kinds_sql_rows:
  "source_kinds_sql =
     ''SELECT * FROM (VALUES '' @ sql_rows source_kinds @
     '' ) AS t(kind, locality, egress, locator_arg, description)''"
  by (simp add: source_kinds_sql_def source_kinds_def sql_row_def sql_string_def)

end
