(* ===== verification/Sessions.thy ===== *)
theory Sessions
  imports Signatures State_Spec
begin

text \<open>
  The worker as its client sees it: one step per call of a function of SQL, from the arguments
  and the shared state (\<^verbatim>\<open>with_state\<close>) to the batches of the reply and the next state, and the
  sessions, which are the sequences of calls and replies from the start of the process.
\<close>

section \<open>Calls and replies\<close>

text \<open>
  A call with what the SDK hands over: the input columns with the number of rows for a scalar
  function (and the readings of the wall clock, row by row), the arguments for the others.
\<close>

datatype sql_call =
    CallSymbolicate "nat \<Rightarrow> nat \<Rightarrow> u64" column column nat
  | CallFunctionName "nat \<Rightarrow> nat \<Rightarrow> u64" column column nat
  | CallInlineFrames "nat \<Rightarrow> nat \<Rightarrow> u64" column column nat
  | CallDemangle bool vgi_args column nat
  | CallModuleInfoBlob vgi_args
  | CallModuleInfoPath vgi_args
  | CallCacheStatus vgi_args
  | CallCacheEvict vgi_args
  | CallAddSource vgi_args
  | CallSources vgi_args
  | CallDropSource vgi_args

text \<open>
  A reply is the batches, an error, or a panic that unwound out of the call (the lock is
  recovered from poisoning, so the state stays in use). \<open>Endless\<close> is a producer that still
  emits after the number of polls the model makes.
\<close>

datatype 'b reply = Batches "'b list" | Refused rpc_error | Unwound | Endless

definition scalar_reply :: "(rpc_error + 'b) outcome \<Rightarrow> 'b reply" where
  "scalar_reply r =
     (case r of
        Panicked \<Rightarrow> Unwound
      | Returned (Inl e) \<Rightarrow> Refused e
      | Returned (Inr b) \<Rightarrow> Batches [b])"

text \<open>The SDK asks a producer for batches until there are no more.\<close>

fun drain :: "nat \<Rightarrow> ('p \<Rightarrow> 'b batch_result \<times> 'p) \<Rightarrow> 'p \<Rightarrow> (rpc_error + 'b list) option" where
  "drain 0 next_batch p = None"
| "drain (Suc n) next_batch p =
     (case next_batch p of
        (Inl e, _) \<Rightarrow> Some (Inl e)
      | (Inr None, _) \<Rightarrow> Some (Inr [])
      | (Inr (Some b), p') \<Rightarrow> map_option (map_sum id ((#) b)) (drain n next_batch p'))"

definition table_reply :: "('p \<Rightarrow> 'b batch_result \<times> 'p) \<Rightarrow> 'p \<Rightarrow> 'b reply" where
  "table_reply next_batch p =
     (case drain 2 next_batch p of
        None \<Rightarrow> Endless
      | Some (Inl e) \<Rightarrow> Refused e
      | Some (Inr bs) \<Rightarrow> Batches bs)"

section \<open>One call\<close>

text \<open>The output schema of a call, \<open>n\<close> being the name the SDK gives the result of a scalar.\<close>

fun call_schema :: "str \<Rightarrow> sql_call \<Rightarrow> field list" where
  "call_schema n (CallSymbolicate _ _ _ _) = [Field n symbolicate_bind True]"
| "call_schema n (CallFunctionName _ _ _ _) = [Field n function_name_bind True]"
| "call_schema n (CallInlineFrames _ _ _ _) = [Field n inline_frames_bind True]"
| "call_schema n (CallDemangle _ _ _ _) = [Field n demangle_bind True]"
| "call_schema n (CallModuleInfoBlob _) = info_schema"
| "call_schema n (CallModuleInfoPath _) = info_schema"
| "call_schema n (CallCacheStatus _) = status_schema"
| "call_schema n (CallCacheEvict _) = evict_schema"
| "call_schema n (CallAddSource _) = add_source_schema"
| "call_schema n (CallSources _) = sources_schema"
| "call_schema n (CallDropSource _) = drop_source_schema"

definition map_reply :: "'b arrow \<Rightarrow> str \<Rightarrow> sql_call
    \<Rightarrow> ('b arrow \<Rightarrow> field list \<Rightarrow> 'v option \<Rightarrow> 'b batch_result \<times> 'v option)
    \<Rightarrow> rpc_error + 'v \<Rightarrow> 'b reply" where
  "map_reply A n c next_batch r =
     (case r of
        Inl e \<Rightarrow> Refused e
      | Inr v \<Rightarrow> table_reply (next_batch A (call_schema n c)) (Some v))"

definition info_reply :: "'b arrow \<Rightarrow> str \<Rightarrow> sql_call \<Rightarrow> rpc_error + info_producer \<Rightarrow> 'b reply" where
  "info_reply A n c r =
     (case r of
        Inl e \<Rightarrow> Refused e
      | Inr p \<Rightarrow> table_reply (info_batch A (call_schema n c)) p)"

fun worker_call ::
  "'b arrow \<Rightarrow> str \<Rightarrow> 'c lru \<Rightarrow> crates \<Rightarrow> world \<Rightarrow> sql_call \<Rightarrow> 'c symbols_state
     \<Rightarrow> 'b reply \<times> 'c symbols_state" where
  "worker_call A n L K W (CallSymbolicate clock build addr rows) st =
     map_prod scalar_reply id (symbolicate_process A L K W clock
       (call_schema n (CallSymbolicate clock build addr rows)) build addr rows st)"
| "worker_call A n L K W (CallFunctionName clock build addr rows) st =
     map_prod scalar_reply id (function_name_process A L K W clock
       (call_schema n (CallFunctionName clock build addr rows)) build addr rows st)"
| "worker_call A n L K W (CallInlineFrames clock build addr rows) st =
     map_prod scalar_reply id (inline_frames_process A L K W clock
       (call_schema n (CallInlineFrames clock build addr rows)) build addr rows st)"
| "worker_call A n L K W (CallDemangle with_lang args col rows) st =
     (scalar_reply (Returned (demangle_process A K with_lang args
       (call_schema n (CallDemangle with_lang args col rows)) col rows)), st)"
| "worker_call A n L K W (CallModuleInfoBlob args) st =
     (info_reply A n (CallModuleInfoBlob args) (module_info_blob_producer K args st), st)"
| "worker_call A n L K W (CallModuleInfoPath args) st =
     (info_reply A n (CallModuleInfoPath args) (module_info_path_producer K W args st), st)"
| "worker_call A n L K W (CallCacheStatus args) st =
     (map_reply A n (CallCacheStatus args) status_batch (Inr (cache_status_producer L args st)), st)"
| "worker_call A n L K W (CallCacheEvict args) st =
     map_prod (\<lambda>freed. map_reply A n (CallCacheEvict args) one_i64_batch (Inr freed)) id
       (cache_evict_producer L args st)"
| "worker_call A n L K W (CallAddSource args) st =
     map_prod (map_reply A n (CallAddSource args) one_string_batch) id (add_source_producer args st)"
| "worker_call A n L K W (CallSources args) st =
     (map_reply A n (CallSources args) sources_batch (Inr (sources_producer args st)), st)"
| "worker_call A n L K W (CallDropSource args) st =
     map_prod (map_reply A n (CallDropSource args) one_bool_batch) id (drop_source_producer args st)"

section \<open>Sessions\<close>

type_synonym 'b call_trace = "(sql_call \<times> 'b reply) list"

inductive session ::
  "'b arrow \<Rightarrow> str \<Rightarrow> 'c lru \<Rightarrow> crates \<Rightarrow> world \<Rightarrow> 'b call_trace \<Rightarrow> 'c symbols_state \<Rightarrow> bool"
  for A n L K W where
  start: "session A n L K W [] (state_new L)"
| call: "session A n L K W tr st \<Longrightarrow> worker_call A n L K W c st = (r, st') \<Longrightarrow>
    session A n L K W (tr @ [(c, r)]) st'"

inductive_cases session_snocE: "session A n L K W (tr @ [e]) st"
inductive_simps session_Nil [simp]: "session A n L K W [] st"

text \<open>
  The interface of a fact about sessions: a relation between the calls made so far and the
  state that holds at the start and that every call keeps.
\<close>

locale session_invariant =
  fixes A :: "'b arrow" and n :: str and L :: "('c, resident) lru_api" and K :: crates
    and W :: world and J :: "'b call_trace \<Rightarrow> 'c symbols_state \<Rightarrow> bool"
  assumes J_start: "J [] (state_new L)"
    and J_call: "J tr st \<Longrightarrow> worker_call A n L K W c st = (r, st') \<Longrightarrow> J (tr @ [(c, r)]) st'"
begin

lemma session_keeps: "session A n L K W tr st \<Longrightarrow> J tr st"
  by (induction rule: session.induct) (auto intro: J_start J_call)

end

section \<open>The state after a call\<close>

text \<open>Only two functions change the sources, and only \<^verbatim>\<open>add_source\<close> moves the counter of ids.\<close>

definition registered_sources :: "'c symbols_state \<Rightarrow> source_spec list \<times> u64" where
  "registered_sources st = (rg_sources (st_sources st), rg_next_id (st_sources st))"

lemma ensure_resident_registered:
  "registered_sources (snd (ensure_resident L K W now token st)) = registered_sources st"
proof -
  have "rg_sources rg = rg_sources (st_sources st) \<and> rg_next_id rg = rg_next_id (st_sources st)"
    if "locate W K token (st_sources st) = (rg, x)" for rg x
    using locate_registry [of W K token "st_sources st"] that by simp
  then show ?thesis
    by (cases rule: ensure_resident_cases [of L st token K W now])
      (auto simp: registered_sources_def)
qed

lemma state_resolve_registered:
  "registered_sources (snd (state_resolve L K W clock token addr st)) = registered_sources st"
proof -
  obtain r0 c0 where c0: "cache_resolve L K (clock 0) token addr (st_limits st) (st_cache st) = (r0, c0)"
    by (cases "cache_resolve L K (clock 0) token addr (st_limits st) (st_cache st)")
  obtain o1 st1 where e: "ensure_resident L K W (clock 0) token (st\<lparr>st_cache := c0\<rparr>) = (o1, st1)"
    by (cases "ensure_resident L K W (clock 0) token (st\<lparr>st_cache := c0\<rparr>)")
  have "registered_sources st1 = registered_sources st"
    using ensure_resident_registered [of L K W "clock 0" token "st\<lparr>st_cache := c0\<rparr>"] e
    by (simp add: registered_sources_def)
  with c0 e show ?thesis
    by (auto simp: state_resolve_def registered_sources_def
        split: option.splits outcome.splits sum.splits bool.splits prod.splits)
qed

lemma state_function_name_registered:
  "registered_sources (snd (state_function_name L K W clock token addr st)) = registered_sources st"
proof -
  obtain r0 c0 where c0: "cache_function_name L K (clock 0) token addr (st_cache st) = (r0, c0)"
    by (cases "cache_function_name L K (clock 0) token addr (st_cache st)")
  obtain o1 st1 where e: "ensure_resident L K W (clock 0) token (st\<lparr>st_cache := c0\<rparr>) = (o1, st1)"
    by (cases "ensure_resident L K W (clock 0) token (st\<lparr>st_cache := c0\<rparr>)")
  have "registered_sources st1 = registered_sources st"
    using ensure_resident_registered [of L K W "clock 0" token "st\<lparr>st_cache := c0\<rparr>"] e
    by (simp add: registered_sources_def)
  with c0 e show ?thesis
    by (auto simp: state_function_name_def registered_sources_def
        split: option.splits outcome.splits sum.splits bool.splits prod.splits)
qed

lemma row_frames_registered:
  "registered_sources (snd (row_frames L K W clock cells st)) = registered_sources st"
  using state_resolve_registered by (auto simp: row_frames_def split: prod.splits option.splits)

lemma row_functions_registered:
  "registered_sources (snd (symbolicate L K W clk build addr rows st)) = registered_sources st"
  "registered_sources (snd (inline_frames L K W clk build addr rows st)) = registered_sources st"
  "registered_sources (snd (function_name_column L K W clk build addr rows st)) = registered_sources st"
  unfolding symbolicate_def inline_frames_def function_name_column_def
  by (rule for_rows_state [where P = "\<lambda>s. registered_sources s = registered_sources st"];
      (simp add: map_fst_outcome_def row_frames_registered
        | auto simp: row_function_name_def state_function_name_registered split: prod.splits option.splits))+

text \<open>A row function panics only in a lookup, and so in the indexing of a registered source.\<close>

definition source_panics :: "world \<Rightarrow> crates \<Rightarrow> 'c symbols_state \<Rightarrow> bool" where
  "source_panics W K st \<longleftrightarrow> (\<exists>s\<in>set (rg_sources (st_sources st)). indexing_panics W K s)"

lemma source_panics_registered:
  "registered_sources st = registered_sources st' \<Longrightarrow> source_panics W K st = source_panics W K st'"
  by (simp add: source_panics_def registered_sources_def)

lemma ensure_resident_panics:
  assumes "fst (ensure_resident L K W now token st) = Panicked"
  shows "source_panics W K st"
proof -
  have "snd (locate W K token (st_sources st)) = Panicked"
    using assms
    by (auto simp: ensure_resident_def split: if_splits prod.splits outcome.splits option.splits sum.splits)
  from locate_panics [OF this] show ?thesis by (simp add: source_panics_def)
qed

lemma state_resolve_panics:
  "fst (state_resolve L K W clock token addr st) = Panicked \<Longrightarrow> source_panics W K st"
  "fst (state_function_name L K W clock token addr st) = Panicked \<Longrightarrow> source_panics W K st"
proof -
  have ensure: "source_panics W K st"
    if "ensure_resident L K W now token (st\<lparr>st_cache := c\<rparr>) = (Panicked, st1)" for now c st1
    using ensure_resident_panics [of L K W now token "st\<lparr>st_cache := c\<rparr>"] that
    by (simp add: source_panics_def)
  show "fst (state_resolve L K W clock token addr st) = Panicked \<Longrightarrow> source_panics W K st"
    by (auto simp: state_resolve_def split: prod.splits option.splits outcome.splits sum.splits
        bool.splits dest: ensure)
  show "fst (state_function_name L K W clock token addr st) = Panicked \<Longrightarrow> source_panics W K st"
    by (auto simp: state_function_name_def split: prod.splits option.splits outcome.splits sum.splits
        bool.splits dest: ensure)
qed

lemma frame_rows_panic:
  fixes st :: "'c symbols_state"
  assumes "fst (for_rows (\<lambda>i cells st. map_fst_outcome g (row_frames L K W (clk i) cells st)) i xs st) = Panicked"
  shows "source_panics W K st"
proof (rule for_rows_panics [OF assms, where P = "\<lambda>s. registered_sources s = registered_sources st"])
  fix i cells and s :: "'c symbols_state"
  assume same: "registered_sources s = registered_sources st"
  then show "registered_sources (snd (map_fst_outcome g (row_frames L K W (clk i) cells s))) =
      registered_sources st"
    by (simp add: map_fst_outcome_def row_frames_registered)
  assume "fst (map_fst_outcome g (row_frames L K W (clk i) cells s)) = Panicked"
  then have "source_panics W K s"
    by (auto simp: map_fst_outcome_def row_frames_def obind_Panicked_iff state_resolve_panics
        split: prod.splits option.splits)
  with source_panics_registered [OF same] show "source_panics W K st" by blast
qed simp

lemma name_rows_panic:
  fixes st :: "'c symbols_state"
  assumes "fst (for_rows (\<lambda>i. row_function_name L K W (clk i)) i xs st) = Panicked"
  shows "source_panics W K st"
proof (rule for_rows_panics [OF assms, where P = "\<lambda>s. registered_sources s = registered_sources st"])
  fix i cells and s :: "'c symbols_state"
  assume same: "registered_sources s = registered_sources st"
  then show "registered_sources (snd (row_function_name L K W (clk i) cells s)) = registered_sources st"
    by (auto simp: row_function_name_def state_function_name_registered split: prod.splits option.splits)
  assume "fst (row_function_name L K W (clk i) cells s) = Panicked"
  then have "source_panics W K s"
    by (auto simp: row_function_name_def state_resolve_panics split: prod.splits option.splits)
  with source_panics_registered [OF same] show "source_panics W K st" by blast
qed simp

lemma row_functions_panic:
  "fst (symbolicate L K W clk build addr rows st) = Panicked \<Longrightarrow> source_panics W K st"
  "fst (inline_frames L K W clk build addr rows st) = Panicked \<Longrightarrow> source_panics W K st"
  "fst (function_name_column L K W clk build addr rows st) = Panicked \<Longrightarrow> source_panics W K st"
  unfolding symbolicate_def inline_frames_def function_name_column_def
  by (rule frame_rows_panic name_rows_panic, assumption)+

lemma process_registered:
  "registered_sources (snd (symbolicate_process A L K W clk fs build addr rows st)) = registered_sources st"
  "registered_sources (snd (inline_frames_process A L K W clk fs build addr rows st)) = registered_sources st"
  "registered_sources (snd (function_name_process A L K W clk fs build addr rows st)) = registered_sources st"
  by (simp_all add: symbolicate_process_def inline_frames_process_def function_name_process_def
      map_fst_outcome_def row_functions_registered case_prod_beta)

lemma evict_registered:
  "registered_sources (snd (cache_evict_producer L args st)) = registered_sources st"
  by (simp add: cache_evict_producer_def state_cache_evict_def registered_sources_def case_prod_beta)

lemma worker_call_registered:
  assumes "\<nexists>args. c = CallAddSource args" "\<nexists>args. c = CallDropSource args"
  shows "registered_sources (snd (worker_call A n L K W c st)) = registered_sources st"
  using assms by (cases c) (simp_all add: process_registered evict_registered)

text \<open>The specification that \<^verbatim>\<open>add_source\<close> appends.\<close>

definition new_source :: "vgi_args \<Rightarrow> str \<Rightarrow> u64 \<Rightarrow> source_spec" where
  "new_source args kind0 k =
     (let kind = lowercase (trim kind0);
          egress = kind \<in> {''debuginfod'', ''s3'', ''http''}
      in \<lparr>ss_source_id = ''src'' @ show_u64 k, ss_kind = kind, ss_path = va_named_str args ''path'',
          ss_url = va_named_str args ''url'', ss_bucket = va_named_str args ''bucket'',
          ss_enabled = (case va_named_bool args ''enabled'' of Some b \<Rightarrow> b | None \<Rightarrow> \<not> egress),
          ss_egress = egress, ss_secret = va_named_str args ''secret''\<rparr>)"

lemma add_source_cases:
  obtains (refused) e where "add_source_producer args st = (Inl (ValueError e), st)"
  | (added) kind where "va_const_str args 0 = Some kind"
      "add_source_producer args st = (Inr (''src'' @ show_u64 (rg_next_id (st_sources st))),
         st\<lparr>st_sources := st_sources st\<lparr>rg_next_id := rg_next_id (st_sources st) + 1,
              rg_sources := rg_sources (st_sources st) @
                [new_source args kind (rg_next_id (st_sources st))]\<rparr>\<rparr>)"
proof (cases "va_const_str args 0")
  case None
  then show thesis by (intro refused) (simp add: add_source_producer_def)
next
  case kind: (Some kind)
  show thesis
  proof (cases "add_error (lowercase (trim kind)) (va_named_str args ''path'')
      (va_named_str args ''url'') (va_named_str args ''bucket'')")
    case None
    with kind show thesis
      by (intro added)
        (simp_all add: add_source_producer_def state_add_source_def registry_add_def new_source_def Let_def)
  next
    case (Some e)
    with kind show thesis
      by (intro refused) (simp add: add_source_producer_def state_add_source_def registry_add_def Let_def)
  qed
qed

lemma add_source_state:
  "snd (add_source_producer args st) = (case va_const_str args 0 of None \<Rightarrow> st
     | Some kind \<Rightarrow> state_step L K W (OpAddSource kind (va_named_str args ''path'')
         (va_named_str args ''url'') (va_named_str args ''bucket'') (va_named_bool args ''enabled'')
         (va_named_str args ''secret'')) st)"
  by (auto simp: add_source_producer_def split: option.split prod.split sum.split)

lemma drop_source_state:
  "snd (drop_source_producer args st) = (case va_const_str args 0 of None \<Rightarrow> st
     | Some i \<Rightarrow> state_step L K W (OpDropSource i) st)"
  by (simp add: drop_source_producer_def case_prod_beta split: option.split)

lemma cache_evict_state:
  "snd (cache_evict_producer L args st) = state_step L K W (OpEvict (va_const_str args 0)) st"
  by (simp add: cache_evict_producer_def)

section \<open>Every call keeps the invariant\<close>

context resident_lru
begin

lemma worker_call_inv:
  assumes "state_inv L W K st" "rg_next_id (st_sources st) \<noteq> - 1"
  shows "state_inv L W K (snd (worker_call A n L K W c st))"
proof -
  have step: "state_inv L W K (state_step L K W oper st)" if "\<nexists>m. oper = OpImport m" for oper
    using state_step_inv [OF assms(1), of oper] assms(2) that by (cases oper) simp_all
  show ?thesis
    using assms(1)
    by (cases c)
      (simp_all add: symbolicate_process_def inline_frames_process_def
        function_name_process_def map_fst_outcome_def case_prod_beta symbolicate_inv inline_frames_inv
        function_name_column_inv step add_source_state [where L = L and K = K and W = W]
        drop_source_state [where L = L and K = K and W = W]
        cache_evict_state [where K = K and W = W]
        del: state_step.simps split: option.split)
qed

end

section \<open>Every call is served\<close>

fun call_rows :: "sql_call \<Rightarrow> nat option" where
  "call_rows (CallSymbolicate _ _ _ rows) = Some rows"
| "call_rows (CallFunctionName _ _ _ rows) = Some rows"
| "call_rows (CallInlineFrames _ _ _ rows) = Some rows"
| "call_rows (CallDemangle _ _ _ rows) = Some rows"
| "call_rows (CallCacheEvict _) = Some 1"
| "call_rows (CallAddSource _) = Some 1"
| "call_rows (CallDropSource _) = Some 1"
| "call_rows _ = None"

text \<open>The functions that validate their arguments, and may refuse a call.\<close>

fun validates :: "sql_call \<Rightarrow> bool" where
  "validates (CallDemangle _ _ _ _) = True"
| "validates (CallModuleInfoBlob _) = True"
| "validates (CallModuleInfoPath _) = True"
| "validates (CallAddSource _) = True"
| "validates (CallDropSource _) = True"
| "validates _ = False"

text \<open>
  What a client may rely on: one batch under the output schema of the function, with the
  number of rows that its kind prescribes, or the refusal of bad arguments, and nothing else.
\<close>

definition served :: "'b arrow \<Rightarrow> str \<Rightarrow> sql_call \<Rightarrow> 'b reply \<Rightarrow> bool" where
  "served A n c r \<longleftrightarrow>
     (case r of
        Batches bs \<Rightarrow> (\<exists>b rows. bs = [b] \<and> conforming (call_schema n c) (aw_columns A b) rows \<and>
          (case call_rows c of Some k \<Rightarrow> rows = k | None \<Rightarrow> True))
      | Refused e \<Rightarrow> validates c \<and> (\<exists>m. e = ValueError m \<or> e = TypeError m)
      | _ \<Rightarrow> False)"

lemma drain_once:
  assumes "next_batch p = (Inr (Some b), p')" "next_batch p' = (Inr None, p'')"
  shows "table_reply next_batch p = Batches [b]"
  using assms by (simp add: table_reply_def numeral_2_eq_2)

lemma map_reply_served:
  assumes "arrow_documented A" "next_batch A = (\<lambda>schema. emit_batch A schema cols)"
    and "conforming (call_schema n c) (cols v) rows"
    and "case call_rows c of Some k \<Rightarrow> rows = k | None \<Rightarrow> True"
  shows "\<exists>b. map_reply A n c next_batch (Inr v) = Batches [b] \<and> aw_columns A b = cols v"
    "served A n c (map_reply A n c next_batch (Inr v))"
proof -
  obtain b where b: "emit_batch A (call_schema n c) cols (Some v) = (Inr (Some b), None)"
    "aw_columns A b = cols v"
    using emit_batch_once [where cols = cols and v = v, OF assms(1,3)] by blast
  have r: "map_reply A n c next_batch (Inr v) = Batches [b]"
    unfolding map_reply_def sum.case assms(2)
    by (rule drain_once, rule b(1)) (simp add: emit_batch_def)
  with b(2) show "\<exists>b. map_reply A n c next_batch (Inr v) = Batches [b] \<and> aw_columns A b = cols v"
    by blast
  show "served A n c (map_reply A n c next_batch (Inr v))"
    using assms(3,4) b(2) by (auto simp: r served_def)
qed

lemma info_reply_served:
  assumes "arrow_documented A" "call_schema n c = info_schema" "call_rows c = None" "validates c"
    and "\<And>e. p = Inl e \<Longrightarrow> \<exists>m. e = ValueError m" "\<And>q. p = Inr q \<Longrightarrow> \<not> ip_done q"
  shows "served A n c (info_reply A n c p)"
proof (cases p)
  case (Inl e)
  with assms(4,5) show ?thesis by (auto simp: info_reply_def served_def)
next
  case (Inr q)
  with assms(6) have q: "q = \<lparr>ip_info = ip_info q, ip_done = False\<rparr>" by simp
  obtain b where b: "info_batch A info_schema q =
      (Inr (Some b), \<lparr>ip_info = ip_info q, ip_done = True\<rparr>)" "aw_columns A b = info_columns (ip_info q)"
    using info_batch_once [OF assms(1), of "ip_info q"] q by metis
  have "info_reply A n c p = Batches [b]"
    unfolding info_reply_def Inr sum.case assms(2)
    by (rule drain_once, rule b(1)) (simp add: info_batch_def)
  with b(2) info_conform [of "ip_info q"] assms(2,3) show ?thesis by (auto simp: served_def)
qed

lemma scalar_served:
  assumes "arrow_documented A" "column_fits rows (Field n t True) col" "call_schema n c = [Field n t True]"
    and "call_rows c = Some rows"
  shows "served A n c (scalar_reply (Returned (try_new A (call_schema n c) [col])))"
  using process_batch [OF assms(1,2)] assms
  by (auto simp: scalar_reply_def served_def arrow_simps)

lemma demangle_served:
  assumes "arrow_documented A"
  shows "served A n (CallDemangle with_lang args col rows)
    (fst (worker_call A n L K W (CallDemangle with_lang args col rows) st))"
proof (cases "demangle_column K with_lang args col rows")
  case (Inl e)
  then have "\<exists>m. e = ValueError m \<or> e = TypeError m"
    by (auto simp: demangle_column_def string_col_def Let_def split: if_splits sum.splits column.splits)
  with Inl show ?thesis by (simp add: demangle_process_def scalar_reply_def served_def)
next
  case (Inr names)
  then have "length names = rows"
    by (auto simp: demangle_column_def Let_def split: if_splits sum.splits)
  then have "column_fits rows (Field n demangle_bind True) (DUtf8, map (opt_cell StrCell) names)"
    by (simp add: demangle_bind_def list_all_iff arrow_simps)
  from scalar_served [OF assms this, of "CallDemangle with_lang args col rows"] Inr show ?thesis
    by (simp add: demangle_process_def)
qed

section \<open>Sources over a session\<close>

text \<open>The single string of a one-row reply.\<close>

definition reply_id :: "'b arrow \<Rightarrow> 'b reply \<Rightarrow> str option" where
  "reply_id A r =
     (case r of
        Batches [b] \<Rightarrow> (case aw_columns A b of [(_, [StrCell i])] \<Rightarrow> Some i | _ \<Rightarrow> None)
      | _ \<Rightarrow> None)"

text \<open>
  The abstract registry is a list of ids, read off the trace: a reply to \<^verbatim>\<open>add_source\<close> appends
  the id it gives, a call of \<^verbatim>\<open>drop_source\<close> removes the one it names.
\<close>

definition issued_id :: "'b arrow \<Rightarrow> sql_call \<times> 'b reply \<Rightarrow> str option" where
  "issued_id A e = (case e of (CallAddSource args, r) \<Rightarrow> reply_id A r | _ \<Rightarrow> None)"

definition issued :: "'b arrow \<Rightarrow> 'b call_trace \<Rightarrow> str list" where
  "issued A tr = List.map_filter (issued_id A) tr"

definition live_step :: "'b arrow \<Rightarrow> sql_call \<times> 'b reply \<Rightarrow> str list \<Rightarrow> str list" where
  "live_step A e ids =
     (case e of
        (CallAddSource args, r) \<Rightarrow> ids @ (case reply_id A r of Some i \<Rightarrow> [i] | None \<Rightarrow> [])
      | (CallDropSource args, r) \<Rightarrow>
          (case va_const_str args 0 of Some i \<Rightarrow> removeAll i ids | None \<Rightarrow> ids)
      | _ \<Rightarrow> ids)"

definition live :: "'b arrow \<Rightarrow> 'b call_trace \<Rightarrow> str list" where
  "live A tr = fold (live_step A) tr []"

definition numbered :: "nat \<Rightarrow> str" where
  "numbered k = ''src'' @ show_nat k"

text \<open>The call a source stems from.\<close>

definition added_by :: "'b arrow \<Rightarrow> 'b call_trace \<Rightarrow> source_spec \<Rightarrow> bool" where
  "added_by A tr s \<longleftrightarrow> (\<exists>args r kind k. (CallAddSource args, r) \<in> set tr \<and>
     reply_id A r = Some (ss_source_id s) \<and> va_const_str args 0 = Some kind \<and>
     s = new_source args kind k)"

definition sources_inv :: "'b arrow \<Rightarrow> 'b call_trace \<Rightarrow> 'c symbols_state \<Rightarrow> bool" where
  "sources_inv A tr st \<longleftrightarrow> length tr < 2 ^ 64 - 1 \<longrightarrow>
     unat (rg_next_id (st_sources st)) \<le> length tr \<and>
     map ss_source_id (rg_sources (st_sources st)) = live A tr \<and>
     issued A tr = map numbered [0..<unat (rg_next_id (st_sources st))] \<and>
     (\<forall>s \<in> set (rg_sources (st_sources st)). added_by A tr s)"

definition session_inv ::
  "'b arrow \<Rightarrow> 'c lru \<Rightarrow> crates \<Rightarrow> world \<Rightarrow> 'b call_trace \<Rightarrow> 'c symbols_state \<Rightarrow> bool" where
  "session_inv A L K W tr st \<longleftrightarrow>
     sources_inv A tr st \<and> (length tr < 2 ^ 64 - 1 \<longrightarrow> state_inv L W K st)"

lemma trace_snoc:
  "issued A (tr @ [e]) = issued A tr @ (case issued_id A e of Some i \<Rightarrow> [i] | None \<Rightarrow> [])"
  "live A (tr @ [e]) = live_step A e (live A tr)"
  by (simp_all add: issued_def live_def List.map_filter_def split: option.split)

lemma added_by_mono: "added_by A tr s \<Longrightarrow> added_by A (tr @ [e]) s"
  by (auto simp: added_by_def)

lemma next_id_room:
  fixes k :: u64
  assumes "unat k \<le> m" "m < 2 ^ 64 - 1"
  shows "k \<noteq> - 1" "unat (k + 1) = Suc (unat k)"
proof -
  have "unat k < 2 ^ 64 - 1" using assms by simp
  moreover have "unat (- 1 :: u64) = 2 ^ 64 - 1" by (simp add: unsigned_minus_1_eq_mask mask_eq_exp_minus_1)
  ultimately show "k \<noteq> - 1" by auto
  show "unat (k + 1) = Suc (unat k)" using \<open>unat k < 2 ^ 64 - 1\<close> by (simp add: unat_word_ariths)
qed

lemma length_filter_neq: "length (filter P xs) \<noteq> length xs \<longleftrightarrow> (\<exists>x \<in> set xs. \<not> P x)"
proof
  show "\<exists>x \<in> set xs. \<not> P x" if "length (filter P xs) \<noteq> length xs"
    using that by (metis filter_id_conv)
  show "length (filter P xs) \<noteq> length xs" if "\<exists>x \<in> set xs. \<not> P x"
    using that by (metis length_filter_less less_irrefl)
qed

locale worker_session = resident_lru +
  fixes A :: "'b arrow" and n :: str and K :: crates and W :: world
  assumes documented: "arrow_documented A"
begin

lemma add_source_reply:
  assumes "worker_call A n L K W (CallAddSource args) st = (r, st')"
  shows "(\<exists>e. r = Refused e) \<and> st' = st \<or>
    (\<exists>kind. va_const_str args 0 = Some kind \<and>
       reply_id A r = Some (''src'' @ show_u64 (rg_next_id (st_sources st))) \<and>
       st_sources st' = st_sources st\<lparr>rg_next_id := rg_next_id (st_sources st) + 1,
         rg_sources := rg_sources (st_sources st) @
           [new_source args kind (rg_next_id (st_sources st))]\<rparr>)"
proof (cases rule: add_source_cases [of args st])
  case (refused e)
  with assms show ?thesis by (auto simp: map_reply_def)
next
  case (added kind)
  let ?c = "CallAddSource args" and ?i = "''src'' @ show_u64 (rg_next_id (st_sources st))"
  have "\<exists>b. map_reply A n ?c one_string_batch (Inr ?i) = Batches [b] \<and>
      aw_columns A b = [(DUtf8, [StrCell ?i])]"
    by (rule map_reply_served(1) [OF documented, where cols = "\<lambda>v. [(DUtf8, [StrCell v])]" and rows = 1])
      (simp_all add: fun_eq_iff one_string_batch_def add_source_schema_def arrow_simps)
  with assms added show ?thesis by (auto simp: reply_id_def)
qed

lemma drop_source_reply:
  assumes "worker_call A n L K W (CallDropSource args) st = (r, st')" "va_const_str args 0 = Some i"
  shows "(\<exists>b. r = Batches [b] \<and>
      aw_columns A b = [(DBoolean, [BoolCell (i \<in> ss_source_id ` set (rg_sources (st_sources st)))])]) \<and>
    rg_sources (st_sources st') = filter (\<lambda>s. ss_source_id s \<noteq> i) (rg_sources (st_sources st)) \<and>
    rg_next_id (st_sources st') = rg_next_id (st_sources st)"
proof -
  let ?d = "i \<in> ss_source_id ` set (rg_sources (st_sources st))"
  obtain b rg where d: "registry_drop i (st_sources st) = (b, rg)"
    by (cases "registry_drop i (st_sources st)")
  then have b: "b = ?d" and rg: "rg_sources rg = filter (\<lambda>s. ss_source_id s \<noteq> i) (rg_sources (st_sources st))"
    "rg_next_id rg = rg_next_id (st_sources st)"
    by (auto simp: registry_drop_def Let_def length_filter_neq split: if_splits)
  have "\<exists>b. map_reply A n (CallDropSource args) one_bool_batch (Inr ?d) = Batches [b] \<and>
      aw_columns A b = [(DBoolean, [BoolCell ?d])]"
    by (rule map_reply_served(1) [OF documented, where cols = "\<lambda>v. [(DBoolean, [BoolCell v])]" and rows = 1])
      (simp_all add: fun_eq_iff one_bool_batch_def drop_source_schema_def arrow_simps)
  with assms d b rg show ?thesis
    by (auto simp: drop_source_producer_def state_drop_source_def)
qed

text \<open>The relations between trace and state that every call keeps.\<close>

sublocale sources: session_invariant A n L K W "sources_inv A"
proof
  show "sources_inv A [] (state_new L)"
    by (simp add: sources_inv_def state_new_def state_with_budgets_def registry_new_def live_def
        issued_def List.map_filter_def)
  fix tr :: "'b call_trace" and st c r st'
  assume J: "sources_inv A tr st" and call: "worker_call A n L K W c st = (r, st')"
  show "sources_inv A (tr @ [(c, r)]) st'"
    unfolding sources_inv_def
  proof
    assume "length (tr @ [(c, r)]) < 2 ^ 64 - 1"
    with J have below: "unat (rg_next_id (st_sources st)) \<le> length tr"
      and len: "length tr < 2 ^ 64 - 1"
      and live: "map ss_source_id (rg_sources (st_sources st)) = live A tr"
      and issued: "issued A tr = map numbered [0..<unat (rg_next_id (st_sources st))]"
      and stem: "\<forall>s \<in> set (rg_sources (st_sources st)). added_by A tr s"
      by (simp_all add: sources_inv_def)
    note room = next_id_room [OF below len]
    let ?J = "unat (rg_next_id (st_sources st')) \<le> length (tr @ [(c, r)]) \<and>
      map ss_source_id (rg_sources (st_sources st')) = live A (tr @ [(c, r)]) \<and>
      issued A (tr @ [(c, r)]) = map numbered [0..<unat (rg_next_id (st_sources st'))] \<and>
      (\<forall>s \<in> set (rg_sources (st_sources st')). added_by A (tr @ [(c, r)]) s)"
    have same: ?J if "live_step A (c, r) (live A tr) = live A tr" "issued_id A (c, r) = None"
      "rg_sources (st_sources st') = rg_sources (st_sources st)"
      "rg_next_id (st_sources st') = rg_next_id (st_sources st)"
      using that below live issued stem by (auto simp: trace_snoc intro: added_by_mono)
    show ?J
    proof (cases c)
      case (CallAddSource args)
      from add_source_reply [OF call [unfolded CallAddSource]] show ?thesis
      proof (elim disjE conjE exE)
        fix e
        assume "st' = st" "r = Refused e"
        then show ?thesis
          by (intro same) (simp_all add: CallAddSource live_step_def issued_id_def reply_id_def)
      next
        fix kind
        let ?k = "rg_next_id (st_sources st)"
        assume add: "va_const_str args 0 = Some kind" "reply_id A r = Some (''src'' @ show_u64 ?k)"
          "st_sources st' = st_sources st\<lparr>rg_next_id := ?k + 1,
             rg_sources := rg_sources (st_sources st) @ [new_source args kind ?k]\<rparr>"
        have id: "ss_source_id (new_source args kind ?k) = ''src'' @ show_u64 ?k"
          by (simp add: new_source_def Let_def)
        have "added_by A (tr @ [(c, r)]) (new_source args kind ?k)"
          unfolding added_by_def using add id CallAddSource by (intro exI conjI) simp_all
        with add id below live issued stem show ?thesis
          by (auto simp: CallAddSource trace_snoc live_step_def issued_id_def room(2) numbered_def
              show_u64_def intro: added_by_mono)
      qed
    next
      case (CallDropSource args)
      show ?thesis
      proof (cases "va_const_str args 0")
        case None
        with CallDropSource call show ?thesis
          by (intro same) (auto simp: live_step_def issued_id_def drop_source_producer_def)
      next
        case (Some i)
        have "map ss_source_id (filter (\<lambda>s. ss_source_id s \<noteq> i) xs) = removeAll i (map ss_source_id xs)" for xs
          by (induction xs) auto
        from this [of "rg_sources (st_sources st)", unfolded live]
          drop_source_reply [OF call [unfolded CallDropSource] Some] below issued stem
        show ?thesis
          by (simp add: CallDropSource Some trace_snoc live_step_def issued_id_def added_by_mono)
      qed
    qed (use worker_call_registered [of c A n L K W st] call in
        \<open>intro same; simp add: live_step_def issued_id_def registered_sources_def\<close>)+
  qed
qed

sublocale state: session_invariant A n L K W "session_inv A L K W"
proof
  show "session_inv A L K W [] (state_new L)"
    using state_new_inv sources.J_start by (simp add: session_inv_def state_new_def)
  fix tr :: "'b call_trace" and st c r st'
  assume J: "session_inv A L K W tr st" and call: "worker_call A n L K W c st = (r, st')"
  have "state_inv L W K st'" if "length (tr @ [(c, r)]) < 2 ^ 64 - 1"
  proof -
    from that J have "state_inv L W K st" "unat (rg_next_id (st_sources st)) \<le> length tr"
      "length tr < 2 ^ 64 - 1"
      by (simp_all add: session_inv_def sources_inv_def)
    with worker_call_inv [of W K st A n c] next_id_room(1) call show ?thesis by (metis snd_conv)
  qed
  with J sources.J_call [OF _ call] show "session_inv A L K W (tr @ [(c, r)]) st'"
    by (simp add: session_inv_def)
qed

text \<open>Whatever the state, a row function whose rows are all answered is served.\<close>

lemma rows_served:
  "fst (symbolicate L K W clock build addr rows st) = Returned rs \<Longrightarrow>
     served A n (CallSymbolicate clock build addr rows)
       (fst (worker_call A n L K W (CallSymbolicate clock build addr rows) st))"
  "fst (inline_frames L K W clock build addr rows st) = Returned cs \<Longrightarrow>
     served A n (CallInlineFrames clock build addr rows)
       (fst (worker_call A n L K W (CallInlineFrames clock build addr rows) st))"
  "fst (function_name_column L K W clock build addr rows st) = Returned ns \<Longrightarrow>
     served A n (CallFunctionName clock build addr rows)
       (fst (worker_call A n L K W (CallFunctionName clock build addr rows) st))"
proof -
  assume rs: "fst (symbolicate L K W clock build addr rows st) = Returned rs"
  then have "length rs = rows" using for_rows_length by (fastforce simp: symbolicate_def)
  then obtain cells where cells: "symbolicate_array A rs = Returned (symbolicate_bind, cells)"
    "column_fits rows (Field n symbolicate_bind True) (symbolicate_bind, cells)"
    using symbolicate_array_fits [OF documented, of rs n True] by blast
  from scalar_served [OF documented cells(2), of "CallSymbolicate clock build addr rows"] cells(1) rs
  show "served A n (CallSymbolicate clock build addr rows)
      (fst (worker_call A n L K W (CallSymbolicate clock build addr rows) st))"
    by (simp add: symbolicate_process_def case_prod_beta)
next
  assume cs: "fst (inline_frames L K W clock build addr rows st) = Returned cs"
  then have "length cs = rows" using for_rows_length by (fastforce simp: inline_frames_def)
  then have "column_fits rows (Field n inline_frames_bind True) (build_inline_list A cs)"
    using inline_list_fits [of cs n True]
    by (simp add: build_inline_list_eq [OF documented] inline_frames_bind_def)
  from scalar_served [OF documented this, of "CallInlineFrames clock build addr rows"] cs
  show "served A n (CallInlineFrames clock build addr rows)
      (fst (worker_call A n L K W (CallInlineFrames clock build addr rows) st))"
    by (simp add: inline_frames_process_def map_fst_outcome_def)
next
  assume ns: "fst (function_name_column L K W clock build addr rows st) = Returned ns"
  then have "length ns = rows" using for_rows_length by (fastforce simp: function_name_column_def)
  then have "column_fits rows (Field n function_name_bind True) (DUtf8, map (opt_cell StrCell) ns)"
    by (simp add: function_name_bind_def list_all_iff arrow_simps)
  from scalar_served [OF documented this, of "CallFunctionName clock build addr rows"] ns
  show "served A n (CallFunctionName clock build addr rows)
      (fst (worker_call A n L K W (CallFunctionName clock build addr rows) st))"
    by (simp add: function_name_process_def map_fst_outcome_def)
qed

text \<open>Without any assumption on the state and the parsers, a row function panics or is served.\<close>

lemma row_functions_typed:
  "c \<in> {CallSymbolicate clock build addr rows, CallInlineFrames clock build addr rows,
      CallFunctionName clock build addr rows} \<Longrightarrow>
   fst (worker_call A n L K W c st) = Unwound \<or> served A n c (fst (worker_call A n L K W c st))"
proof (elim insertE emptyE)
  let ?c = "CallSymbolicate clock build addr rows"
  assume c: "c = ?c"
  show ?thesis
  proof (cases "fst (symbolicate L K W clock build addr rows st)")
    case Panicked
    then show ?thesis by (simp add: c symbolicate_process_def case_prod_beta scalar_reply_def)
  qed (use rows_served(1) c in blast)
next
  let ?c = "CallInlineFrames clock build addr rows"
  assume c: "c = ?c"
  show ?thesis
  proof (cases "fst (inline_frames L K W clock build addr rows st)")
    case Panicked
    then show ?thesis by (simp add: c inline_frames_process_def map_fst_outcome_def scalar_reply_def)
  qed (use rows_served(2) c in blast)
next
  let ?c = "CallFunctionName clock build addr rows"
  assume c: "c = ?c"
  show ?thesis
  proof (cases "fst (function_name_column L K W clock build addr rows st)")
    case Panicked
    then show ?thesis by (simp add: c function_name_process_def map_fst_outcome_def scalar_reply_def)
  qed (use rows_served(3) c in blast)
qed

lemma table_functions_served:
  "served A n (CallModuleInfoBlob args) (fst (worker_call A n L K W (CallModuleInfoBlob args) st))"
  "served A n (CallModuleInfoPath args) (fst (worker_call A n L K W (CallModuleInfoPath args) st))"
  "served A n (CallCacheStatus args) (fst (worker_call A n L K W (CallCacheStatus args) st))"
  "served A n (CallCacheEvict args) (fst (worker_call A n L K W (CallCacheEvict args) st))"
  "served A n (CallSources args) (fst (worker_call A n L K W (CallSources args) st))"
proof -
  show "served A n (CallModuleInfoBlob args) (fst (worker_call A n L K W (CallModuleInfoBlob args) st))"
    unfolding worker_call.simps fst_conv by (rule info_reply_served [OF documented])
      (auto simp: module_info_blob_producer_def split: option.splits)
  show "served A n (CallModuleInfoPath args) (fst (worker_call A n L K W (CallModuleInfoPath args) st))"
    unfolding worker_call.simps fst_conv by (rule info_reply_served [OF documented])
      (auto simp: module_info_path_producer_def split: option.splits)
  show "served A n (CallCacheStatus args) (fst (worker_call A n L K W (CallCacheStatus args) st))"
    unfolding worker_call.simps fst_conv
    by (rule map_reply_served(2) [OF documented, where cols = status_columns
          and rows = "length (cache_status_producer L args st)"])
      (simp_all add: fun_eq_iff status_batch_def status_conform)
  show "served A n (CallSources args) (fst (worker_call A n L K W (CallSources args) st))"
    unfolding worker_call.simps fst_conv
    by (rule map_reply_served(2) [OF documented, where cols = sources_columns
          and rows = "length (sources_producer args st)"])
      (simp_all add: fun_eq_iff sources_batch_def sources_conform)
  show "served A n (CallCacheEvict args) (fst (worker_call A n L K W (CallCacheEvict args) st))"
    unfolding worker_call.simps fst_map_prod
    by (rule map_reply_served(2) [OF documented, where cols = "\<lambda>v. [(DInt64, [I64Cell v])]" and rows = 1])
      (simp_all add: fun_eq_iff one_i64_batch_def evict_schema_def arrow_simps)
qed

lemma config_functions_served:
  "served A n (CallAddSource args) (fst (worker_call A n L K W (CallAddSource args) st))"
  "served A n (CallDropSource args) (fst (worker_call A n L K W (CallDropSource args) st))"
proof -
  show "served A n (CallAddSource args) (fst (worker_call A n L K W (CallAddSource args) st))"
  proof (cases rule: add_source_cases [of args st])
    case (refused e)
    then show ?thesis by (simp add: map_reply_def served_def)
  next
    case (added kind)
    show ?thesis
      unfolding worker_call.simps fst_map_prod added fst_conv
      by (rule map_reply_served(2) [OF documented, where cols = "\<lambda>v. [(DUtf8, [StrCell v])]" and rows = 1])
        (simp_all add: fun_eq_iff one_string_batch_def add_source_schema_def arrow_simps)
  qed
  show "served A n (CallDropSource args) (fst (worker_call A n L K W (CallDropSource args) st))"
  proof (cases "va_const_str args 0")
    case None
    then show ?thesis by (simp add: drop_source_producer_def map_reply_def served_def)
  next
    case (Some i)
    have "served A n (CallDropSource args) (map_reply A n (CallDropSource args) one_bool_batch (Inr d))" for d
      by (rule map_reply_served(2) [OF documented, where cols = "\<lambda>v. [(DBoolean, [BoolCell v])]" and rows = 1])
        (simp_all add: fun_eq_iff one_bool_batch_def drop_source_schema_def arrow_simps)
    with Some show ?thesis by (simp add: drop_source_producer_def case_prod_beta)
  qed
qed

text \<open>Whatever the state and whatever the parsers do, a call panics or is served.\<close>

lemma worker_call_typed:
  "fst (worker_call A n L K W c st) = Unwound \<or> served A n c (fst (worker_call A n L K W c st))"
proof (cases c)
  case (CallDemangle with_lang args col rows)
  show ?thesis unfolding CallDemangle by (rule disjI2) (rule demangle_served [OF documented])
qed (use row_functions_typed table_functions_served config_functions_served in
    \<open>simp_all del: worker_call.simps\<close>)

lemma served_not_unwound: "served A n c r \<Longrightarrow> r \<noteq> Unwound"
  by (auto simp: served_def)

text \<open>Only a function that resolves frames panics, and only in the indexing of a source.\<close>

lemma worker_call_unwound:
  assumes "fst (worker_call A n L K W c st) = Unwound"
  shows "(\<exists>clock build addr rows. c \<in> {CallSymbolicate clock build addr rows,
      CallInlineFrames clock build addr rows, CallFunctionName clock build addr rows}) \<and>
    source_panics W K st"
proof -
  have not_served: "\<not> served A n c (fst (worker_call A n L K W c st))"
    using assms served_not_unwound by blast
  show ?thesis
  proof (cases c)
    case (CallSymbolicate clock build addr rows)
    with not_served rows_served(1) have "fst (symbolicate L K W clock build addr rows st) = Panicked"
      by (metis outcome.exhaust)
    with CallSymbolicate show ?thesis using row_functions_panic(1) by blast
  next
    case (CallInlineFrames clock build addr rows)
    with not_served rows_served(2) have "fst (inline_frames L K W clock build addr rows st) = Panicked"
      by (metis outcome.exhaust)
    with CallInlineFrames show ?thesis using row_functions_panic(2) by blast
  next
    case (CallFunctionName clock build addr rows)
    with not_served rows_served(3) have
      "fst (function_name_column L K W clock build addr rows st) = Panicked"
      by (metis outcome.exhaust)
    with CallFunctionName show ?thesis using row_functions_panic(3) by blast
  next
    case (CallDemangle with_lang args col rows)
    then have "served A n c (fst (worker_call A n L K W c st))"
      by (simp only: demangle_served [OF documented])
    with not_served show ?thesis by blast
  qed (use not_served table_functions_served config_functions_served in
      \<open>simp_all del: worker_call.simps\<close>)
qed

lemma session_relates:
  assumes "session A n L K W tr st" "length tr < 2 ^ 64 - 1"
  shows "state_inv L W K st"
    "map ss_source_id (rg_sources (st_sources st)) = live A tr"
    "issued A tr = map numbered [0..<unat (rg_next_id (st_sources st))]"
    "\<forall>s \<in> set (rg_sources (st_sources st)). added_by A tr s"
  using state.session_keeps [OF assms(1)] assms(2) by (simp_all add: session_inv_def sources_inv_def)

end

lemmas worker_sessionI = worker_session.intro [OF resident_lru.intro worker_session_axioms.intro]

lemma show_nat_inject: "show_nat i = show_nat j \<Longrightarrow> i < 2 ^ 64 \<Longrightarrow> j < 2 ^ 64 \<Longrightarrow> i = j"
  by (metis parse_digits_show_nat option.inject)

lemma numbered_distinct:
  assumes "m \<le> 2 ^ 64"
  shows "distinct (map numbered [0..<m])"
  unfolding distinct_map
proof
  show "inj_on numbered (set [0..<m])"
  proof (rule inj_onI)
    fix i j
    assume "i \<in> set [0..<m]" "j \<in> set [0..<m]" "numbered i = numbered j"
    then have "show_nat i = show_nat j" "i < m" "j < m" by (simp_all add: numbered_def)
    with show_nat_inject less_le_trans [OF _ assms] show "i = j" by blast
  qed
qed simp

end
