(* ===== verification/Functions.thy ===== *)
theory Functions
  imports Catalog Sessions
begin

text \<open>
  The function objects of the worker, as the \<^verbatim>\<open>impl\<close> blocks of \<^verbatim>\<open>scalar/*.rs\<close> and \<^verbatim>\<open>table/*.rs\<close> make
  them: a name, the metadata, the declared arguments and the answer of \<^verbatim>\<open>on_bind\<close>; their
  registration; and what \<^verbatim>\<open>main\<close> hands to the SDK. The objects are related to the calls of
  \<open>Sessions\<close>: what a function is bound to is what its replies are made of.
\<close>

section \<open>Function objects\<close>

text \<open>
  \<^verbatim>\<open>BindResponse::result(t)\<close> of a scalar, from which the SDK makes a schema of one nullable
  field, and the struct with the schema and the opaque data of a table function.
\<close>

datatype bind_response = BindResult data_type | BindSchema "field list" bytes

fun bound_schema :: "str \<Rightarrow> bind_response \<Rightarrow> field list" where
  "bound_schema n (BindResult t) = [Field n t True]"
| "bound_schema n (BindSchema fs opaque_data) = fs"

record sql_function =
  fn_name :: str
  fn_metadata :: function_metadata
  fn_args :: "arg_spec list"
  fn_bind :: bind_response

definition Symbolicate :: sql_function where
  "Symbolicate = \<lparr>fn_name = ''symbolicate'', fn_metadata = symbolicate_metadata,
     fn_args = symbolicate_args, fn_bind = BindResult symbolicate_bind\<rparr>"

definition FunctionName :: sql_function where
  "FunctionName = \<lparr>fn_name = ''function_name'', fn_metadata = function_name_metadata,
     fn_args = function_name_args, fn_bind = BindResult function_name_bind\<rparr>"

definition InlineFrames :: sql_function where
  "InlineFrames = \<lparr>fn_name = ''inline_frames'', fn_metadata = inline_frames_metadata,
     fn_args = inline_frames_args, fn_bind = BindResult inline_frames_bind\<rparr>"

definition Demangle :: "bool \<Rightarrow> sql_function" where
  "Demangle with_lang = \<lparr>fn_name = ''demangle'', fn_metadata = demangle_metadata with_lang,
     fn_args = demangle_args with_lang, fn_bind = BindResult demangle_bind\<rparr>"

definition ModuleInfoBlob :: sql_function where
  "ModuleInfoBlob = \<lparr>fn_name = ''module_info'', fn_metadata = module_info_blob_metadata,
     fn_args = module_info_blob_args, fn_bind = BindSchema info_schema []\<rparr>"

definition ModuleInfoPath :: sql_function where
  "ModuleInfoPath = \<lparr>fn_name = ''module_info'', fn_metadata = module_info_path_metadata,
     fn_args = module_info_path_args, fn_bind = BindSchema info_schema []\<rparr>"

definition CacheStatus :: sql_function where
  "CacheStatus = \<lparr>fn_name = ''cache_status'', fn_metadata = cache_status_metadata,
     fn_args = cache_status_args, fn_bind = BindSchema status_schema []\<rparr>"

definition CacheEvict :: sql_function where
  "CacheEvict = \<lparr>fn_name = ''cache_evict'', fn_metadata = cache_evict_metadata,
     fn_args = cache_evict_args, fn_bind = BindSchema evict_schema []\<rparr>"

definition AddSource :: sql_function where
  "AddSource = \<lparr>fn_name = ''add_source'', fn_metadata = add_source_metadata,
     fn_args = add_source_args, fn_bind = BindSchema add_source_schema []\<rparr>"

definition ListSources :: sql_function where
  "ListSources = \<lparr>fn_name = ''sources'', fn_metadata = sources_metadata,
     fn_args = sources_args, fn_bind = BindSchema sources_schema []\<rparr>"

definition DropSource :: sql_function where
  "DropSource = \<lparr>fn_name = ''drop_source'', fn_metadata = drop_source_metadata,
     fn_args = drop_source_args, fn_bind = BindSchema drop_source_schema []\<rparr>"

lemmas function_objects = Symbolicate_def FunctionName_def InlineFrames_def Demangle_def
  ModuleInfoBlob_def ModuleInfoPath_def CacheStatus_def CacheEvict_def AddSource_def
  ListSources_def DropSource_def

section \<open>Registration and start-up\<close>

definition register_scalars :: "sql_function list" where
  "register_scalars =
     [Symbolicate, FunctionName, InlineFrames, Demangle False, Demangle True]"

definition register_tables :: "sql_function list" where
  "register_tables =
     [ModuleInfoBlob, ModuleInfoPath, CacheStatus, CacheEvict, AddSource, ListSources, DropSource]"

text \<open>
  What \<^verbatim>\<open>main\<close> hands to the SDK before it runs the worker, from the version of the crate and the
  environment variable: the functions, scalars before tables, and the catalog.
\<close>

definition start_up :: "str \<Rightarrow> env_value option \<Rightarrow> sql_function list \<times> catalog_model" where
  "start_up version var =
     (register_scalars @ register_tables, catalog_metadata version (catalog_name var))"

lemma registered_functions:
  "fst (start_up version var) =
     [Symbolicate, FunctionName, InlineFrames, Demangle False, Demangle True, ModuleInfoBlob,
      ModuleInfoPath, CacheStatus, CacheEvict, AddSource, ListSources, DropSource]"
  by (simp add: start_up_def register_scalars_def register_tables_def)

lemma registered_well_declared: "list_all (well_declared \<circ> fn_args) (fst (start_up version var))"
  by (simp add: registered_functions function_objects signature_defs well_declared_def upt_rec)

text \<open>Overloads of a name differ in the types of their positional arguments.\<close>

definition overload_of :: "sql_function \<Rightarrow> str \<times> str list" where
  "overload_of f = (fn_name f, map arg_type (filter (\<lambda>s. 0 \<le> arg_position s) (fn_args f)))"

lemma registered_overloads: "distinct (map overload_of (fst (start_up version var)))"
  by (simp add: registered_functions function_objects signature_defs overload_of_def)

section \<open>The function a call calls\<close>

fun called :: "sql_call \<Rightarrow> sql_function" where
  "called (CallSymbolicate _ _ _ _) = Symbolicate"
| "called (CallFunctionName _ _ _ _) = FunctionName"
| "called (CallInlineFrames _ _ _ _) = InlineFrames"
| "called (CallDemangle with_lang _ _ _) = Demangle with_lang"
| "called (CallModuleInfoBlob _) = ModuleInfoBlob"
| "called (CallModuleInfoPath _) = ModuleInfoPath"
| "called (CallCacheStatus _) = CacheStatus"
| "called (CallCacheEvict _) = CacheEvict"
| "called (CallAddSource _) = AddSource"
| "called (CallSources _) = ListSources"
| "called (CallDropSource _) = DropSource"

lemma called_registered: "called c \<in> set (fst (start_up version var))"
proof (cases c)
  case (CallDemangle with_lang args col rows)
  then show ?thesis unfolding registered_functions by (cases with_lang) simp_all
qed (simp_all only: called.simps registered_functions list.set insert_iff simp_thms)

lemma called_schema: "bound_schema n (fn_bind (called c)) = call_schema n c"
  by (cases c) (simp_all add: function_objects)

text \<open>
  The input columns of a call, and the Arrow type the SDK passes for a declared type: \<^verbatim>\<open>VARCHAR\<close>
  as \<^verbatim>\<open>Utf8\<close> and \<^verbatim>\<open>UBIGINT\<close> as \<^verbatim>\<open>UInt64\<close>, anything where any column is declared.
\<close>

fun call_columns :: "sql_call \<Rightarrow> column list" where
  "call_columns (CallSymbolicate _ build addr _) = [build, addr]"
| "call_columns (CallFunctionName _ build addr _) = [build, addr]"
| "call_columns (CallInlineFrames _ build addr _) = [build, addr]"
| "call_columns (CallDemangle _ _ col _) = [col]"
| "call_columns _ = []"

fun is_column :: "arg_spec \<Rightarrow> bool" where
  "is_column (ConstArg _ _ _ _ _) = False"
| "is_column _ = True"

definition typed_column :: "arg_spec \<Rightarrow> column \<Rightarrow> bool" where
  "typed_column spec col \<longleftrightarrow>
     arg_type spec = ''any'' \<or> arg_type spec = ''varchar'' \<and> (\<exists>xs. col = Utf8 xs) \<or>
     arg_type spec = ''uint64'' \<and> (\<exists>xs. col = UInt64 xs)"

definition well_typed :: "sql_call \<Rightarrow> bool" where
  "well_typed c \<longleftrightarrow> list_all2 typed_column (filter is_column (fn_args (called c))) (call_columns c)"

text \<open>A cell is null in a column.\<close>

fun null_at :: "column \<Rightarrow> nat \<Rightarrow> bool" where
  "null_at (Utf8 xs) i = (xs ! i = None)"
| "null_at (LargeUtf8 xs) i = (xs ! i = None)"
| "null_at (Binary xs) i = (xs ! i = None)"
| "null_at (LargeBinary xs) i = (xs ! i = None)"
| "null_at (UInt64 xs) i = (xs ! i = None)"
| "null_at (Int64 xs) i = (xs ! i = None)"
| "null_at (UInt32 xs) i = (xs ! i = None)"
| "null_at (Int32 xs) i = (xs ! i = None)"
| "null_at (OtherColumn _ nulls) i = nulls ! i"

text \<open>
  A frame function that is called with the types it declares reads every cell: the pair of a
  row misses a part only where the cell is null.
\<close>

lemma well_typed_cells:
  assumes "well_typed c" "call_columns c = [build, addr]" "i < rows"
  shows "map_prod (\<lambda>b. b = None) (\<lambda>a. a = None) (frame_cells build addr rows ! i) =
    (null_at build i, null_at addr i)"
proof -
  have "\<exists>xs. build = Utf8 xs" "\<exists>xs. addr = UInt64 xs"
    using assms(1,2)
    by (cases c; simp add: well_typed_def function_objects signature_defs typed_column_def)+
  then show ?thesis
    using assms(3) by (auto simp: frame_cells_def build_id_at_def address_at_def)
qed

end
