(* ===== verification/Global_State.thy ===== *)
theory Global_State
  imports Sessions
begin

text \<open>
  \<^verbatim>\<open>crates/symbols-worker/src/state.rs\<close>: the process-global state in a \<^verbatim>\<open>OnceLock\<close> around a mutex, and
  \<^verbatim>\<open>with_state\<close>, which runs a closure under the lock. A closure that panics poisons the mutex; the
  next call recovers the guard from the poison error and goes on with the state as it was left.
\<close>

section \<open>The lock\<close>

record 's mutex =
  mx_data :: 's
  mx_poisoned :: bool

text \<open>\<^verbatim>\<open>get_or_init\<close>: the cell is empty until the first call.\<close>

definition global :: "'s \<Rightarrow> 's mutex option \<Rightarrow> 's mutex" where
  "global init cell = (case cell of Some m \<Rightarrow> m | None \<Rightarrow> \<lparr>mx_data = init, mx_poisoned = False\<rparr>)"

text \<open>\<^verbatim>\<open>lock()\<close> gives the data, inside the error when the mutex is poisoned.\<close>

definition lock_mutex :: "'s mutex \<Rightarrow> 's + 's" where
  "lock_mutex m = (if mx_poisoned m then Inl (mx_data m) else Inr (mx_data m))"

definition with_state ::
  "'s \<Rightarrow> ('s \<Rightarrow> 'a outcome \<times> 's) \<Rightarrow> 's mutex option \<Rightarrow> 'a outcome \<times> 's mutex option" where
  "with_state init f cell =
     (let m = global init cell;
          guard = (case lock_mutex m of Inr d \<Rightarrow> d | Inl d \<Rightarrow> d)
      in case f guard of
           (Returned x, d) \<Rightarrow> (Returned x, Some (m\<lparr>mx_data := d\<rparr>))
         | (Panicked, d) \<Rightarrow> (Panicked, Some (m\<lparr>mx_data := d, mx_poisoned := True\<rparr>)))"

lemma with_state_runs:
  "with_state init f cell =
     (fst (f (mx_data (global init cell))),
      Some \<lparr>mx_data = snd (f (mx_data (global init cell))),
        mx_poisoned = (mx_poisoned (global init cell) \<or> fst (f (mx_data (global init cell))) = Panicked)\<rparr>)"
  by (cases "global init cell")
    (auto simp: with_state_def lock_mutex_def Let_def split: prod.splits outcome.splits sum.splits)

section \<open>The critical sections of the calls\<close>

text \<open>
  What a call runs under the lock, the value it computes left out: \<^const>\<open>None\<close> for a call that never
  takes the lock, which is \<^verbatim>\<open>demangle\<close> and every call that is refused for a missing argument.
\<close>

definition reading :: "'s \<Rightarrow> unit outcome \<times> 's" where
  "reading st = (Returned (), st)"

fun critical :: "'c lru \<Rightarrow> crates \<Rightarrow> world \<Rightarrow> sql_call \<Rightarrow> ('c, unit) state_fn option" where
  "critical L K W (CallSymbolicate clock build addr rows) =
     Some (\<lambda>st. map_fst_outcome (\<lambda>_. ()) (symbolicate L K W clock build addr rows st))"
| "critical L K W (CallFunctionName clock build addr rows) =
     Some (\<lambda>st. map_fst_outcome (\<lambda>_. ()) (function_name_column L K W clock build addr rows st))"
| "critical L K W (CallInlineFrames clock build addr rows) =
     Some (\<lambda>st. map_fst_outcome (\<lambda>_. ()) (inline_frames L K W clock build addr rows st))"
| "critical L K W (CallDemangle with_lang args col rows) = None"
| "critical L K W (CallModuleInfoBlob args) = map_option (\<lambda>_. reading) (const_blob args 0)"
| "critical L K W (CallModuleInfoPath args) = map_option (\<lambda>_. reading) (va_const_str args 0)"
| "critical L K W (CallCacheStatus args) = Some reading"
| "critical L K W (CallCacheEvict args) =
     Some (\<lambda>st. (Returned (), snd (state_cache_evict L (va_const_str args 0) st)))"
| "critical L K W (CallAddSource args) =
     map_option (\<lambda>kind st. (Returned (), snd (state_add_source kind (va_named_str args ''path'')
         (va_named_str args ''url'') (va_named_str args ''bucket'') (va_named_bool args ''enabled'')
         (va_named_str args ''secret'') st)))
       (va_const_str args 0)"
| "critical L K W (CallSources args) = Some reading"
| "critical L K W (CallDropSource args) =
     map_option (\<lambda>i st. (Returned (), snd (state_drop_source i st))) (va_const_str args 0)"

definition locked_call ::
  "'c lru \<Rightarrow> crates \<Rightarrow> world \<Rightarrow> sql_call \<Rightarrow> 'c symbols_state mutex option
     \<Rightarrow> 'c symbols_state mutex option" where
  "locked_call L K W c cell =
     (case critical L K W c of
        None \<Rightarrow> cell
      | Some f \<Rightarrow> snd (with_state (state_new L) f cell))"

definition locked_calls ::
  "'c lru \<Rightarrow> crates \<Rightarrow> world \<Rightarrow> sql_call list \<Rightarrow> 'c symbols_state mutex option" where
  "locked_calls L K W cs = fold (locked_call L K W) cs None"

lemma locked_calls_snoc: "locked_calls L K W (cs @ [c]) = locked_call L K W c (locked_calls L K W cs)"
  by (simp add: locked_calls_def)

section \<open>The lock against the plain state\<close>

text \<open>The cell holds the state of a session and is poisoned when a call of it panicked.\<close>

definition holds :: "'c lru \<Rightarrow> 'c symbols_state mutex option \<Rightarrow> 'c symbols_state \<Rightarrow> bool \<Rightarrow> bool" where
  "holds L cell st panicked \<longleftrightarrow>
     global (state_new L) cell = \<lparr>mx_data = st, mx_poisoned = panicked\<rparr>"

lemma served_returns: "served A n c r \<Longrightarrow> r \<noteq> Unwound"
  by (auto simp: served_def)

context worker_session
begin

lemma row_critical:
  assumes "critical L K W c = Some f" "c \<in> {CallSymbolicate clock build addr rows,
      CallInlineFrames clock build addr rows, CallFunctionName clock build addr rows}"
  shows "fst (f st) = Panicked \<longleftrightarrow> fst (worker_call A n L K W c st) = Unwound"
    and "snd (f st) = snd (worker_call A n L K W c st)"
proof -
  have panics: "fst (map_fst_outcome g p) = Panicked \<longleftrightarrow> fst p = Panicked"
    for g :: "'x \<Rightarrow> 'y" and p :: "'x outcome \<times> 'z"
    by (simp add: map_fst_outcome_def outcome_simps)
  note served = rows_served [where clock = clock and build = build and addr = addr and rows = rows
      and st = st]
  show "snd (f st) = snd (worker_call A n L K W c st)"
    using assms by (auto simp: map_fst_outcome_def symbolicate_process_def inline_frames_process_def
        function_name_process_def case_prod_beta)
  from assms(2) show "fst (f st) = Panicked \<longleftrightarrow> fst (worker_call A n L K W c st) = Unwound"
  proof (elim insertE emptyE)
    assume c: "c = CallSymbolicate clock build addr rows"
    with assms(1) served(1) served_returns show ?thesis
      by (cases "fst (symbolicate L K W clock build addr rows st)")
        (auto simp: panics symbolicate_process_def case_prod_beta scalar_reply_def)
  next
    assume c: "c = CallInlineFrames clock build addr rows"
    with assms(1) served(2) served_returns show ?thesis
      by (cases "fst (inline_frames L K W clock build addr rows st)")
        (auto simp: panics inline_frames_process_def map_fst_outcome_def scalar_reply_def)
  next
    assume c: "c = CallFunctionName clock build addr rows"
    with assms(1) served(3) served_returns show ?thesis
      by (cases "fst (function_name_column L K W clock build addr rows st)")
        (auto simp: panics function_name_process_def map_fst_outcome_def scalar_reply_def)
  qed
qed

lemma other_critical:
  assumes "\<nexists>clock build addr rows. c \<in> {CallSymbolicate clock build addr rows,
      CallInlineFrames clock build addr rows, CallFunctionName clock build addr rows}"
  shows "fst (worker_call A n L K W c st) \<noteq> Unwound"
    and "case critical L K W c of
       None \<Rightarrow> snd (worker_call A n L K W c st) = st
     | Some f \<Rightarrow> f st = (Returned (), snd (worker_call A n L K W c st))"
proof -
  have "served A n c (fst (worker_call A n L K W c st))"
  proof (cases c)
    case (CallDemangle with_lang args col rows)
    show ?thesis unfolding CallDemangle by (rule demangle_served [OF documented])
  qed (use assms table_functions_served config_functions_served in
      \<open>simp_all del: worker_call.simps\<close>)
  then show "fst (worker_call A n L K W c st) \<noteq> Unwound" by (rule served_returns)
  show "case critical L K W c of
       None \<Rightarrow> snd (worker_call A n L K W c st) = st
     | Some f \<Rightarrow> f st = (Returned (), snd (worker_call A n L K W c st))"
    using assms
    by (cases c) (auto simp: reading_def cache_evict_producer_def add_source_producer_def
        drop_source_producer_def case_prod_beta split: option.splits sum.splits prod.splits)
qed

lemma critical_call:
  "case critical L K W c of
     None \<Rightarrow> snd (worker_call A n L K W c st) = st \<and> fst (worker_call A n L K W c st) \<noteq> Unwound
   | Some f \<Rightarrow> snd (f st) = snd (worker_call A n L K W c st) \<and>
       (fst (f st) = Panicked \<longleftrightarrow> fst (worker_call A n L K W c st) = Unwound)"
proof (cases "\<exists>clock build addr rows. c \<in> {CallSymbolicate clock build addr rows,
      CallInlineFrames clock build addr rows, CallFunctionName clock build addr rows}")
  case True
  then obtain clock build addr rows where c: "c \<in> {CallSymbolicate clock build addr rows,
      CallInlineFrames clock build addr rows, CallFunctionName clock build addr rows}" by blast
  then obtain f where "critical L K W c = Some f" by auto
  with row_critical [OF this c, of st] show ?thesis by (simp del: worker_call.simps)
next
  case False
  from other_critical [OF this, of st] show ?thesis
    by (auto split: option.splits simp del: worker_call.simps)
qed

sublocale lock: session_invariant A n L K W
  "\<lambda>tr st. holds L (locked_calls L K W (map fst tr)) st (Unwound \<in> snd ` set tr)"
proof
  show "holds L (locked_calls L K W (map fst [])) (state_new L) (Unwound \<in> snd ` set [])"
    by (simp add: holds_def locked_calls_def global_def)
  fix tr :: "'b call_trace" and st c r st'
  assume J: "holds L (locked_calls L K W (map fst tr)) st (Unwound \<in> snd ` set tr)"
    and call: "worker_call A n L K W c st = (r, st')"
  from critical_call [of c st] call
  show "holds L (locked_calls L K W (map fst (tr @ [(c, r)]))) st' (Unwound \<in> snd ` set (tr @ [(c, r)]))"
    using J
    by (auto simp: holds_def locked_calls_snoc locked_call_def with_state_runs split: option.splits)
      (auto simp: global_def)
qed

lemma session_lock:
  assumes "session A n L K W tr st"
  shows "holds L (locked_calls L K W (map fst tr)) st (Unwound \<in> snd ` set tr)"
  by (rule lock.session_keeps [OF assms])

end

end
