(* ===== verification/Session_Properties.thy ===== *)
theory Session_Properties
  imports Samples Functions Global_State
begin

text \<open>
  The properties of whole sessions with the worker, with a session on the sample file system
  that registers its directory.
\<close>

interpretation demo_session: worker_session list_lru demo_arrow "''result''" demo demo_world
  by (rule worker_sessionI [OF list_lru_laws demo_arrow_documented])

definition demo_args :: vgi_args where
  "demo_args = \<lparr>va_const_str = [0 \<mapsto> ''dir''], va_named_str = [''path'' \<mapsto> ''/srv''],
     va_named_bool = Map.empty, va_arg = Map.empty\<rparr>"

definition demo_added :: "(field list \<times> array list) reply \<times> resident lru_list symbols_state" where
  "demo_added = worker_call demo_arrow ''result'' list_lru demo demo_world (CallAddSource demo_args)
     (state_new list_lru)"

lemma demo_trace:
  "session demo_arrow ''result'' list_lru demo demo_world
     [(CallAddSource demo_args, fst demo_added)] (snd demo_added)"
proof -
  have "worker_call demo_arrow ''result'' list_lru demo demo_world (CallAddSource demo_args)
      (state_new list_lru) = (fst demo_added, snd demo_added)"
    by (simp only: demo_added_def prod.collapse)
  from session.call [OF session.start this] show ?thesis by simp
qed

lemma demo_next_id: "rg_next_id (st_sources (state_new list_lru)) = 0"
  by (simp add: state_new_def state_with_budgets_def registry_new_def)

lemma demo_added_new: "snd demo_added \<noteq> state_new list_lru"
proof -
  let ?st = "state_new list_lru"
  have "lowercase (trim ''dir'') = ''dir''" by (simp only: plain_kinds lower_kinds)
  moreover have "add_error ''dir'' (Some ''/srv'') None None = None" by code_simp
  ultimately have "rg_next_id (snd (registry_add ''dir'' (Some ''/srv'') None None None None
      (st_sources ?st))) = 1"
    by (simp only: registry_add_def Let_def option.case snd_conv source_registry.simps demo_next_id) simp
  then have "rg_next_id (st_sources (snd (add_source_producer demo_args ?st))) = 1"
    by (cases "registry_add ''dir'' (Some ''/srv'') None None None None (st_sources ?st)")
      (auto simp: add_source_producer_def state_add_source_def demo_args_def split: sum.split)
  then show ?thesis using demo_next_id by (auto simp: demo_added_def)
qed

lemma demo_added_id: "reply_id demo_arrow (fst demo_added) = Some ''src0''"
proof -
  have "show_u64 0 = ''0''" by code_simp
  with demo_added_new
    demo_session.add_source_reply [of demo_args "state_new list_lru" "fst demo_added" "snd demo_added"]
  show ?thesis by (auto simp: demo_added_def demo_next_id simp del: worker_call.simps)
qed

lemma demo_added_state:
  "\<exists>spec. snd demo_added = (state_new list_lru)\<lparr>st_sources := registry_new
       \<lparr>rg_next_id := 1, rg_sources := [spec]\<rparr>\<rparr> \<and>
     ss_enabled spec \<and> ss_kind spec = ''dir'' \<and> ss_path spec = Some ''/srv''"
proof (cases rule: add_source_cases [of demo_args "state_new list_lru"])
  case (refused e)
  with demo_added_new show ?thesis by (simp add: demo_added_def)
next
  case (added kind)
  let ?spec = "new_source demo_args kind 0"
  have "kind = ''dir''" using added(1) by (simp add: demo_args_def)
  then have kind: "lowercase (trim kind) = ''dir''" by (simp only: plain_kinds lower_kinds)
  have "ss_kind ?spec = ''dir''" "ss_path ?spec = Some ''/srv''" "ss_enabled ?spec"
    unfolding new_source_def Let_def kind by (simp_all add: demo_args_def)
  moreover have "st_sources (state_new list_lru) = registry_new"
    by (simp add: state_new_def state_with_budgets_def)
  then have "snd demo_added = (state_new list_lru)\<lparr>st_sources := registry_new
      \<lparr>rg_next_id := 1, rg_sources := [?spec]\<rparr>\<rparr>"
    using added(2) by (simp add: demo_added_def registry_new_def)
  ultimately show ?thesis by blast
qed

section \<open>Every call\<close>

text \<open>
  C12: in a session of any length short of the 64-bit counter, whatever was called before, with
  whatever arguments and columns, and whatever the parsers do, every call is served: one batch that
  conforms to the output schema of its function, with one row per input row for the scalar functions
  and one row for the functions that report an action; or, for the functions that validate, the
  refusal of the arguments. The one exception is a panic, of a function that resolves frames, and
  only where the code does not contain it: while the files of a source are indexed, in the identity
  parsers. Then a local source that some call added, and that is enabled and still registered, has a
  file on which they panic. No call fails in the assembly of its batch, none goes on for ever.
\<close>

theorem session_total:
  assumes "lru_laws L" "arrow_documented A"
    and "session A n L K W tr st" "length tr < 2 ^ 64 - 1"
  shows "served A n c (fst (worker_call A n L K W c st)) \<or>
    fst (worker_call A n L K W c st) = Unwound \<and> (\<exists>build addr. call_columns c = [build, addr]) \<and>
    (\<exists>s p. added_by A tr s \<and> ss_source_id s \<in> set (live A tr) \<and> ss_enabled s \<and>
       ss_kind s \<in> {''dir'', ''glob''} \<and> ss_path s = Some p \<and> source_entries W K s p = Panicked) \<and>
    (\<exists>path. aliases_of W K path = Panicked)"
proof (cases "fst (worker_call A n L K W c st) = Unwound")
  case False
  then show ?thesis
    using worker_session.worker_call_typed [OF worker_sessionI [OF assms(1,2)]] by blast
next
  case True
  note S = worker_sessionI [OF assms(1,2)]
  from worker_session.worker_call_unwound [OF S True] obtain s where
    frames: "\<exists>build addr. call_columns c = [build, addr]" and
    s: "s \<in> set (rg_sources (st_sources st))" "indexing_panics W K s"
    by (auto simp: source_panics_def)
  from s(1) worker_session.session_relates(2) [OF S assms(3,4)]
  have "ss_source_id s \<in> set (live A tr)" by (metis image_eqI set_map)
  moreover have "added_by A tr s"
    using worker_session.session_relates(4) [OF S assms(3,4)] s(1) by blast
  ultimately show ?thesis
    using True frames s(2) indexing_panics_file [OF s(2)]
    by (auto simp: indexing_panics_def is_local_def split: option.splits)
qed

theorem session_total_witness:
  "served demo_arrow ''result'' (CallSymbolicate (\<lambda>i n. 5) (Utf8 [Some ''abcd'', None])
       (Int64 [Some 0x11, Some 0x12]) 2)
     (fst (worker_call demo_arrow ''result'' list_lru demo demo_world
       (CallSymbolicate (\<lambda>i n. 5) (Utf8 [Some ''abcd'', None]) (Int64 [Some 0x11, Some 0x12]) 2)
       (snd demo_added)))"
proof -
  have "\<nexists>path. aliases_of demo_world demo path = Panicked"
    using demo_probes by (simp add: probes_return_def)
  with session_total [OF list_lru_laws demo_arrow_documented demo_trace] show ?thesis by fastforce
qed

section \<open>Types\<close>

text \<open>
  C13: a function does what it was registered for. Whatever the state, the arguments and the
  parsers, a call is a call of a function registered at start-up, and a reply is one batch under the
  very schema that function was bound to, with its number of rows; the other outcomes are the refusal
  of a function that validates and a panic of a function that resolves frames. Called with columns of
  the types they declare, those read every cell and miss only nulls. \<^verbatim>\<open>demangle\<close> declares a column of
  any type and refuses every one that is not \<^verbatim>\<open>VARCHAR\<close>.
\<close>

theorem registered_types:
  assumes "lru_laws L" "arrow_documented A"
  shows "called c \<in> set (fst (start_up version var)) \<and>
    (case fst (worker_call A n L K W c st) of
       Batches bs \<Rightarrow> (\<exists>b rows. bs = [b] \<and>
         conforming (bound_schema n (fn_bind (called c))) (aw_columns A b) rows \<and>
         (case call_rows c of Some k \<Rightarrow> rows = k | None \<Rightarrow> True))
     | Refused e \<Rightarrow> validates c
     | Unwound \<Rightarrow> (\<exists>build addr. call_columns c = [build, addr])
     | Endless \<Rightarrow> False) \<and>
    (\<forall>build addr rows i. well_typed c \<and> call_columns c = [build, addr] \<and> i < rows \<longrightarrow>
       map_prod (\<lambda>b. b = None) (\<lambda>a. a = None) (frame_cells build addr rows ! i) =
         (null_at build i, null_at addr i)) \<and>
    (\<forall>args col rows. c = CallDemangle False args col rows \<and> (\<nexists>xs. col = Utf8 xs) \<longrightarrow>
       well_typed c \<and> (\<exists>m. fst (worker_call A n L K W c st) = Refused (TypeError m)))"
proof (intro conjI allI impI)
  note S = worker_sessionI [OF assms]
  have frames: "\<exists>build addr. call_columns c = [build, addr]" if "fst (worker_call A n L K W c st) = Unwound"
  proof (rule ccontr)
    assume "\<nexists>build addr. call_columns c = [build, addr]"
    then have "\<nexists>clock build addr rows. c \<in> {CallSymbolicate clock build addr rows,
        CallInlineFrames clock build addr rows, CallFunctionName clock build addr rows}" by auto
    from worker_session.other_critical(1) [OF S this] that show False by blast
  qed
  show "called c \<in> set (fst (start_up version var))" by (rule called_registered)
  show "case fst (worker_call A n L K W c st) of
       Batches bs \<Rightarrow> (\<exists>b rows. bs = [b] \<and>
         conforming (bound_schema n (fn_bind (called c))) (aw_columns A b) rows \<and>
         (case call_rows c of Some k \<Rightarrow> rows = k | None \<Rightarrow> True))
     | Refused e \<Rightarrow> validates c
     | Unwound \<Rightarrow> (\<exists>build addr. call_columns c = [build, addr])
     | Endless \<Rightarrow> False"
    using worker_session.worker_call_typed [OF S, of n K W c st] frames
    unfolding called_schema served_def by (auto split: reply.splits simp del: worker_call.simps)
next
  fix build addr :: column and rows i :: nat
  assume "well_typed c \<and> call_columns c = [build, addr] \<and> i < rows"
  then show "map_prod (\<lambda>b. b = None) (\<lambda>a. a = None) (frame_cells build addr rows ! i) =
      (null_at build i, null_at addr i)" by (intro well_typed_cells) auto
next
  fix args :: vgi_args and col and rows :: nat
  assume c: "c = CallDemangle False args col rows \<and> (\<nexists>xs. col = Utf8 xs)"
  then show "well_typed c" by (simp add: well_typed_def function_objects demangle_args_def typed_column_def)
  from c show "\<exists>m. fst (worker_call A n L K W c st) = Refused (TypeError m)"
    by (cases col) (auto simp: demangle_process_def demangle_column_def string_col_def scalar_reply_def)
qed

theorem registered_types_witness:
  "fst (worker_call demo_arrow ''result'' list_lru demo demo_world
     (CallDemangle False demo_args (UInt64 [Some 7]) 1) demo_state) \<noteq> Unwound \<and>
   map_prod (\<lambda>b. b = None) (\<lambda>a. a = None)
     (frame_cells (Utf8 [Some ''abcd'', None]) (UInt64 [None, Some 7]) 2 ! 1) = (True, False)"
proof
  show "fst (worker_call demo_arrow ''result'' list_lru demo demo_world
     (CallDemangle False demo_args (UInt64 [Some 7]) 1) demo_state) \<noteq> Unwound"
    using registered_types [OF list_lru_laws demo_arrow_documented,
        where c = "CallDemangle False demo_args (UInt64 [Some 7]) 1" and st = demo_state and K = demo
          and W = demo_world and n = "''result''"]
    by auto
  have "well_typed (CallSymbolicate (\<lambda>i n. 5) (Utf8 [Some ''abcd'', None]) (UInt64 [None, Some 7]) 2)"
    by (simp add: well_typed_def function_objects signature_defs typed_column_def)
  then show "map_prod (\<lambda>b. b = None) (\<lambda>a. a = None)
     (frame_cells (Utf8 [Some ''abcd'', None]) (UInt64 [None, Some 7]) 2 ! 1) = (True, False)"
    using registered_types [OF list_lru_laws demo_arrow_documented,
        where c = "CallSymbolicate (\<lambda>i n. 5) (Utf8 [Some ''abcd'', None]) (UInt64 [None, Some 7]) 2"]
    by fastforce
qed

section \<open>The lock\<close>

text \<open>
  C14: the lock serializes. The calls of a session, run through the global lock, leave in it the
  state of the session; it is poisoned exactly when some call panicked, and that stops no later
  call; and what a call recovers from a poisoned lock satisfies the invariant of the state.
\<close>

theorem lock_serializes:
  assumes "lru_laws L" "arrow_documented A" "session A n L K W tr st" "length tr < 2 ^ 64 - 1"
  shows "global (state_new L) (locked_calls L K W (map fst tr)) =
      \<lparr>mx_data = st, mx_poisoned = (Unwound \<in> snd ` set tr)\<rparr> \<and>
    state_inv L W K (mx_data (global (state_new L) (locked_calls L K W (map fst tr))))"
proof -
  note S = worker_sessionI [OF assms(1,2)]
  have "holds L (locked_calls L K W (map fst tr)) st (Unwound \<in> snd ` set tr)"
    by (rule worker_session.session_lock [OF S assms(3)])
  with worker_session.session_relates(1) [OF S assms(3,4)] show ?thesis by (simp add: holds_def)
qed

text \<open>A session with a panic: the one file of the directory makes the identity parsers panic.\<close>

definition bad_world :: world where
  "bad_world = demo_world\<lparr>w_mmap := \<lambda>p. if p = ''/srv/a.debug'' then Some [0xff] else None\<rparr>"

lemma bad_index: "index_dir bad_world demo ''/srv'' (Suc n) = Panicked"
proof -
  have "aliases_of bad_world demo ''/srv/a.debug'' = Panicked"
    by (simp add: aliases_of_def bad_world_def probe_identity_def starts_with_def PDB_MAGIC_def
        identity_from_object_def demo_def)
  then show ?thesis by (simp add: index_dir_def bad_world_def demo_world_def path_join_def)
qed

lemma bad_resolve:
  assumes "rg_sources (st_sources st) = spec # specs" "ss_enabled spec" "ss_kind spec = ''dir''"
    and "ss_path spec = Some ''/srv''" "rg_indexed (st_sources st) = {}"
    and "st_cache st = cache_new list_lru k m"
  shows "state_resolve list_lru demo bad_world clock token addr st = (Panicked, st)"
proof -
  have local: "is_local spec" using assms(2,3) by (simp add: is_local_def)
  have "pending_sources (st_sources st) = spec # filter is_local specs"
    using local assms(1,5) by (simp add: pending_sources_def)
  then have "locate bad_world demo token (st_sources st) = (st_sources st, Panicked)"
    using assms bad_index [of 999999]
    by (simp add: locate_def ensure_indexed_def source_entries_def MAX_INDEX_FILES_def)
  then show ?thesis
    using assms(6)
    by (simp add: state_resolve_def cache_resolve_def resolve_debug_id_def ensure_resident_def
        is_resident_def is_known_miss_def cache_new_def)
qed

lemma bad_call:
  "worker_call demo_arrow ''result'' list_lru demo bad_world
     (CallSymbolicate (\<lambda>i n. 5) (Utf8 [Some ''abcd'']) (UInt64 [Some 7]) 1) (snd demo_added) =
   (Unwound, snd demo_added)"
proof -
  obtain spec where "snd demo_added = (state_new list_lru)\<lparr>st_sources := registry_new
       \<lparr>rg_next_id := 1, rg_sources := [spec]\<rparr>\<rparr>"
    "ss_enabled spec" "ss_kind spec = ''dir''" "ss_path spec = Some ''/srv''"
    using demo_added_state by blast
  then have "state_resolve list_lru demo bad_world clock token addr (snd demo_added) =
      (Panicked, snd demo_added)" for clock token addr
    by (intro bad_resolve) (simp_all add: registry_new_def state_new_def state_with_budgets_def)
  then show ?thesis
    by (simp add: symbolicate_process_def symbolicate_def frame_cells_def build_id_at_def
        address_at_def row_frames_def map_fst_outcome_def scalar_reply_def)
qed

theorem lock_serializes_witness:
  "\<exists>m. locked_calls list_lru demo bad_world [CallAddSource demo_args,
       CallSymbolicate (\<lambda>i n. 5) (Utf8 [Some ''abcd'']) (UInt64 [Some 7]) 1] = Some m \<and>
     mx_data m = snd demo_added \<and> mx_poisoned m"
proof -
  have "worker_call demo_arrow ''result'' list_lru demo bad_world (CallAddSource demo_args)
      (state_new list_lru) = demo_added"
    by (simp add: demo_added_def)
  then have "session demo_arrow ''result'' list_lru demo bad_world
      [(CallAddSource demo_args, fst demo_added)] (snd demo_added)"
    using session.call [OF session.start] by (metis append_Nil prod.collapse)
  from session.call [OF this bad_call]
  have tr: "session demo_arrow ''result'' list_lru demo bad_world
      [(CallAddSource demo_args, fst demo_added),
       (CallSymbolicate (\<lambda>i n. 5) (Utf8 [Some ''abcd'']) (UInt64 [Some 7]) 1, Unwound)] (snd demo_added)"
    by simp
  from lock_serializes [OF list_lru_laws demo_arrow_documented tr] show ?thesis
    by (auto simp: global_def split: option.splits)
qed

section \<open>Sources\<close>

text \<open>
  C15: over a session the registry implements a list of ids: the sources are, in order, those
  whose id \<^verbatim>\<open>add_source\<close> gave out and no later \<^verbatim>\<open>drop_source\<close> named; the \<open>k\<close>-th id given out is
  \<open>src k\<close>, so none is ever given out twice; and dropping a source answers whether it was there.
\<close>

theorem session_sources:
  assumes "lru_laws L" "arrow_documented A"
    and "session A n L K W tr st" "length tr < 2 ^ 64 - 1"
  shows "map ss_source_id (state_list_sources st) = live A tr \<and>
    issued A tr = map numbered [0..<length (issued A tr)] \<and> distinct (issued A tr) \<and>
    (\<forall>args i. va_const_str args 0 = Some i \<longrightarrow>
       (\<exists>b. fst (worker_call A n L K W (CallDropSource args) st) = Batches [b] \<and>
          aw_columns A b = [(DBoolean, [BoolCell (i \<in> set (live A tr))])]))"
proof (intro conjI allI impI)
  note S = worker_sessionI [OF assms(1,2)]
  note R = worker_session.session_relates [OF S assms(3,4)]
  have listed: "set (live A tr) = ss_source_id ` set (rg_sources (st_sources st))"
    by (simp flip: R(2))
  show "map ss_source_id (state_list_sources st) = live A tr"
    by (simp add: state_list_sources_def R(2))
  show "issued A tr = map numbered [0..<length (issued A tr)]" by (simp add: R(3))
  show "distinct (issued A tr)"
    unfolding R(3)
    using unsigned_less [of "rg_next_id (st_sources st)", where 'a = nat]
    by (intro numbered_distinct) (simp add: less_imp_le)
  fix args :: vgi_args and i
  assume i: "va_const_str args 0 = Some i"
  show "\<exists>b. fst (worker_call A n L K W (CallDropSource args) st) = Batches [b] \<and>
      aw_columns A b = [(DBoolean, [BoolCell (i \<in> set (live A tr))])]"
    unfolding listed
    using worker_session.drop_source_reply [OF S surjective_pairing i, where K = K and W = W and n = n and st = st]
    by blast
qed

theorem session_sources_witness:
  "map ss_source_id (state_list_sources (snd demo_added)) = [''src0'']"
proof -
  have "live demo_arrow [(CallAddSource demo_args, fst demo_added)] = [''src0'']"
    by (simp add: live_def live_step_def demo_added_id)
  with session_sources [OF list_lru_laws demo_arrow_documented demo_trace] show ?thesis by simp
qed

text \<open>
  C16: nothing crosses the trust boundary unless a call asked for it: a source is marked as
  egress exactly when its kind is remote, and a remote source that is enabled was registered in
  this session by a call that named its kind and passed \<^verbatim>\<open>enabled => true\<close>.
\<close>

theorem session_egress:
  assumes "lru_laws L" "arrow_documented A"
    and "session A n L K W tr st" "length tr < 2 ^ 64 - 1" "s \<in> set (state_list_sources st)"
  shows "(ss_egress s \<longleftrightarrow> ss_kind s \<in> {''debuginfod'', ''s3'', ''http''}) \<and>
    (ss_egress s \<and> ss_enabled s \<longrightarrow>
       (\<exists>args r kind. (CallAddSource args, r) \<in> set tr \<and> reply_id A r = Some (ss_source_id s) \<and>
          va_const_str args 0 = Some kind \<and> lowercase (trim kind) = ss_kind s \<and>
          va_named_bool args ''enabled'' = Some True))"
proof -
  have "added_by A tr s"
    using worker_session.session_relates(4) [OF worker_sessionI [OF assms(1,2)] assms(3,4)] assms(5)
    by (simp add: state_list_sources_def)
  then obtain args r kind k where s: "(CallAddSource args, r) \<in> set tr"
    "reply_id A r = Some (ss_source_id s)" "va_const_str args 0 = Some kind" "s = new_source args kind k"
    unfolding added_by_def by blast
  have kind: "ss_kind s = lowercase (trim kind)" "ss_egress s \<longleftrightarrow> ss_kind s \<in> {''debuginfod'', ''s3'', ''http''}"
    and enabled: "ss_enabled s = (case va_named_bool args ''enabled'' of Some b \<Rightarrow> b | None \<Rightarrow> \<not> ss_egress s)"
    unfolding s(4) by (simp_all only: new_source_def Let_def source_spec.simps)
  have "\<exists>args r kind. (CallAddSource args, r) \<in> set tr \<and> reply_id A r = Some (ss_source_id s) \<and>
      va_const_str args 0 = Some kind \<and> lowercase (trim kind) = ss_kind s \<and>
      va_named_bool args ''enabled'' = Some True" if "ss_egress s" "ss_enabled s"
  proof (intro exI conjI)
    show "va_named_bool args ''enabled'' = Some True"
      using enabled that by (cases "va_named_bool args ''enabled''") simp_all
  qed (fact s(1-3) kind(1) [symmetric])+
  with kind(2) show ?thesis by simp
qed

theorem session_egress_witness:
  "list_all (\<lambda>s. \<not> ss_egress s \<or> \<not> ss_enabled s) (state_list_sources (snd demo_added))"
proof -
  have "\<not> (ss_egress s \<and> ss_enabled s)" if "s \<in> set (state_list_sources (snd demo_added))" for s
    using session_egress [OF list_lru_laws demo_arrow_documented demo_trace _ that]
    by (auto simp: demo_args_def)
  then show ?thesis by (auto simp: list_all_iff)
qed

end
