(* ===== verification/Catalog_Properties.thy ===== *)
theory Catalog_Properties
  imports Samples Functions
begin

text \<open>
  The properties of what the worker publishes: the documented columns and categories, and the
  reference view of source kinds against the registry that accepts them.
\<close>

section \<open>Documentation\<close>

lemma category_tag:
  assumes "map_of rest ''vgi.category'' = Some cat"
  shows "map_of (fm_tags (described d r (object_tags a b c k @ rest))) ''vgi.category'' = Some cat"
  using assms by (simp add: described_tag)

lemma published_categories:
  "map_of (fm_tags symbolicate_metadata) ''vgi.category'' = Some ''Resolution''"
  "map_of (fm_tags function_name_metadata) ''vgi.category'' = Some ''Resolution''"
  "map_of (fm_tags inline_frames_metadata) ''vgi.category'' = Some ''Resolution''"
  "map_of (fm_tags (demangle_metadata with_lang)) ''vgi.category'' = Some ''Demangling''"
  "map_of (fm_tags module_info_blob_metadata) ''vgi.category'' = Some ''Modules''"
  "map_of (fm_tags module_info_path_metadata) ''vgi.category'' = Some ''Modules''"
  "map_of (fm_tags cache_status_metadata) ''vgi.category'' = Some ''Cache''"
  "map_of (fm_tags cache_evict_metadata) ''vgi.category'' = Some ''Cache''"
  "map_of (fm_tags add_source_metadata) ''vgi.category'' = Some ''Sources''"
  "map_of (fm_tags sources_metadata) ''vgi.category'' = Some ''Sources''"
  "map_of (fm_tags drop_source_metadata) ''vgi.category'' = Some ''Sources''"
  unfolding symbolicate_metadata_def function_name_metadata_def inline_frames_metadata_def
    demangle_metadata_def module_info_blob_metadata_def module_info_path_metadata_def
    cache_status_metadata_def cache_evict_metadata_def add_source_metadata_def sources_metadata_def
    drop_source_metadata_def Let_def case_prod_beta
  by (rule category_tag; simp)+

lemma documented_tables:
  shows "documents module_info_blob_metadata info_schema"
  "documents module_info_path_metadata info_schema"
  "documents cache_status_metadata status_schema"
  "documents cache_evict_metadata evict_schema"
  "documents add_source_metadata add_source_schema"
  "documents sources_metadata sources_schema"
  "documents drop_source_metadata drop_source_schema"
proof -
  show "documents module_info_blob_metadata info_schema"
    unfolding module_info_blob_metadata_def Let_def case_prod_beta
    by (rule documents_described [OF info_rows]) simp
  show "documents module_info_path_metadata info_schema"
    unfolding module_info_path_metadata_def Let_def case_prod_beta
    by (rule documents_described [OF info_rows]) simp
  show "documents cache_status_metadata status_schema"
    unfolding cache_status_metadata_def by (rule documents_described [OF status_rows]) simp
  show "documents cache_evict_metadata evict_schema"
    unfolding cache_evict_metadata_def by (rule documents_described [OF evict_rows]) simp
  show "documents add_source_metadata add_source_schema"
    unfolding add_source_metadata_def by (rule documents_described [OF add_source_rows]) simp
  show "documents sources_metadata sources_schema"
    unfolding sources_metadata_def by (rule documents_described [OF sources_rows]) simp
  show "documents drop_source_metadata drop_source_schema"
    unfolding drop_source_metadata_def by (rule documents_described [OF drop_source_rows]) simp
qed

text \<open>The return types the metadata of the scalar functions names.\<close>

lemma published_return_types:
  "fm_return_type symbolicate_metadata = None"
  "fm_return_type function_name_metadata = Some function_name_bind"
  "fm_return_type inline_frames_metadata = Some inline_frames_bind"
  "fm_return_type (demangle_metadata with_lang) = Some demangle_bind"
  unfolding symbolicate_metadata_def function_name_metadata_def inline_frames_metadata_def
    demangle_metadata_def described_def
  by (simp_all add: function_name_bind_def inline_frames_bind_def demangle_bind_def)

definition bind_documented :: "sql_function \<Rightarrow> bool" where
  "bind_documented f \<longleftrightarrow>
     (case fn_bind f of
        BindSchema fs opaque_data \<Rightarrow> documents (fn_metadata f) fs
      | BindResult t \<Rightarrow> (case fm_return_type (fn_metadata f) of Some t' \<Rightarrow> t' = t | None \<Rightarrow> True))"

text \<open>
  C39: what the worker publishes about its functions is what they do. For every function registered
  at start-up the documented result columns are, in order, the names and SQL types of the schema it
  binds, and a documented return type is the type it binds; its arguments have distinct names and
  positions that count up from zero, and two functions of one name differ in the types of their
  positional arguments. The catalog is published under the name of the environment variable, or
  else as \<^verbatim>\<open>symbols\<close>, and its one schema lists the category of every function.
\<close>

theorem documented_columns:
  "list_all bind_documented (fst (start_up version var)) \<and>
   list_all (well_declared \<circ> fn_args) (fst (start_up version var)) \<and>
   distinct (map overload_of (fst (start_up version var))) \<and>
   cg_name (snd (start_up version var)) = (case var of Some (Unicode s) \<Rightarrow> s | _ \<Rightarrow> ''symbols'') \<and>
   (\<exists>sch rows. cg_schemas (snd (start_up version var)) = [sch] \<and>
     Option.bind (map_of (sc_tags sch) ''vgi.categories'') json_table = Some rows \<and>
     list_all (\<lambda>f. \<exists>cat. map_of (fm_tags (fn_metadata f)) ''vgi.category'' = Some cat \<and>
       Some cat \<in> set (map (\<lambda>row. map_of row ''name'') rows)) (fst (start_up version var)))"
proof (intro conjI registered_well_declared registered_overloads)
  show "list_all bind_documented (fst (start_up version var))"
    by (simp add: registered_functions function_objects bind_documented_def documented_tables
        published_return_types)
  show "cg_name (snd (start_up version var)) = (case var of Some (Unicode s) \<Rightarrow> s | _ \<Rightarrow> ''symbols'')"
    by (simp add: start_up_def catalog_metadata_def catalog_name_def split: option.split env_value.split)
next
  obtain rows where rows: "categories_text = print_table categories_layout rows" "rows \<noteq> []"
    "list_all printable_row rows" and names: "map (\<lambda>row. map_of row ''name'') rows =
       map Some [''Resolution'', ''Demangling'', ''Modules'', ''Cache'', ''Sources'']"
    using categories_rows by blast
  have "map_of (sc_tags main_schema) ''vgi.categories'' = Some categories_text"
    unfolding main_schema_def cat_schema.simps by simp
  with rows json_table_print [OF categories_layout_blank rows(2,3)]
  have "Option.bind (map_of (sc_tags main_schema) ''vgi.categories'') json_table = Some rows" by simp
  moreover have "list_all (\<lambda>f. \<exists>cat. map_of (fm_tags (fn_metadata f)) ''vgi.category'' = Some cat \<and>
       Some cat \<in> set (map (\<lambda>row. map_of row ''name'') rows)) (fst (start_up version var))"
    unfolding names by (simp add: registered_functions function_objects published_categories)
  moreover have "cg_schemas (snd (start_up version var)) = [main_schema]"
    by (simp add: start_up_def catalog_metadata_def)
  ultimately show "\<exists>sch rows. cg_schemas (snd (start_up version var)) = [sch] \<and>
     Option.bind (map_of (sc_tags sch) ''vgi.categories'') json_table = Some rows \<and>
     list_all (\<lambda>f. \<exists>cat. map_of (fm_tags (fn_metadata f)) ''vgi.category'' = Some cat \<and>
       Some cat \<in> set (map (\<lambda>row. map_of row ''name'') rows)) (fst (start_up version var))"
    by blast
qed

section \<open>The reference view of source kinds\<close>

text \<open>
  A row of the view is truthful when its locality is that of its egress flag, and a registration
  that names its kind and passes only its locator argument is refused exactly when that argument
  is missing or empty, and else appends a source of that kind, with that egress flag, which is
  enabled when it is local and disabled when it is remote.
\<close>

definition only :: "str \<Rightarrow> str option \<Rightarrow> str \<Rightarrow> str option" where
  "only locator x arg = (if arg = locator then x else None)"

definition truthful :: "kind_row \<Rightarrow> bool" where
  "truthful row \<longleftrightarrow> (case row of (kind, locality, egress, locator, about) \<Rightarrow>
     locality = (if egress then ''remote'' else ''local'') \<and>
     (\<forall>r x. let add = (\<lambda>x. registry_add kind (only locator x ''path'') (only locator x ''url'')
           (only locator x ''bucket'') None None r)
        in (isl (fst (add x)) \<longleftrightarrow> is_missing x) \<and>
           (\<not> is_missing x \<longrightarrow>
             map (\<lambda>s. (ss_kind s, ss_egress s, ss_enabled s)) (rg_sources (snd (add x))) =
               map (\<lambda>s. (ss_kind s, ss_egress s, ss_enabled s)) (rg_sources r) @
                 [(kind, egress, \<not> egress)])))"

lemma listed_kinds:
  "map (\<lambda>(k, l, e, a, d). (k, l, e, a)) source_kinds =
     [(''dir'', ''local'', False, ''path''), (''glob'', ''local'', False, ''path''),
      (''debuginfod'', ''remote'', True, ''url''), (''s3'', ''remote'', True, ''bucket''),
      (''http'', ''remote'', True, ''url'')]"
  by (simp add: source_kinds_def)

lemma listed_cases:
  assumes "(k, l, e, a, d) \<in> set source_kinds"
  shows "(k, l, e, a) \<in> {(''dir'', ''local'', False, ''path''), (''glob'', ''local'', False, ''path''),
      (''debuginfod'', ''remote'', True, ''url''), (''s3'', ''remote'', True, ''bucket''),
      (''http'', ''remote'', True, ''url'')}"
proof -
  have "(k, l, e, a) \<in> set (map (\<lambda>(k, l, e, a, d). (k, l, e, a)) source_kinds)"
    unfolding set_map using assms by (rule rev_image_eqI) simp
  then show ?thesis unfolding listed_kinds list.set .
qed

lemma listed_plain:
  assumes "(k, l, e, a, d) \<in> set source_kinds"
  shows "lowercase (trim k) = k"
proof -
  have "trim ''dir'' = ''dir''" "trim ''glob'' = ''glob''" "trim ''debuginfod'' = ''debuginfod''"
    "trim ''s3'' = ''s3''" "trim ''http'' = ''http''"
    by (rule trim_graphic; simp add: is_ascii_graphic_def)+
  moreover have "lowercase ''dir'' = ''dir''" "lowercase ''glob'' = ''glob''"
    "lowercase ''debuginfod'' = ''debuginfod''" "lowercase ''s3'' = ''s3''" "lowercase ''http'' = ''http''"
    by code_simp+
  ultimately show ?thesis
    using listed_cases [OF assms] by (elim insertE emptyE Pair_inject) (simp_all only:)
qed

lemma listed_errors:
  assumes "(k, l, e, a, d) \<in> set source_kinds"
  shows "add_error k (only a x ''path'') (only a x ''url'') (only a x ''bucket'') = None \<longleftrightarrow> \<not> is_missing x"
    "k \<in> {''debuginfod'', ''s3'', ''http''} \<longleftrightarrow> e"
    "l = (if e then ''remote'' else ''local'')"
  using listed_cases [OF assms]
  by (elim insertE emptyE Pair_inject; simp add: add_error_def only_def)+

lemma listed_truthful:
  assumes "row \<in> set source_kinds"
  shows "truthful row"
proof -
  obtain k l e a d where row: "row = (k, l, e, a, d)" by (cases row)
  note listed = assms [unfolded row]
  have egress: "k = ''debuginfod'' \<or> k = ''s3'' \<or> k = ''http'' \<longleftrightarrow> e"
    using listed_errors(2) [OF listed] by simp
  show ?thesis
    unfolding row truthful_def case_prod_conv registry_add_def Let_def listed_plain [OF listed]
    using listed_errors(1,3) [OF listed] by (simp add: egress flip: not_None_eq split: option.split)
qed

lemma added_kinds:
  assumes "isl (fst (registry_add kind path url bucket enabled secret r)) = False"
  shows "lowercase (trim kind) \<in> insert ''inline'' (fst ` set source_kinds)"
  using assms by (auto simp: registry_add_def Let_def add_error_def source_kinds_def split: if_splits)

lemma inline_added: "\<not> isl (fst (registry_add ''inline'' path url bucket enabled secret r))"
  unfolding registry_add_def plain_kinds lower_kinds by (simp add: Let_def add_error_def)

text \<open>
  C40: the reference view of source kinds against the registry it describes: each of its rows is
  truthful, and no registration of a kind outside the view is accepted, except \<^verbatim>\<open>inline\<close>: the
  view speaks of the five kinds \<^verbatim>\<open>add_source\<close> accepts, and \<^verbatim>\<open>inline\<close>, which is in no row, is
  always accepted.
\<close>

theorem source_kinds_truthful:
  "list_all truthful source_kinds \<and>
   (\<not> isl (fst (registry_add kind path url bucket enabled secret r)) \<longrightarrow>
      lowercase (trim kind) = ''inline'' \<or> lowercase (trim kind) \<in> fst ` set source_kinds) \<and>
   ''inline'' \<notin> fst ` set source_kinds \<and>
   \<not> isl (fst (registry_add ''inline'' None None None None None r))"
proof (intro conjI impI)
  show "''inline'' \<notin> fst ` set source_kinds" by (simp add: source_kinds_def)
qed (use listed_truthful added_kinds inline_added in \<open>auto simp: list_all_iff\<close>)

theorem source_kinds_truthful_witness:
  "map (\<lambda>s. (ss_kind s, ss_egress s, ss_enabled s))
     (rg_sources (snd (registry_add ''s3'' None None (Some ''crash-symbols'') None None registry_new))) =
       [(''s3'', True, False)] \<and>
   (lowercase (trim ''S3'') = ''inline'' \<or> lowercase (trim ''S3'') \<in> fst ` set source_kinds)"
proof
  have "truthful row" if "row \<in> set source_kinds" for row
    using source_kinds_truthful that by (simp add: list_all_iff)
  from this [of "(''s3'', ''remote'', True, ''bucket'', ''An S3 bucket of debug files; opt-in, '' @
       ''disabled by default, credentials via a named secret.'')"]
  have "truthful (''s3'', ''remote'', True, ''bucket'', ''An S3 bucket of debug files; opt-in, '' @
       ''disabled by default, credentials via a named secret.'')" by (simp add: source_kinds_def)
  then show "map (\<lambda>s. (ss_kind s, ss_egress s, ss_enabled s))
   (rg_sources (snd (registry_add ''s3'' None None (Some ''crash-symbols'') None None registry_new))) =
     [(''s3'', True, False)]"
   unfolding truthful_def case_prod_conv Let_def
   by (elim conjE allE [where x = registry_new] allE [where x = "Some ''crash-symbols''"])
     (simp add: only_def is_missing_def registry_new_def)
  have "\<not> isl (fst (registry_add ''S3'' None None (Some ''crash-symbols'') None None registry_new))"
  proof -
    have "trim ''S3'' = ''S3''" by (rule trim_graphic; simp add: is_ascii_graphic_def)
    moreover have "lowercase ''S3'' = ''s3''" by code_simp
    ultimately have "lowercase (trim ''S3'') = ''s3''" by (simp only:)
    then show ?thesis unfolding registry_add_def Let_def by (simp add: add_error_def is_missing_def)
  qed
  with source_kinds_truthful show
    "lowercase (trim ''S3'') = ''inline'' \<or> lowercase (trim ''S3'') \<in> fst ` set source_kinds" by blast
qed

end
