(* ===== verification/Spec2Isabelle.thy ===== *)
theory Spec2Isabelle
  imports Module_Properties Cache_Properties Source_Properties Worker_Properties Session_Properties
    Catalog_Properties
begin

text \<open>
  A verification development for \<^bold>\<open>vgi-symbols\<close>, the DuckDB worker that turns pairs of build-id
  and address into source-level frames. The repository has two crates: \<^verbatim>\<open>crates/symbols-core\<close>
  (identities, debug modules, the cache and the sources) and \<^verbatim>\<open>crates/symbols-worker\<close> (the
  functions offered to SQL). The theories follow the source files; definitions keep the names
  of the Rust items, with a prefix where two items share a name.

  \<^bold>\<open>How the parts interact.\<close> A scalar function reads a build-id and an address from each row and
  calls the one shared state under its lock. The state asks the cache whether a parsed module
  is resident for the token, else the negative cache, else the registry of sources, which
  indexes directories and globs lazily by probing the identity of every file. A located file is
  parsed by the DWARF or the PDB reader under a byte cap and with panics contained, put into
  the cache under all its tokens, and older modules are evicted to the byte budget. The index
  of everything ever seen can be exported as a manifest and imported by a fresh worker.

  \<^bold>\<open>Theories and sources.\<close>
  \<^item> \<open>Rust_Prelude\<close>: panics as the type \<open>outcome\<close>, and what is used of the standard library:
    ASCII and UTF-8 strings, \<^verbatim>\<open>trim\<close>, \<^verbatim>\<open>split\<close>, numbers, \<^verbatim>\<open>dedup_by_key\<close>, \<^verbatim>\<open>binary_search\<close>,
    hash maps as association lists, and the locales for machines with an invariant.
  \<^item> \<open>Errors\<close>, \<open>Frames\<close>, \<open>Identity\<close>, \<open>Module_Base\<close>, \<open>Dwarf_Module\<close>, \<open>Pdb_Module\<close>,
    \<open>Parsed_Module\<close>: \<^verbatim>\<open>errors.rs\<close>, \<^verbatim>\<open>frame.rs\<close>, \<^verbatim>\<open>id.rs\<close>, \<^verbatim>\<open>demangle.rs\<close>, \<^verbatim>\<open>module/*.rs\<close>. The
    contract that both kinds of module keep is the locale \<open>module_backend\<close>, interpreted for each.
  \<^item> \<open>Crates\<close>: what the code sees of \<^verbatim>\<open>object\<close>, \<^verbatim>\<open>gimli\<close>, \<^verbatim>\<open>addr2line\<close>, \<^verbatim>\<open>pdb-addr2line\<close>, \<^verbatim>\<open>debugid\<close>
    and \<^verbatim>\<open>symbolic-demangle\<close>: records of results, arguments of every definition that calls them.
  \<^item> \<open>Lru\<close>: the interface \<open>lru_laws\<close> of the \<^verbatim>\<open>lru\<close> crate, what its documentation says of the
    operations called, with a list that satisfies it. \<open>Manifest\<close>, \<open>Symbol_Cache\<close>:
    \<^verbatim>\<open>cache/manifest.rs\<close>, \<^verbatim>\<open>cache/mod.rs\<close>. \<open>Cache_Laws\<close> has the invariant of the cache and the
    facts about each operation over any LRU with the laws (locale \<open>resident_lru\<close>),
    \<open>Cache_Spec\<close> the cache as a partial map from tokens to modules.
  \<^item> \<open>Paths\<close>, \<open>Local_Sources\<close>, \<open>Source_Registry\<close>: \<^verbatim>\<open>source/local.rs\<close>, \<^verbatim>\<open>source/mod.rs\<close>. The file
    system is the record \<open>world\<close>. \<open>hits\<close> lists what the sources offer in order, and the index
    is shown to be its first-match map however it was built.
  \<^item> \<open>Symbols_State\<close>: \<^verbatim>\<open>state.rs\<close>, the runs of the worker (\<open>reachable\<close>) and their invariant;
    \<open>State_Spec\<close>: the answer of one resolution as one expression; \<open>Handoff\<close>: the manifest
    written and read back; \<open>Transparency\<close>: the cache against the sources alone.
  \<^item> \<open>Columns\<close>, \<open>Arrow_Output\<close>, \<open>Scalar_Functions\<close>, \<open>Table_Functions\<close>, \<open>Metadata\<close>: \<^verbatim>\<open>util.rs\<close>,
    \<^verbatim>\<open>schema.rs\<close>, \<^verbatim>\<open>scalar/*.rs\<close>, \<^verbatim>\<open>table/*.rs\<close>, \<^verbatim>\<open>meta.rs\<close>. An Arrow array is its type with its cells.
    \<open>Signatures\<close> has what every function declares (\<^verbatim>\<open>argument_specs\<close>) and the catalog name of
    \<^verbatim>\<open>main.rs\<close>.
  \<^item> \<open>Descriptions\<close>, \<open>Catalog\<close>: the \<^verbatim>\<open>metadata\<close> of every function and \<^verbatim>\<open>catalog.rs\<close>, text for text.
    The columns and categories published as JSON are read back by the reader of \<open>Metadata\<close>.
  \<^item> \<open>Sessions\<close>: the worker as its client sees it. \<open>worker_call\<close> is one call of one function, with
    its arguments, over the shared state; a \<open>session\<close> is a sequence of calls and replies from the
    start of the process. The locale \<open>session_invariant\<close> is the interface of a fact about
    sessions; \<open>worker_session\<close> has it three times, for the sources, the whole state and the lock.
  \<^item> \<open>Functions\<close>: the function objects (the \<^verbatim>\<open>impl\<close> blocks), their registration in \<^verbatim>\<open>scalar/mod.rs\<close>
    and \<^verbatim>\<open>table/mod.rs\<close>, what \<^verbatim>\<open>main\<close> hands to the SDK, and the object each call calls.
    \<open>Global_State\<close>: the global mutex of the worker's \<^verbatim>\<open>state.rs\<close> with poisoning, and the critical
    section of each call. \<open>Fuzz_Targets\<close>: the three harnesses of \<^verbatim>\<open>fuzz/fuzz_targets\<close>,
    run as the worker runs and under the abort-on-panic hook of \<^verbatim>\<open>cargo-fuzz\<close>.
  \<^item> \<open>Samples\<close>: concrete crates, files, modules and states on which the hypotheses hold.
    \<open>Module_Properties\<close>, \<open>Cache_Properties\<close>, \<open>Source_Properties\<close>, \<open>Worker_Properties\<close>,
    \<open>Session_Properties\<close>, \<open>Catalog_Properties\<close>: the properties of the components; this theory:
    those that span several.

  \<^bold>\<open>What the properties show.\<close> C1 is the refinement of a resolution to its specification, C2 and
  C3 that, while the sources and files stay as they are, caching never changes an answer and a
  batch is a map over its rows, C4 to C8 the invariant of the state and its behaviour on errors, panics and misses, C9 and C10 the
  hand-off, C11 the fast path, C12 to C16 the worker as a whole: every call is served unless the
  identity parsers panic on a file being indexed, replies have the type bound, the lock serializes
  and survives panics, the registry is a list of ids, and egress happens only on request; C17 to
  C24 the cache, C25 to C28 the sources, C29 to C35 modules, identities and the fuzz targets, C36
  and C37 demangling and declared arguments, C38 keywords, C39 and C40 what the catalog documents
  against what the functions do.

  \<^bold>\<open>Hypotheses.\<close> \<open>lru_laws\<close> and \<open>arrow_documented\<close> are the documented behaviour of two crates.
  \<open>probes_return\<close> says that the identity parsers do not panic on the files indexed (indexing
  runs them outside \<^verbatim>\<open>catch_unwind\<close>; C12 and C14 say what happens when they do);
  \<open>world_stable\<close> that a file reads back as it was mapped; \<open>unambiguous\<close> that no two files located
  claim a token for different modules. Each has an instance in \<open>Samples\<close>.

  \<^bold>\<open>Machine integers, bounds and fuel.\<close> 64-bit counters are words and wrap around, as a release
  build does. The eviction loops take the number of resident modules as fuel: each round
  removes one, and \<open>evict_loop_done\<close> and \<open>cache_evict_none\<close> show that they stop by their own
  guard. \<open>trim\<close> takes the length of the string, each round drops a byte. Every other loop is
  structural or has a termination proof; the file system is a finite tree because the walk does
  not follow links. The wall clock is an argument of the operations that read it. A reply is
  \<open>drain\<close>ed with two polls: C12 shows that the second always answers that there is no more.
  Sessions are bounded by \<open>2 ^ 64 - 1\<close> calls, before which the counter of ids cannot wrap.

  \<^bold>\<open>Not modelled.\<close> The third-party crates (parameters); logging and the loop of the SDK that
  reads requests and dispatches them (\<^verbatim>\<open>main.rs\<close>); the byte format of the manifest, of which
  \<open>reads_back\<close> says only that \<^verbatim>\<open>serde_json\<close> reads what it wrote; that the lock makes calls wait
  (they are taken one at a time, in some order); module declarations, imports and tests.
\<close>

section \<open>The flow of one resolution\<close>

text \<open>
  C1: in every state the worker can reach, resolving a token and an address returns the answer
  of one decision: the module resident for the token; else not found for a known miss; else
  the first source with a file for the token, whose module (parsed under the caps) answers, or
  whose parse error is the one row. The parsers must not panic on the identities of the indexed
  files, and files must not change between being indexed and being read.
\<close>

theorem resolve_answers:
  assumes "lru_laws L" "reachable L K W st" "probes_return W K" "world_stable W"
  shows "fst (state_resolve L K W clock token addr st) =
    Returned (resolve_answer L K W st token addr)"
proof -
  note R = resident_lru.intro [OF assms(1)]
  show ?thesis
    using resident_lru.state_resolve_spec [OF R resident_lru.reachable_state_inv [OF R assms(2)] assms(3,4)]
    by blast
qed

lemma demo_module_for: "module_for list_lru demo demo_world demo_state ''AB-CD'' = Some (Inr demo_module)"
proof -
  have cache: "st_cache demo_state = cache_new list_lru 10 2" "st_limits demo_state = default_limits"
    by (simp_all add: demo_state_def demo_fresh_def state_with_budgets_def state_add_source_def
        case_prod_beta)
  have "locate_indexed demo_world ''AB-CD''
      (map_of (hits demo_world demo (local_sources (st_sources demo_state)))) = Some
     \<lparr>lc_data = demo_file, lc_name = ''a.debug'', lc_origin = OriginDir ''/srv/a.debug''\<rparr>"
    by (rule demo_located)
  then show ?thesis
    by (simp add: module_for_def located_module_def cache demo_parse resident_module_def
        resolve_debug_id_def is_known_miss_def cache_new_def)
qed

theorem resolve_answers_witness:
  "map_fst_outcome (map rf_function)
     (state_resolve list_lru demo demo_world (\<lambda>n. 5) ''AB-CD'' 0x11 demo_state) =
   (Returned [Some ''leaf'', Some ''outer''],
    snd (state_resolve list_lru demo demo_world (\<lambda>n. 5) ''AB-CD'' 0x11 demo_state))"
proof -
  have "st_limits demo_state = default_limits"
    by (simp add: demo_state_def demo_fresh_def state_with_budgets_def state_add_source_def
        case_prod_beta)
  then have "map rf_function (resolve_answer list_lru demo demo_world demo_state ''AB-CD'' 0x11) =
      [Some ''leaf'', Some ''outer'']"
    by (simp add: resolve_answer_def demo_module_for demo_frames)
  then show ?thesis
    by (simp add: map_fst_outcome_def
        resolve_answers [OF list_lru_laws demo_reachable demo_probes demo_stable])
qed

text \<open>
  C2: the cache is transparent: from a worker with an empty cache, after any sequence of
  resolutions, name lookups, evictions and exports, resolving a token and naming it answer what
  the sources alone say, as if the file were looked up and parsed for this one question: neither
  the resident modules nor the known misses ever change an answer. No two of the files located
  may claim the same token for different modules.
\<close>

theorem cache_transparent:
  assumes "lru_laws L" "reachable L K W st0" "st_cache st0 = cache_new L max_bytes max_modules"
    and "probes_return W K" "world_stable W" "unambiguous (located_module K W st0)"
    and "list_all is_query ops" "st = fold (state_step L K W) ops st0"
  shows "fst (state_resolve L K W clock token addr st) = Returned (source_answer K W st0 token addr) \<and>
    fst (state_function_name L K W clock token addr st) = Returned (source_function K W st0 token addr)"
proof -
  note R = resident_lru.intro [OF assms(1)]
  have "serves L K W st0 st"
    unfolding assms(8)
    by (rule resident_lru.queries_serve [OF R resident_lru.serves_start [OF R assms(2,3)] assms(4-7)])
  from resident_lru.state_resolve_serves(2) [OF R this assms(4-6)]
    resident_lru.state_function_name_serves(2) [OF R this assms(4-6)]
  show ?thesis by blast
qed

lemma demo_table: "located_module demo demo_world demo_state t =
    (if canonical_token t \<in> set (aliases demo_identity) then Some (Inr demo_module) else None)"
proof -
  have "st_limits demo_state = default_limits" by (rule reachable_limits [OF demo_reachable])
  then show ?thesis by (simp add: located_module_def demo_located_all demo_parse)
qed

lemma demo_unambiguous: "unambiguous (located_module demo demo_world demo_state)"
  by (auto simp: unambiguous_def demo_table demo_dwarf_def split: if_splits)

lemma demo_empty: "st_cache demo_state = cache_new list_lru 10 2"
  by (simp add: demo_state_def demo_fresh_def state_with_budgets_def state_add_source_def
      case_prod_beta)

theorem cache_transparent_witness:
  "map_fst_outcome (map rf_function)
     (state_resolve list_lru demo demo_world (\<lambda>n. 9) ''abcd'' 0x11
        (fold (state_step list_lru demo demo_world)
           [OpResolve (\<lambda>n. 5) ''AB-CD'' 0x12, OpEvict None, OpFunctionName (\<lambda>n. 6) ''77'' 0x11, OpExport]
           demo_state)) =
   (Returned [Some ''leaf'', Some ''outer''],
    snd (state_resolve list_lru demo demo_world (\<lambda>n. 9) ''abcd'' 0x11
        (fold (state_step list_lru demo demo_world)
           [OpResolve (\<lambda>n. 5) ''AB-CD'' 0x12, OpEvict None, OpFunctionName (\<lambda>n. 6) ''77'' 0x11, OpExport]
           demo_state)))"
proof -
  let ?ops = "[OpResolve (\<lambda>n. 5) ''AB-CD'' 0x12, OpEvict None, OpFunctionName (\<lambda>n. 6) ''77'' 0x11, OpExport]"
  have "st_limits demo_state = default_limits" by (rule reachable_limits [OF demo_reachable])
  then have "map rf_function (source_answer demo demo_world demo_state ''abcd'' 0x11) =
      [Some ''leaf'', Some ''outer'']"
    by (simp add: source_answer_def table_answer_def demo_table demo_tokens demo_alias demo_frames)
  moreover have "fst (state_resolve list_lru demo demo_world (\<lambda>n. 9) ''abcd'' 0x11
      (fold (state_step list_lru demo demo_world) ?ops demo_state)) =
    Returned (source_answer demo demo_world demo_state ''abcd'' 0x11)"
    using cache_transparent [OF list_lru_laws demo_reachable demo_empty demo_probes demo_stable
        demo_unambiguous _ refl, of ?ops]
    by (simp del: fold.simps)
  ultimately show ?thesis unfolding map_fst_outcome_def by (simp del: fold.simps)
qed

text \<open>
  C3: symbolicating a batch is a map over its rows: from a worker with an empty cache, after any
  sequence of resolutions, name lookups, evictions and exports (no source is added or dropped in
  between), the rows of \<^verbatim>\<open>symbolicate\<close>, the chains of \<^verbatim>\<open>inline_frames\<close> and the names of
  \<^verbatim>\<open>function_name\<close> are, row by row, those of the sources' answer to the row's own cells. So the
  order of the rows, the batch they come in, what of this kind was asked before and what the cache
  has evicted since make no difference. No two of the files located may claim the same token for
  different modules, files must not change and the identity parsers must not panic on them. What
  happens when a source is added after a token was searched for is C8.
\<close>

theorem symbolicate_is_map:
  assumes "lru_laws L" "reachable L K W st0" "st_cache st0 = cache_new L max_bytes max_modules"
    and "probes_return W K" "world_stable W" "unambiguous (located_module K W st0)"
    and "list_all is_query ops" "st = fold (state_step L K W) ops st0"
  shows "fst (symbolicate L K W clock build addr rows st) =
      Returned (map (symbolicate_row_of \<circ> cells_answer K W st0) (frame_cells build addr rows)) \<and>
    fst (inline_frames L K W clock build addr rows st) =
      Returned (map (inline_chain \<circ> cells_answer K W st0) (frame_cells build addr rows)) \<and>
    fst (function_name_column L K W clock build addr rows st) =
      Returned (map (cells_function K W st0) (frame_cells build addr rows))"
proof -
  note R = resident_lru.intro [OF assms(1)]
  have "serves L K W st0 st"
    unfolding assms(8)
    by (rule resident_lru.queries_serve [OF R resident_lru.serves_start [OF R assms(2,3)] assms(4-7)])
  from resident_lru.batches_serve [OF R this assms(4-6)] show ?thesis by blast
qed

theorem symbolicate_is_map_witness:
  "fst (symbolicate list_lru demo demo_world (\<lambda>i n. 5)
      (Utf8 [Some ''abcd'', None, Some ''77'']) (UInt64 [Some 0x11, Some 0x11, Some 0x11]) 3 demo_state) =
   Returned [symbolicate_row_of (source_answer demo demo_world demo_state ''abcd'' 0x11),
     symbolicate_row_of [not_found_frame],
     symbolicate_row_of (source_answer demo demo_world demo_state ''77'' 0x11)]"
  using symbolicate_is_map [OF list_lru_laws demo_reachable demo_empty demo_probes demo_stable
      demo_unambiguous, of "[]" demo_state "\<lambda>i n. 5"
      "Utf8 [Some ''abcd'', None, Some ''77'']" "UInt64 [Some 0x11, Some 0x11, Some 0x11]" 3]
  by (simp add: frame_cells_def build_id_at_def address_at_def cells_answer_def upt_rec)

text \<open>
  C4: every state reached from a fresh one by operations of the worker, in any order, keeps
  the invariant: that of the cache, distinct source ids all below the next one, and a local
  index that holds exactly what the indexed sources offer. The operations include those that
  unwind with a panic. So do the row functions over a whole batch, whether it was answered or
  an identity parser panicked in the middle of a row.
\<close>

theorem reachable_ok:
  assumes "lru_laws L" "reachable L K W st"
  shows "state_inv L W K st \<and>
    state_inv L W K (snd (symbolicate L K W clock build addr rows st)) \<and>
    state_inv L W K (snd (inline_frames L K W clock build addr rows st)) \<and>
    state_inv L W K (snd (function_name_column L K W clock build addr rows st))"
proof -
  note R = resident_lru.intro [OF assms(1)]
  have "state_inv L W K st" by (rule resident_lru.reachable_state_inv [OF R assms(2)])
  then show ?thesis
    by (intro conjI resident_lru.symbolicate_inv [OF R] resident_lru.inline_frames_inv [OF R]
        resident_lru.function_name_column_inv [OF R])
qed

theorem reachable_ok_witness:
  "state_inv list_lru demo_world demo
     (snd (symbolicate list_lru demo demo_world (\<lambda>i n. 5)
        (Utf8 [Some ''abcd'', None]) (Int64 [Some 0x11, Some 0x12]) 2
        (state_step list_lru demo demo_world (OpResolve (\<lambda>n. 5) ''AB-CD'' 0x11) demo_state)))"
proof -
  have "reachable list_lru demo demo_world
      (state_step list_lru demo demo_world (OpResolve (\<lambda>n. 5) ''AB-CD'' 0x11) demo_state)"
    by (rule reachable.step [OF demo_reachable]) simp
  from reachable_ok [OF list_lru_laws this] show ?thesis by blast
qed

text \<open>
  \<^verbatim>\<open>symbolicate\<close> over a batch gives one row per input row, whatever the cells are (nulls and
  cells of another type included), and each row is the physical frame of a well-formed answer
  with the frames before it as its inline chain: no row aborts the batch.
\<close>

lemma symbolicate_rows:
  assumes "lru_laws L" "reachable L K W st" "probes_return W K" "world_stable W"
  shows "\<exists>rs. fst (symbolicate L K W clock build addr rows st) = Returned rs \<and> length rs = rows \<and>
    list_all (\<lambda>r. \<exists>fs. frames_wf fs \<and> status_uniform fs \<and>
       sy_function r = rf_function (last fs) \<and> sy_status r = as_status (rf_status (last fs)) \<and>
       sy_inlined r = map (\<lambda>f. (rf_function f, rf_file f, rf_line f)) (butlast fs)) rs"
proof -
  note R = resident_lru.intro [OF assms(1)]
  let ?Q = "\<lambda>r. \<exists>fs. frames_wf fs \<and> status_uniform fs \<and>
       sy_function r = rf_function (last fs) \<and> sy_status r = as_status (rf_status (last fs)) \<and>
       sy_inlined r = map (\<lambda>f. (rf_function f, rf_file f, rf_line f)) (butlast fs)"
  have row: "?Q (symbolicate_row_of fs)" if "frames_wf fs" "status_uniform fs" for fs
    using that by (intro exI [of _ fs])
      (auto simp: symbolicate_row_of_def inline_chain_def butlast_conv_take frames_wf_def Let_def)
  have "\<exists>rs. fst (symbolicate L K W clock build addr rows st) = Returned rs \<and>
      length rs = length (frame_cells build addr rows) \<and> list_all ?Q rs"
    unfolding symbolicate_def
  proof (rule for_rows_returns [where P = "state_inv L W K"])
    fix i cells and s :: "'a symbols_state"
    assume inv: "state_inv L W K s"
    obtain fs where fs: "fst (row_frames L K W (clock i) cells s) = Returned fs"
      "frames_wf fs" "status_uniform fs"
      using resident_lru.row_frames_answer [OF R inv assms(3,4)] by blast
    then show "\<exists>r. fst (map_fst_outcome symbolicate_row_of (row_frames L K W (clock i) cells s)) =
        Returned r \<and> ?Q r"
      using row [OF fs(2,3)] by (simp add: map_fst_outcome_def)
    show "state_inv L W K (snd (map_fst_outcome symbolicate_row_of (row_frames L K W (clock i) cells s)))"
      using resident_lru.row_frames_inv [OF R inv] by (simp add: map_fst_outcome_def)
  qed (rule resident_lru.reachable_state_inv [OF R assms(2)])
  then show ?thesis by simp
qed

text \<open>
  C5: whatever the state and the inputs, a resolution that returns gives a well-formed answer:
  at least one frame, numbered from the innermost, only the last one physical, either all
  \<^verbatim>\<open>ok\<close> or one that says why not, and no more frames than the inline-depth cap.
\<close>

theorem resolve_well_formed:
  "case fst (state_resolve L K W clock token addr st) of
     Panicked \<Rightarrow> True
   | Returned fs \<Rightarrow> frames_wf fs \<and> status_uniform fs \<and>
       length fs \<le> max 1 (lim_max_inline_depth (st_limits st))"
proof -
  have cached: "frames_wf fs \<and> status_uniform fs \<and> length fs \<le> max 1 (lim_max_inline_depth lim)"
    if "cache_resolve L K now token addr lim s = (Some fs, s')" for now lim s s' fs
    using that parsed_resolve_answer parsed_resolve_length
    by (auto simp: cache_resolve_def split: option.splits)
  obtain r0 c0 where c0: "cache_resolve L K (clock 0) token addr (st_limits st) (st_cache st) = (r0, c0)"
    by (cases "cache_resolve L K (clock 0) token addr (st_limits st) (st_cache st)")
  obtain o1 st1 where e: "ensure_resident L K W (clock 0) token (st\<lparr>st_cache := c0\<rparr>) = (o1, st1)"
    by (cases "ensure_resident L K W (clock 0) token (st\<lparr>st_cache := c0\<rparr>)")
  then have lim: "st_limits st1 = st_limits st"
    using ensure_resident_limits [of L K W "clock 0" token "st\<lparr>st_cache := c0\<rparr>"] by simp
  obtain r1 c1 where c1: "cache_resolve L K (clock 1) token addr (st_limits st1) (st_cache st1) = (r1, c1)"
    by (cases "cache_resolve L K (clock 1) token addr (st_limits st1) (st_cache st1)")
  show ?thesis
    using c0 e c1 lim cached
    by (auto simp: state_resolve_def split: option.splits outcome.splits sum.splits bool.splits)
qed

text \<open>
  C6: a module is parsed once: when a token was answered by a module, the next resolution of
  the token is answered by the same module from memory, without another parse and without
  looking at the sources, whatever has become of the file since.
\<close>

theorem parse_once:
  assumes "lru_laws L" "reachable L K W st" "probes_return W K" "world_stable W"
    and "module_for L K W st token = Some (Inr m)"
  shows "let st1 = snd (state_resolve L K W clock token addr st);
             (res, st2) = state_resolve L K W' clock' token addr' st1
         in res = Returned (parsed_resolve K m addr' (st_limits st)) \<and>
            state_parse_count st2 = state_parse_count st1 \<and> st_sources st2 = st_sources st1"
proof -
  note R = resident_lru.intro [OF assms(1)]
  let ?st1 = "snd (state_resolve L K W clock token addr st)"
  have inv: "state_inv L W K st" by (rule resident_lru.reachable_state_inv [OF R assms(2)])
  have "resident_module L (st_cache ?st1) token = Some m"
    using resident_lru.state_resolve_spec [OF R inv assms(3,4), of clock token addr] assms(5) by simp
  from resident_lru.resident_stays [OF R this, of K W' clock' addr'] show ?thesis
    by (simp add: Let_def case_prod_beta state_resolve_limits)
qed

theorem parse_once_witness:
  "let st1 = snd (state_resolve list_lru demo demo_world (\<lambda>n. 5) ''AB-CD'' 0x11 demo_state);
       (res, st2) = state_resolve list_lru demo (demo_world\<lparr>w_read := \<lambda>p. Inl ''gone''\<rparr>) (\<lambda>n. 6)
         ''AB-CD'' 0x12 st1
   in res = Returned (parsed_resolve demo demo_module 0x12 (st_limits demo_state)) \<and>
      state_parse_count st2 = state_parse_count st1 \<and> st_sources st2 = st_sources st1"
  by (rule parse_once [OF list_lru_laws demo_reachable demo_probes demo_stable demo_module_for])

text \<open>
  C7: a malformed file hurts nobody else: when the file located for a token does not parse,
  the resolution returns the one row of its error, and the cache (modules, index, negative
  cache, counters) is exactly what it was.
\<close>

theorem malformed_isolated:
  assumes "lru_laws L" "resident_module L (st_cache st) token = None"
    and "\<not> is_known_miss (st_cache st) token"
    and "locate W K token (st_sources st) = (rg, Returned (Some loc))"
    and "parse_module K (lc_data loc) (lc_name loc) (st_limits st) = Inl e"
  shows "state_resolve L K W clock token addr st =
    (Returned [error_frame (se_kind e) None], st\<lparr>st_sources := rg\<rparr>)"
proof -
  note R = resident_lru.intro [OF assms(1)]
  have "\<not> is_resident L (st_cache st) token"
    using assms(2) by (simp add: resident_lru.is_resident_module [OF R])
  then have "ensure_resident L K W (clock 0) token st =
      (Returned (Inl (se_kind e)), st\<lparr>st_sources := rg\<rparr>)"
    using assms(3-5) by (simp add: ensure_resident_def)
  then show ?thesis
    by (simp add: state_resolve_def resident_lru.absent_lookup [OF R assms(2)])
qed

theorem malformed_isolated_witness:
  "state_resolve list_lru demo demo_world (\<lambda>n. 5) ''AB-CD'' 0x11 demo_tight =
    (Returned [error_frame AllocCap None],
     demo_tight\<lparr>st_sources := fst (locate demo_world demo ''AB-CD'' (st_sources demo_state))\<rparr>)"
proof -
  let ?loc = "\<lparr>lc_data = demo_file, lc_name = ''a.debug'', lc_origin = OriginDir ''/srv/a.debug''\<rparr>"
  have cache: "st_cache demo_state = cache_new list_lru 10 2"
    by (simp add: demo_state_def demo_fresh_def state_with_budgets_def state_add_source_def
        case_prod_beta)
  obtain rg o' where l: "locate demo_world demo ''AB-CD'' (st_sources demo_state) = (rg, o')"
    by (cases "locate demo_world demo ''AB-CD'' (st_sources demo_state)")
  have "state_inv list_lru demo_world demo demo_state"
    by (rule ref_cache.reachable_state_inv [OF demo_reachable])
  then have "ids_ok (st_sources demo_state)" "index_ok demo_world demo (st_sources demo_state)"
    by (simp_all add: state_inv_def)
  from locate_ok [OF this l] locate_returns [OF demo_probes, of "''AB-CD''" "st_sources demo_state"]
  have at: "o' = Returned (Some ?loc)" by (simp add: l demo_located)
  have "\<exists>e. parse_module demo demo_file ''a.debug'' (st_limits demo_tight) = Inl e \<and> se_kind e = AllocCap"
    by (simp add: parse_module_def demo_tight_def demo_file_def sym_error_new_def)
  then obtain e where parse: "parse_module demo demo_file ''a.debug'' (st_limits demo_tight) = Inl e"
    "se_kind e = AllocCap" by blast
  have "state_resolve list_lru demo demo_world (\<lambda>n. 5) ''AB-CD'' 0x11 demo_tight =
      (Returned [error_frame (se_kind e) None], demo_tight\<lparr>st_sources := rg\<rparr>)"
  proof (rule malformed_isolated [OF list_lru_laws, where loc = ?loc])
    show "parse_module demo (lc_data ?loc) (lc_name ?loc) (st_limits demo_tight) = Inl e"
      using parse(1) by simp
  qed (simp_all add: demo_tight_def cache l at resident_module_def resolve_debug_id_def
      is_known_miss_def cache_new_def)
  then show ?thesis by (simp add: l parse(2))
qed

text \<open>
  C8: a known miss short-circuits: while a token is in the negative cache and no module is
  resident for it, resolving it answers \<^verbatim>\<open>not_found\<close>, and naming it \<^verbatim>\<open>NULL\<close>, without touching
  sources, files or cache; registering another source in between does not change that.
\<close>

theorem known_miss_short_circuit:
  assumes "lru_laws L" "resident_module L (st_cache st) token = None" "is_known_miss (st_cache st) token"
    and "st1 = snd (state_add_source kind path url bucket enabled secret st)"
  shows "state_resolve L K W clock token addr st = (Returned [not_found_frame], st) \<and>
    state_function_name L K W clock token addr st = (Returned None, st) \<and>
    state_resolve L K W clock token addr st1 = (Returned [not_found_frame], st1)"
proof -
  have "st_cache st1 = st_cache st"
    using assms(4) by (simp add: state_add_source_def case_prod_beta)
  with assms(2,3) show ?thesis
    using resident_lru.known_miss_stays [OF resident_lru.intro [OF assms(1)]] by metis
qed

theorem known_miss_short_circuit_witness:
  "fst (state_resolve list_lru demo demo_world (\<lambda>n. 6) ''AB-CD'' 0x11
     (snd (state_add_source ''dir'' (Some ''/srv'') None None None None demo_missed))) =
   Returned [not_found_frame]"
proof -
  have "resident_module list_lru (st_cache demo_missed) ''AB-CD'' = None"
    by (simp add: demo_missed_def demo_fresh_def state_with_budgets_def resident_module_def
        record_miss_def cache_new_def list_lru_def Let_def split: option.split)
  moreover have "is_known_miss (st_cache demo_missed) ''AB-CD''"
    by (simp add: demo_missed_def demo_fresh_def state_with_budgets_def is_known_miss_def
        record_miss_def Let_def)
  ultimately show ?thesis
    using known_miss_short_circuit [OF list_lru_laws _ _ refl] by simp
qed

lemma import_nothing:
  "import_manifest default_manifest (state_with_budgets L max_bytes max_modules) =
     state_with_budgets L max_bytes max_modules"
  by (simp add: import_manifest_def state_with_budgets_def restore_def rehydrate_def
      default_manifest_def registry_new_def)

lemma import_reachable:
  assumes "manifest_ids_ok m"
  shows "reachable L K W (import_manifest m (state_with_budgets L max_bytes max_modules))"
proof -
  have "reachable L K W (state_step L K W (OpImport m) (state_with_budgets L max_bytes max_modules))"
    using assms by (intro reachable.intros) simp
  then show ?thesis by simp
qed

text \<open>
  What an imported manifest answers: nothing is resident, so a token is a miss that one of the
  entries is flagged with, or else what the sources of the manifest have for it. The origins that
  the entries carry are not asked.
\<close>

lemma imported_module_for:
  assumes "lru_laws L"
  shows "module_for L K W (import_manifest m (state_with_budgets L max_bytes max_modules)) token =
    (if canonical_token token \<in>
        (canonical_token \<circ> me_debug_id) ` {e \<in> set (cm_entries m). me_miss e} then None
     else located_module K W (import_manifest m (state_with_budgets L max_bytes max_modules)) token)"
proof -
  let ?st = "import_manifest m (state_with_budgets L max_bytes max_modules)"
  have cache: "st_cache ?st = rehydrate m (cache_new L max_bytes max_modules)"
    by (simp add: import_manifest_def state_with_budgets_def)
  then have "lru_iter L (sc_resident (st_cache ?st)) = []"
    using lru_laws.new [OF assms] by (simp add: cache_new_def)
  then have "resident_module L (st_cache ?st) token = None"
    by (simp add: resident_module_def split: option.split)
  moreover have "sc_negative (st_cache ?st) =
      (canonical_token \<circ> me_debug_id) ` {e \<in> set (cm_entries m). me_miss e}"
    by (simp add: cache rehydrate_def rehydrate_negative cache_new_def)
  ultimately show ?thesis by (simp add: module_for_def is_known_miss_def)
qed

lemma imported_origins:
  assumes "lru_laws L" "map (\<lambda>e. (me_debug_id e, me_miss e)) es = map (\<lambda>e. (me_debug_id e, me_miss e)) (cm_entries m)"
  shows "module_for L K W (import_manifest (m\<lparr>cm_entries := es\<rparr>) (state_with_budgets L max_bytes max_modules)) token =
    module_for L K W (import_manifest m (state_with_budgets L max_bytes max_modules)) token"
proof -
  have flagged: "(canonical_token \<circ> me_debug_id) ` {e \<in> set es. me_miss e} =
      (canonical_token \<circ> fst) ` {p \<in> set (map (\<lambda>e. (me_debug_id e, me_miss e)) es). snd p}"
    for es :: "manifest_entry list"
    by force
  have "located_module K W (import_manifest (m\<lparr>cm_entries := es\<rparr>) (state_with_budgets L max_bytes max_modules)) token =
      located_module K W (import_manifest m (state_with_budgets L max_bytes max_modules)) token"
    by (simp add: located_module_def import_manifest_def state_with_budgets_def cong: option.case_cong)
  moreover have "cm_entries (m\<lparr>cm_entries := es\<rparr>) = es" by simp
  ultimately show ?thesis
    unfolding imported_module_for [OF assms(1)] flagged by (simp only: assms(2))
qed

text \<open>
  C9: a cold start: the exported manifest, written as bytes that \<^verbatim>\<open>serde_json\<close> reads back, can
  be imported into a fresh worker, which then has the same sources and the same index entries (with
  the live statistics), and nothing resident. Its known misses are the tokens of the entries that
  carry the miss flag, which need not be those of the exporter: recording a miss for a token that has
  an entry already, as it does when its module was found before, leaves the entries as they are, so
  this miss is not handed off. Every token but the known misses is answered from the sources, looked
  up there again and parsed anew: whatever origins the entries carry makes no difference. An empty or
  corrupt blob leaves the worker fresh.
\<close>

theorem cold_start:
  assumes "lru_laws L" "reachable L K W st"
    and "reads_back J (fst (export_manifest L st))"
  shows "let (m, st1) = export_manifest L st;
      fresh = state_with_budgets L max_bytes max_modules;
      st2 = import_manifest (manifest_from_bytes J (manifest_to_bytes J m)) fresh
    in reachable L K W st2 \<and> state_list_sources st2 = state_list_sources st \<and>
       map_of (sc_entries (st_cache st2)) = map_of (sc_entries (st_cache st1)) \<and>
       lru_iter L (sc_resident (st_cache st2)) = [] \<and>
       (\<forall>token. is_known_miss (st_cache st2) token =
          (canonical_token token \<in> canonical_token `
             {k. \<exists>e. map_of (sc_entries (st_cache st)) k = Some e \<and> me_miss e})) \<and>
       (\<forall>now token. map_of (sc_entries (st_cache st)) (canonical_token token) \<noteq> None \<longrightarrow>
          is_known_miss (record_miss now token (st_cache st)) token \<and>
          sc_entries (record_miss now token (st_cache st)) = sc_entries (st_cache st)) \<and>
       (\<forall>token. module_for L K W st2 token =
          (if is_known_miss (st_cache st2) token then None else located_module K W st token)) \<and>
       (\<forall>origin token. module_for L K W (import_manifest
            (m\<lparr>cm_entries := map (\<lambda>e. e\<lparr>me_origin := origin e\<rparr>) (cm_entries m)\<rparr>) fresh) token =
          module_for L K W st2 token) \<and>
       (\<forall>b. b = [] \<or> sj_from_slice J b = None \<longrightarrow> import_manifest (manifest_from_bytes J b) fresh = fresh)"
proof -
  note R = resident_lru.intro [OF assms(1)]
  define fresh where "fresh = state_with_budgets L max_bytes max_modules"
  define m where "m = fst (to_manifest L (rg_sources (st_sources st)) (st_cache st))"
  define st2 where "st2 = import_manifest m fresh"
  have bytes: "manifest_from_bytes J (manifest_to_bytes J m) = m"
    using assms(3) reads_back_bytes by (simp add: m_def export_manifest_def case_prod_beta)
  have inv: "state_inv L W K st" by (rule resident_lru.reachable_state_inv [OF R assms(2)])
  then have index: "index_inv (st_cache st)" by (simp add: state_inv_def cache_inv_def)
  note ex = resident_lru.export_entries [OF R index, of "rg_sources (st_sources st)", folded m_def]
  have cache: "st_cache st2 = rehydrate m (cache_new L max_bytes max_modules)"
    and src: "rg_sources (st_sources st2) = rg_sources (st_sources st)"
    by (simp_all add: st2_def import_manifest_def fresh_def state_with_budgets_def restore_def ex(3))
  have "manifest_ids_ok m"
    using inv ids_ok_manifest [of "st_sources st" m] ex(3) by (simp add: state_inv_def)
  then have r2: "reachable L K W st2" unfolding st2_def fresh_def by (rule import_reachable)
  have empty: "lru_iter L (sc_resident (st_cache st2)) = []"
    using lru_laws.new [OF assms(1)] by (simp add: cache cache_new_def)
  have "map_of (sc_entries (st_cache st2)) = entry_of (cm_entries m)"
    using ex(1) by (simp add: cache rehydrate_def rehydrate_entries strict_sorted_iff cache_new_def)
  then have fields: "state_list_sources st2 = state_list_sources st"
    "map_of (sc_entries (st_cache st2)) =
       map_of (sc_entries (snd (to_manifest L (rg_sources (st_sources st)) (st_cache st))))"
    by (simp_all add: state_list_sources_def src ex(2))
  have misses: "is_known_miss (st_cache st2) token =
      (canonical_token token \<in> canonical_token `
         {k. \<exists>e. map_of (sc_entries (st_cache st)) k = Some e \<and> me_miss e})" for token
    by (simp only: is_known_miss_def cache m_def resident_lru.exported_misses [OF R index])
  have lost: "\<forall>now token. map_of (sc_entries (st_cache st)) (canonical_token token) \<noteq> None \<longrightarrow>
      is_known_miss (record_miss now token (st_cache st)) token \<and>
      sc_entries (record_miss now token (st_cache st)) = sc_entries (st_cache st)"
    using resident_lru.record_miss_entry [OF R] by blast
  have "located_module K W st2 token = located_module K W st token" for token
    unfolding located_module_def local_sources_def src reachable_limits [OF r2]
      reachable_limits [OF assms(2)] ..
  then have relocated: "module_for L K W st2 token =
      (if is_known_miss (st_cache st2) token then None else located_module K W st token)" for token
    by (simp add: module_for_def resident_module_def empty split: option.split)
  have origins: "module_for L K W (import_manifest
        (m\<lparr>cm_entries := map (\<lambda>e. e\<lparr>me_origin := origin e\<rparr>) (cm_entries m)\<rparr>) fresh) token =
      module_for L K W st2 token" for origin token
    unfolding st2_def fresh_def by (rule imported_origins [OF assms(1)]) simp
  show ?thesis
    unfolding export_manifest_def Let_def case_prod_beta fst_conv snd_conv m_def [symmetric]
      fresh_def [symmetric] bytes st2_def [symmetric]
    using fields r2 empty misses lost relocated origins
    by (simp add: manifest_from_bytes_def fresh_def import_nothing)
qed

theorem cold_start_witness:
  "let m = fst (export_manifest list_lru demo_state);
       J = \<lparr>sj_to_vec = (\<lambda>x. if x = m then Some [0x7b, 0x7d] else None),
            sj_from_slice = (\<lambda>b. if b = [0x7b, 0x7d] then Some m else None)\<rparr>;
       st2 = import_manifest (manifest_from_bytes J (manifest_to_bytes J m))
         (state_with_budgets list_lru 10 2)
   in state_list_sources st2 = state_list_sources demo_state \<and>
      lru_iter list_lru (sc_resident (st_cache st2)) = []"
proof -
  define m where "m = fst (export_manifest list_lru demo_state)"
  define J where "J = \<lparr>sj_to_vec = (\<lambda>x. if x = m then Some [0x7b, 0x7d] else None),
      sj_from_slice = (\<lambda>b. if b = [0x7b, 0x7d] then Some m else None)\<rparr>"
  have "reads_back J (fst (export_manifest list_lru demo_state))"
    by (simp add: reads_back_def J_def flip: m_def)
  from cold_start [OF list_lru_laws demo_reachable this, of 10 2] show ?thesis
    by (simp add: Let_def case_prod_beta flip: m_def J_def)
qed

text \<open>
  C10: an export is complete and canonical: the entries come sorted by debug-id, each once,
  with the sources in their order, and the entry of a resident module carries its live
  statistics; nothing is evicted by exporting.
\<close>

theorem export_sorted:
  assumes "lru_laws L" "reachable L K W st"
  shows "let (m, st1) = export_manifest L st in
    sorted_wrt (<) (map me_debug_id (cm_entries m)) \<and> cm_sources m = state_list_sources st \<and>
    sc_resident (st_cache st1) = sc_resident (st_cache st) \<and>
    (\<forall>k. entry_of (cm_entries m) k =
      (case map_of (lru_iter L (sc_resident (st_cache st))) k of
         Some r \<Rightarrow> map_option (refresh_entry r) (map_of (sc_entries (st_cache st)) k)
       | None \<Rightarrow> map_of (sc_entries (st_cache st)) k))"
proof -
  note R = resident_lru.intro [OF assms(1)]
  have inv: "index_inv (st_cache st)"
    using resident_lru.reachable_state_inv [OF R assms(2)] by (simp add: state_inv_def cache_inv_def)
  show ?thesis
    unfolding export_manifest_def Let_def case_prod_beta fst_conv snd_conv
    using resident_lru.export_entries [OF R inv]
    by (simp add: resident_lru.exported(2) [OF R] resident_lru.sync_entry [OF R]
        resident_lru.sync_entries_frame [OF R] state_list_sources_def)
qed

theorem export_sorted_witness:
  "let (m, st1) = export_manifest list_lru demo_state in
    sorted_wrt (<) (map me_debug_id (cm_entries m)) \<and> cm_sources m = state_list_sources demo_state"
  using export_sorted [OF list_lru_laws demo_reachable] by (simp add: Let_def case_prod_beta)

text \<open>
  C11: the fast path agrees with the full one at the level of the worker: when the innermost
  frame of the answer to a token and an address has a function, \<^verbatim>\<open>function_name\<close> on the same
  state returns that function.
\<close>

theorem function_name_agrees:
  assumes "lru_laws L" "reachable L K W st" "probes_return W K" "world_stable W"
    and "fst (state_resolve L K W clock token addr st) = Returned fs" "rf_function (hd fs) = Some f"
  shows "fst (state_function_name L K W clock token addr st) = Returned (Some f)"
proof -
  note R = resident_lru.intro [OF assms(1)]
  note inv = resident_lru.reachable_state_inv [OF R assms(2)]
  have "fs = resolve_answer L K W st token addr"
    using resident_lru.state_resolve_spec [OF R inv assms(3,4), of clock token addr] assms(5) by simp
  with assms(6) have first: "rf_function (hd (resolve_answer L K W st token addr)) = Some f" by simp
  have cap: "0 < lim_max_inline_depth (st_limits st)"
    by (simp add: reachable_limits [OF assms(2)] default_limits_def)
  have "function_answer L K W st token addr = Some f"
  proof (cases "module_for L K W st token")
    case None
    with first show ?thesis by (simp add: resolve_answer_def not_found_frame_def default_frame_def)
  next
    case (Some r)
    then show ?thesis
    proof (cases r)
      case (Inl kind)
      with Some first show ?thesis by (simp add: resolve_answer_def error_frame_def default_frame_def)
    next
      case (Inr m)
      with Some first have "rf_function (hd (parsed_resolve K m addr (st_limits st))) = Some f"
        by (simp add: resolve_answer_def)
      with Some Inr parsed_function_name_first [OF cap] show ?thesis by (simp add: function_answer_def)
    qed
  qed
  then show ?thesis
    using resident_lru.state_function_name_spec [OF R inv assms(3,4), of clock token addr] by simp
qed

theorem function_name_agrees_witness:
  "fst (state_function_name list_lru demo demo_world (\<lambda>n. 5) ''AB-CD'' 0x11 demo_state) =
   Returned (Some ''leaf'')"
proof (rule function_name_agrees [OF list_lru_laws demo_reachable demo_probes demo_stable])
  have "st_limits demo_state = default_limits" by (rule reachable_limits [OF demo_reachable])
  then have answer: "resolve_answer list_lru demo demo_world demo_state ''AB-CD'' 0x11 =
      parsed_resolve demo demo_module 0x11 default_limits"
    by (simp add: resolve_answer_def demo_module_for)
  show "fst (state_resolve list_lru demo demo_world (\<lambda>n. 5) ''AB-CD'' 0x11 demo_state) =
      Returned (resolve_answer list_lru demo demo_world demo_state ''AB-CD'' 0x11)"
    using ref_cache.state_resolve_spec
      [OF ref_cache.reachable_state_inv [OF demo_reachable] demo_probes demo_stable] by blast
  show "rf_function (hd (resolve_answer list_lru demo demo_world demo_state ''AB-CD'' 0x11)) =
      Some ''leaf''"
    unfolding answer using demo_frames by (cases "parsed_resolve demo demo_module 0x11 default_limits") auto
qed

text \<open>
  \<^verbatim>\<open>cache_evict\<close> reads its token as positional constant 0: when that is absent, the whole
  resident set is cleared and the counter reset, whatever the named arguments say.
\<close>

lemma evict_named_arg:
  assumes "lru_laws L" "va_const_str args 0 = None"
  shows "case cache_evict_producer L args st of (freed, st1) \<Rightarrow>
    lru_iter L (sc_resident (st_cache st1)) = [] \<and> sc_resident_bytes (st_cache st1) = 0 \<and>
    freed = (\<Sum>p\<leftarrow>lru_iter L (sc_resident (st_cache st)). rs_bytes (snd p)) \<and>
    same_index (st_cache st) (st_cache st1) \<and> st_sources st1 = st_sources st"
  using resident_lru.cache_evict_none [OF resident_lru.intro [OF assms(1)]] assms(2)
  by (simp add: cache_evict_producer_def state_cache_evict_def case_prod_beta)

end
